(* ===== verification/Fabric_Prelude.thy ===== *)
theory Fabric_Prelude
  imports Main "HOL-Library.Word" "HOL-Library.AList" "HOL-Library.Multiset"
    "HOL-Library.List_Lexorder" "HOL-Library.Char_ord"
begin

text \<open>
  Shared vocabulary of the development: the machine integers, the two associative
  containers of the C++ standard library that the engine uses (\<open>std::unordered_map\<close>
  and \<open>std::map\<close>), \<open>std::to_string\<close> on unsigned integers, \<open>std::sort\<close> under a
  comparator, and the rule collections the component theories add to.

  Both containers are association lists read by \<^const>\<open>map_of\<close>.  A hashed map keeps
  its entries in an order the standard leaves open, so its list order stands for any
  iteration order; an ordered map keeps its keys strictly increasing.  What a client may
  rely on is stated once, in the locales \<open>key_store\<close> and \<open>erasable_store\<close>, and both
  containers are instances.
\<close>

named_theorems engine_defs \<open>unfolding rules of the engine operations\<close>
named_theorems frame_simps \<open>fields an engine operation leaves alone\<close>
named_theorems inv_intros \<open>invariant preservation, one rule per engine operation\<close>

type_synonym u8 = "8 word"
type_synonym u32 = "32 word"
type_synonym u64 = "64 word"
type_synonym bytes = "u8 list"

section \<open>Associative containers\<close>

type_synonym ('k, 'v) umap = "('k \<times> 'v) list"
type_synonym ('k, 'v) omap = "('k \<times> 'v) list"

abbreviation um_put :: "'k \<Rightarrow> 'v \<Rightarrow> ('k, 'v) umap \<Rightarrow> ('k, 'v) umap" where
  "um_put \<equiv> AList.update"

definition um_map_values :: "('v \<Rightarrow> 'w) \<Rightarrow> ('k \<times> 'v) list \<Rightarrow> ('k \<times> 'w) list" where
  "um_map_values f m = map (\<lambda>(k, v). (k, f v)) m"

fun om_put :: "'k::linorder \<Rightarrow> 'v \<Rightarrow> ('k, 'v) omap \<Rightarrow> ('k, 'v) omap" where
  "om_put k v [] = [(k, v)]"
| "om_put k v ((a, b) # m) =
     (if k < a then (k, v) # (a, b) # m
      else if k = a then (k, v) # m
      else (a, b) # om_put k v m)"

definition om_erase :: "'k \<Rightarrow> ('k, 'v) omap \<Rightarrow> ('k, 'v) omap" where
  "om_erase k m = filter (\<lambda>(a, _). a \<noteq> k) m"

definition om_ok :: "('k::linorder, 'v) omap \<Rightarrow> bool" where
  "om_ok m \<longleftrightarrow> sorted_wrt (<) (map fst m)"

definition um_ok :: "('k, 'v) umap \<Rightarrow> bool" where
  "um_ok m \<longleftrightarrow> distinct (map fst m)"

lemma map_of_om_put [simp]: "map_of (om_put k v m) = (map_of m)(k \<mapsto> v)"
  by (induction k v m rule: om_put.induct) auto

lemma map_of_om_erase [simp]: "map_of (om_erase k m) = (map_of m)(k := None)"
  by (induction m) (auto simp: om_erase_def)

lemma fst_set_om_put: "fst ` set (om_put k v m) = insert k (fst ` set m)"
  by (induction k v m rule: om_put.induct) auto

lemma om_ok_put: "om_ok m \<Longrightarrow> om_ok (om_put k v m)"
proof (induction k v m rule: om_put.induct)
  case (2 k v a b m)
  have "\<forall>x \<in> set (map fst (om_put k v m)). a < x" if "\<not> k < a" "k \<noteq> a"
  proof
    fix x assume "x \<in> set (map fst (om_put k v m))"
    then have "x = k \<or> x \<in> fst ` set m" using fst_set_om_put [of k v m] by simp
    then show "a < x" using that "2.prems" by (auto simp: om_ok_def)
  qed
  with 2 show ?case by (auto simp: om_ok_def)
qed (simp add: om_ok_def)

lemma om_ok_erase: "om_ok m \<Longrightarrow> om_ok (om_erase k m)"
  by (induction m) (auto simp: om_ok_def om_erase_def)

lemma um_ok_put: "um_ok m \<Longrightarrow> um_ok (um_put k v m)"
  by (simp add: um_ok_def distinct_update)

lemma keys_um_put: "set (map fst (um_put k v m)) = insert k (set (map fst m))"
  by (induction m) auto

lemma map_of_um_map_values [simp]: "map_of (um_map_values f m) k = map_option f (map_of m k)"
  by (induction m) (auto simp: um_map_values_def)

lemma keys_um_map_values [simp]: "map fst (um_map_values f m) = map fst m"
  by (induction m) (auto simp: um_map_values_def)

lemma um_ok_map_values [simp]: "um_ok (um_map_values f m) = um_ok m"
  by (simp add: um_ok_def)

lemma um_ok_Nil [simp]: "um_ok []"
  by (simp add: um_ok_def)

lemma om_ok_Nil [simp]: "om_ok []"
  by (simp add: om_ok_def)

lemma um_map_values_comp:
  "um_map_values f (um_map_values g m) = um_map_values (\<lambda>v. f (g v)) m"
  by (auto simp: um_map_values_def)

lemma um_map_values_cong:
  "(\<And>k v. (k, v) \<in> set m \<Longrightarrow> f v = g v) \<Longrightarrow> um_map_values f m = um_map_values g m"
  by (auto simp: um_map_values_def)

subsection \<open>What a client relies on\<close>

locale key_store =
  fixes find :: "'m \<Rightarrow> 'k \<Rightarrow> 'v option"
    and put :: "'k \<Rightarrow> 'v \<Rightarrow> 'm \<Rightarrow> 'm"
    and ok :: "'m \<Rightarrow> bool"
  assumes find_put: "find (put k v m) j = (if j = k then Some v else find m j)"
    and ok_put: "ok m \<Longrightarrow> ok (put k v m)"
begin

definition put_all :: "('v \<Rightarrow> 'k) \<Rightarrow> 'v list \<Rightarrow> 'm \<Rightarrow> 'm" where
  "put_all key vs m = foldl (\<lambda>m v. put (key v) v m) m vs"

lemma put_all_Nil [simp]: "put_all key [] m = m"
  by (simp add: put_all_def)

lemma put_all_Cons [simp]: "put_all key (v # vs) m = put_all key vs (put (key v) v m)"
  by (simp add: put_all_def)

lemma ok_put_all: "ok m \<Longrightarrow> ok (put_all key vs m)"
  by (induction vs arbitrary: m) (auto simp: ok_put)

lemma find_put_all_cases:
  "find (put_all key vs m) k = Some v \<Longrightarrow>
     (v \<in> set vs \<and> key v = k) \<or> find m k = Some v"
proof (induction vs arbitrary: m)
  case (Cons u vs)
  from Cons.prems have "find (put_all key vs (put (key u) u m)) k = Some v" by simp
  from Cons.IH [OF this] show ?case by (auto simp: find_put split: if_splits)
qed simp

lemma find_put_all_keep:
  "\<forall>v \<in> set vs. key v \<noteq> k \<Longrightarrow> find (put_all key vs m) k = find m k"
  by (induction vs arbitrary: m) (auto simp: find_put)

lemma find_put_all_distinct:
  "distinct (map key vs) \<Longrightarrow> v \<in> set vs \<Longrightarrow> find (put_all key vs m) (key v) = Some v"
proof (induction vs arbitrary: m)
  case (Cons u vs)
  show ?case
  proof (cases "v = u")
    case True
    with Cons.prems have "\<forall>w \<in> set vs. key w \<noteq> key u" by (auto simp: image_iff)
    with True show ?thesis by (simp add: find_put_all_keep find_put)
  next
    case False
    with Cons show ?thesis by auto
  qed
qed simp

end

locale erasable_store = key_store +
  fixes erase :: "'b \<Rightarrow> 'a \<Rightarrow> 'a"
  assumes find_erase: "find (erase k m) j = (if j = k then None else find m j)"
    and ok_erase: "ok m \<Longrightarrow> ok (erase k m)"
begin

lemma erase_put_other: "j \<noteq> k \<Longrightarrow> find (erase k (put k v m)) j = find m j"
  by (simp add: find_erase find_put)

lemma find_erase_None: "find m k = None \<Longrightarrow> find (erase k m) = find m"
  by (rule ext) (simp add: find_erase)

end

interpretation hashed: key_store map_of um_put um_ok
  by unfold_locales (auto simp: update_conv um_ok_put)

interpretation ordered: erasable_store map_of om_put om_ok om_erase
  by unfold_locales (auto simp: om_ok_put om_ok_erase)

subsection \<open>Tables filed under their own identifier\<close>

definition keyed :: "('v \<Rightarrow> 'k) \<Rightarrow> ('k, 'v) umap \<Rightarrow> bool" where
  "keyed key m \<longleftrightarrow> um_ok m \<and> (\<forall>(k, v) \<in> set m. key v = k)"

lemma keyed_Nil [simp]: "keyed key []"
  by (simp add: keyed_def)

lemma keyed_put: "keyed key m \<Longrightarrow> key v = k \<Longrightarrow> keyed key (um_put k v m)"
proof -
  assume ok: "keyed key m" and v: "key v = k"
  have "set (um_put k v m) \<subseteq> insert (k, v) (set m)" by (induction m) auto
  with ok v show ?thesis by (auto simp: keyed_def um_ok_put)
qed

lemma keyed_map_values: "keyed key m \<Longrightarrow> (\<And>v. key (f v) = key v) \<Longrightarrow> keyed key (um_map_values f m)"
  by (auto simp: keyed_def um_map_values_def um_ok_def comp_def case_prod_beta)

lemma keyed_lookup: "keyed key m \<Longrightarrow> map_of m k = Some v \<Longrightarrow> key v = k"
  by (auto simp: keyed_def dest: map_of_SomeD)

lemma keyed_member: "keyed key m \<Longrightarrow> (k, v) \<in> set m \<Longrightarrow> map_of m k = Some v \<and> key v = k"
  by (auto simp: keyed_def um_ok_def)

lemma keyed_inj: "keyed key m \<Longrightarrow> inj_on key (snd ` set m)"
proof (rule inj_onI)
  fix v w assume ok: "keyed key m" and mem: "v \<in> snd ` set m" "w \<in> snd ` set m" and eq: "key v = key w"
  have "map_of m (key u) = Some u" if "u \<in> snd ` set m" for u
  proof -
    from that obtain k where "(k, u) \<in> set m" by force
    from keyed_member [OF ok this] show ?thesis by simp
  qed
  with mem eq show "v = w" by (metis option.inject)
qed

section \<open>Decimal rendering\<close>

text \<open>\<open>std::to_string\<close> of an unsigned value.\<close>

definition digit_char :: "int \<Rightarrow> char" where
  "digit_char d = (''0123456789'') ! nat d"

function dec_string :: "int \<Rightarrow> string" where
  "dec_string n =
     (if n < 10 then [digit_char n] else dec_string (n div 10) @ [digit_char (n mod 10)])"
  by pat_completeness auto
termination by (relation "measure nat") auto

declare dec_string.simps [simp del]

definition to_string :: "u64 \<Rightarrow> string" where
  "to_string v = dec_string (uint v)"

definition digit_val :: "char \<Rightarrow> int" where
  "digit_val c = of_char c - 48"

definition dec_val :: "string \<Rightarrow> int" where
  "dec_val s = foldl (\<lambda>a c. 10 * a + digit_val c) 0 s"

lemma small_digit_cases:
  fixes d :: int
  assumes "0 \<le> d" "d < 10"
  shows "d \<in> {0, 1, 2, 3, 4, 5, 6, 7, 8, 9}"
  using assms by simp presburger

lemma digit_val_char: "0 \<le> d \<Longrightarrow> d < 10 \<Longrightarrow> digit_val (digit_char d) = d"
  by (drule (1) small_digit_cases) (auto simp: digit_val_def digit_char_def)

lemma digit_char_set: "0 \<le> d \<Longrightarrow> d < 10 \<Longrightarrow> digit_char d \<in> set ''0123456789''"
  by (drule (1) small_digit_cases) (auto simp: digit_char_def)

lemma dec_val_snoc [simp]: "dec_val (s @ [c]) = 10 * dec_val s + digit_val c"
  by (simp add: dec_val_def)

lemma dec_val_single [simp]: "dec_val [c] = digit_val c"
  by (simp add: dec_val_def)

lemma dec_val_dec_string: "0 \<le> n \<Longrightarrow> dec_val (dec_string n) = n"
proof (induction n rule: dec_string.induct)
  case (1 n)
  show ?case
  proof (cases "n < 10")
    case True
    with "1.prems" show ?thesis by (simp add: dec_string.simps [of n] digit_val_char)
  next
    case False
    then have "dec_val (dec_string (n div 10)) = n div 10" using "1.IH" by simp
    with False show ?thesis by (simp add: dec_string.simps [of n] digit_val_char)
  qed
qed

lemma dec_string_digits: "0 \<le> n \<Longrightarrow> set (dec_string n) \<subseteq> set ''0123456789''"
proof (induction n rule: dec_string.induct)
  case (1 n)
  show ?case
  proof (cases "n < 10")
    case True
    with "1.prems" show ?thesis using digit_char_set [of n] by (simp add: dec_string.simps [of n])
  next
    case False
    then have "set (dec_string (n div 10)) \<subseteq> set ''0123456789''" using "1.IH" by simp
    with False show ?thesis
      using digit_char_set [of "n mod 10"] by (simp add: dec_string.simps [of n])
  qed
qed

lemma to_string_inject [simp]: "to_string a = to_string b \<longleftrightarrow> a = b"
proof
  assume "to_string a = to_string b"
  then have "dec_val (dec_string (uint a)) = dec_val (dec_string (uint b))"
    by (simp add: to_string_def)
  then show "a = b" by (simp add: dec_val_dec_string word_uint_eq_iff)
qed simp

lemma to_string_digits: "set (to_string a) \<subseteq> set ''0123456789''"
  unfolding to_string_def by (rule dec_string_digits) simp

text \<open>Two renderings joined by a separator that starts with a non-digit parse uniquely.\<close>

lemma append_sep_inject:
  assumes "set a \<subseteq> D" "set b \<subseteq> D" "c \<notin> D"
    and "a @ c # x = b @ c # y"
  shows "a = b \<and> x = y"
  using assms
proof (induction a arbitrary: b)
  case Nil
  then show ?case by (cases b) auto
next
  case (Cons d a)
  then show ?case by (cases b) auto
qed

section \<open>Sorting under a comparator\<close>

text \<open>
  \<open>std::sort\<close> with a strict comparator, as insertion sort.  The engine only calls it with
  comparators that order any two distinct elements, for which every sorting algorithm
  returns the same list; \<open>std_sort_unique\<close> is that fact.
\<close>

fun std_insert :: "('a \<Rightarrow> 'a \<Rightarrow> bool) \<Rightarrow> 'a \<Rightarrow> 'a list \<Rightarrow> 'a list" where
  "std_insert lt x [] = [x]"
| "std_insert lt x (y # ys) = (if lt y x then y # std_insert lt x ys else x # y # ys)"

definition std_sort :: "('a \<Rightarrow> 'a \<Rightarrow> bool) \<Rightarrow> 'a list \<Rightarrow> 'a list" where
  "std_sort lt xs = foldr (std_insert lt) xs []"

lemma mset_std_insert [simp]: "mset (std_insert lt x ys) = add_mset x (mset ys)"
  by (induction ys) auto

lemma mset_std_sort [simp]: "mset (std_sort lt xs) = mset xs"
  by (induction xs) (auto simp: std_sort_def)

lemma set_std_sort [simp]: "set (std_sort lt xs) = set xs"
  by (metis mset_std_sort set_mset_mset)

lemma length_std_sort [simp]: "length (std_sort lt xs) = length xs"
  by (metis mset_std_sort size_mset)

lemma distinct_std_sort [simp]: "distinct (std_sort lt xs) = distinct xs"
  by (metis mset_std_sort mset_eq_imp_distinct_iff)

lemma std_insert_key:
  assumes "\<And>a b. a \<in> insert x (set ys) \<Longrightarrow> b \<in> insert x (set ys) \<Longrightarrow> lt a b = (key a < key b)"
  shows "std_insert lt x ys = insort_key key x ys"
  using assms
proof (induction ys)
  case (Cons y ys)
  have "lt y x = (key y < key x)" using Cons.prems by simp
  with Cons show ?case by auto
qed simp

lemma std_sort_key:
  fixes key :: "'a \<Rightarrow> 'k::linorder"
  assumes "\<And>a b. a \<in> set xs \<Longrightarrow> b \<in> set xs \<Longrightarrow> lt a b = (key a < key b)"
  shows "std_sort lt xs = sort_key key xs"
  using assms
proof (induction xs)
  case (Cons x xs)
  have tail: "foldr (std_insert lt) xs [] = sort_key key xs"
    using Cons by (simp add: std_sort_def)
  have "std_insert lt x (sort_key key xs) = insort_key key x (sort_key key xs)"
    by (rule std_insert_key) (use Cons.prems in simp)
  with tail show ?case by (simp add: std_sort_def)
qed (simp add: std_sort_def)

lemma std_sort_unique:
  fixes key :: "'a \<Rightarrow> 'k::linorder"
  assumes cmp: "\<And>a b. a \<in> set xs \<Longrightarrow> b \<in> set xs \<Longrightarrow> lt a b = (key a < key b)"
    and inj: "inj_on key (set xs)"
    and perm: "mset ys = mset xs"
  shows "std_sort lt ys = std_sort lt xs"
proof -
  have same: "set ys = set xs" by (metis perm set_mset_mset)
  have xs: "std_sort lt xs = sort_key key xs" by (rule std_sort_key) (rule cmp)
  have ys: "std_sort lt ys = sort_key key ys" by (rule std_sort_key) (use cmp same in simp)
  have "sort_key key ys = sort_key key xs"
  proof (rule properties_for_sort_key)
    show "mset (sort_key key xs) = mset ys" by (simp add: perm)
    show "sorted (map key (sort_key key xs))" by simp
    show "filter (\<lambda>b. key a = key b) (sort_key key xs) = filter (\<lambda>b. key a = key b) ys"
      if "a \<in> set (sort_key key xs)" for a
    proof -
      have a: "a \<in> set xs" using that by simp
      have "b = a" if "b \<in> set xs" "key a = key b" for b
        using inj a that by (metis inj_onD)
      then have eq: "filter (\<lambda>b. key a = key b) zs = filter (\<lambda>b. a = b) zs"
        if "set zs = set xs" for zs
        using that by (intro filter_cong) auto
      have "filter (\<lambda>b. a = b) zs = replicate (count (mset zs) a) a" for zs
        by (induction zs) auto
      then show ?thesis using eq [of ys] eq [of "sort_key key xs"] same perm by simp
    qed
  qed
  then show ?thesis using xs ys by simp
qed

section \<open>Counted loops\<close>

text \<open>A fold stops changing once the accumulator has reached a bound.\<close>

lemma length_foldl_bound:
  assumes "\<And>a x. length a \<le> n \<Longrightarrow> length (f a x) \<le> n" and "length a \<le> n"
  shows "length (foldl f a xs) \<le> n"
  using assms(2) by (induction xs arbitrary: a) (auto simp: assms(1))

lemma foldl_keeps: "P s \<Longrightarrow> (\<And>t x. P t \<Longrightarrow> P (f t x)) \<Longrightarrow> P (foldl f s xs)"
  by (induction xs arbitrary: s) simp_all

lemma foldl_commute: "(\<And>t x. h (f t x) = g (h t) x) \<Longrightarrow> h (foldl f t xs) = foldl g (h t) xs"
  by (induction xs arbitrary: t) simp_all

end
