(* ===== verification/Fabric_Bytes.thy ===== *)
theory Fabric_Bytes
  imports Fabric_Prelude
begin

unbundle bit_operations_syntax

text \<open>
  Little-endian integers and the 64-bit FNV-1a hash, as the frame layer
  (\<open>src/dfabric/protocol.cpp\<close>, lines 77--95) and the durable file format use them.  The
  locale \<open>stream_checksum\<close> states what makes a byte-wise checksum detect every change of a
  single byte; \<open>Fnv\<close> is an instance.
\<close>

section \<open>Little-endian integers\<close>

definition PutU32 :: "u32 \<Rightarrow> bytes" where
  "PutU32 x = map (\<lambda>i. ucast (drop_bit (8 * i) x)) [0..<4]"

definition PutU64 :: "u64 \<Rightarrow> bytes" where
  "PutU64 x = map (\<lambda>i. ucast (drop_bit (8 * i) x)) [0..<8]"

definition GetU32 :: "bytes \<Rightarrow> nat \<Rightarrow> u32" where
  "GetU32 d off = foldl (\<lambda>v i. v OR push_bit (8 * i) (ucast (d ! (off + i)))) 0 [0..<4]"

definition GetU64 :: "bytes \<Rightarrow> nat \<Rightarrow> u64" where
  "GetU64 d off = foldl (\<lambda>v i. v OR push_bit (8 * i) (ucast (d ! (off + i)))) 0 [0..<8]"

section \<open>FNV-1a\<close>

definition fnv_step :: "u64 \<Rightarrow> u8 \<Rightarrow> u64" where
  "fnv_step h b = (h XOR ucast b) * 0x100000001b3"

definition Fnv :: "bytes \<Rightarrow> u64" where
  "Fnv d = foldl fnv_step 0xcbf29ce484222325 d"

section \<open>Round trips\<close>

lemma length_PutU32 [simp]: "length (PutU32 x) = 4"
  by (simp add: PutU32_def)

lemma length_PutU64 [simp]: "length (PutU64 x) = 8"
  by (simp add: PutU64_def)

lemma byte_bits:
  fixes x :: "'a::len word"
  shows "bit (push_bit k (ucast (ucast (drop_bit k x) :: u8)) :: 'a word) n \<longleftrightarrow>
    k \<le> n \<and> n < k + 8 \<and> bit x n"
  by (auto simp: bit_simps dest: bit_imp_le_length)

lemma get_bytes:
  fixes x :: "'a::len word"
  shows "bit (foldl (\<lambda>v i. v OR push_bit (8 * i) (ucast (ucast (drop_bit (8 * i) x) :: u8))) (0 :: 'a word) [0..<k]) n \<longleftrightarrow>
    n < 8 * k \<and> bit x n"
  by (induction k) (auto simp: bit_or_iff byte_bits)

lemma foldl_upt_cong:
  "(\<And>i a. i < k \<Longrightarrow> f a i = g a i) \<Longrightarrow> foldl f a [0..<k] = foldl g a [0..<k]"
  by (rule foldl_cong) auto

lemma GetU32_Put: "GetU32 (pre @ PutU32 x @ post) (length pre) = x"
proof -
  have "GetU32 (pre @ PutU32 x @ post) (length pre) =
      foldl (\<lambda>v i. v OR push_bit (8 * i) (ucast (ucast (drop_bit (8 * i) x) :: u8))) 0 [0..<4]"
    unfolding GetU32_def by (rule foldl_upt_cong) (simp add: nth_append PutU32_def)
  moreover have "\<dots> = x" by (rule bit_word_eqI) (simp only: get_bytes, simp)
  ultimately show ?thesis by simp
qed

lemma GetU64_Put: "GetU64 (pre @ PutU64 x @ post) (length pre) = x"
proof -
  have "GetU64 (pre @ PutU64 x @ post) (length pre) =
      foldl (\<lambda>v i. v OR push_bit (8 * i) (ucast (ucast (drop_bit (8 * i) x) :: u8))) 0 [0..<8]"
    unfolding GetU64_def by (rule foldl_upt_cong) (simp add: nth_append PutU64_def)
  moreover have "\<dots> = x" by (rule bit_word_eqI) (simp only: get_bytes, simp)
  ultimately show ?thesis by simp
qed

text \<open>A read only looks at the bytes it covers.\<close>

lemma GetU32_cong: "(\<And>i. i < 4 \<Longrightarrow> d ! (off + i) = d' ! (off + i)) \<Longrightarrow> GetU32 d off = GetU32 d' off"
  unfolding GetU32_def by (rule foldl_upt_cong) simp

lemma GetU64_cong: "(\<And>i. i < 8 \<Longrightarrow> d ! (off + i) = d' ! (off + i)) \<Longrightarrow> GetU64 d off = GetU64 d' off"
  unfolding GetU64_def by (rule foldl_upt_cong) simp

lemma GetU32_append: "off + 4 \<le> length d \<Longrightarrow> GetU32 (d @ e) off = GetU32 d off"
  by (rule GetU32_cong) (simp add: nth_append)

lemma GetU64_append: "off + 8 \<le> length d \<Longrightarrow> GetU64 (d @ e) off = GetU64 d off"
  by (rule GetU64_cong) (simp add: nth_append)

text \<open>Distinct bytes read as distinct integers.\<close>

lemma get_bits:
  fixes d :: bytes
  shows "bit (foldl (\<lambda>v i. v OR push_bit (8 * i) (ucast (d ! (off + i)))) (0 :: 'a::len word) [0..<k]) n \<longleftrightarrow>
    n < 8 * k \<and> n < LENGTH('a) \<and> bit (d ! (off + n div 8)) (n mod 8)"
proof (induction k)
  case (Suc k)
  let ?b = "d ! (off + k)"
  have byte: "bit ?b m \<longleftrightarrow> m < 8 \<and> bit ?b m" for m by (auto dest: bit_imp_le_length)
  have "bit (push_bit (8 * k) (ucast ?b) :: 'a word) n \<longleftrightarrow> 8 * k \<le> n \<and> n < LENGTH('a) \<and> bit ?b (n - 8 * k)"
    by (auto simp: bit_simps)
  also have "\<dots> \<longleftrightarrow> n < LENGTH('a) \<and> (8 * k \<le> n \<and> n - 8 * k < 8) \<and> bit ?b (n - 8 * k)"
    using byte [of "n - 8 * k"] by blast
  also have "8 * k \<le> n \<and> n - 8 * k < 8 \<longleftrightarrow> n div 8 = k" by linarith
  also have "n < LENGTH('a) \<and> n div 8 = k \<and> bit ?b (n - 8 * k) \<longleftrightarrow>
      n < LENGTH('a) \<and> n div 8 = k \<and> bit (d ! (off + n div 8)) (n mod 8)"
    by (auto simp: minus_mult_div_eq_mod)
  finally have last: "bit (push_bit (8 * k) (ucast ?b) :: 'a word) n \<longleftrightarrow>
      n < LENGTH('a) \<and> n div 8 = k \<and> bit (d ! (off + n div 8)) (n mod 8)" .
  have split: "n < 8 * Suc k \<longleftrightarrow> n < 8 * k \<or> n div 8 = k" by (simp add: div_nat_eqI) linarith
  show ?case using Suc.IH by (simp only: upt_Suc foldl_append foldl_Cons foldl_Nil bit_or_iff last split zero_le if_True) blast
qed simp

lemma GetU64_inject:
  assumes "GetU64 d off = GetU64 d' off" "i < 8"
  shows "d ! (off + i) = d' ! (off + i)"
proof (rule bit_word_eqI)
  fix n assume "n < LENGTH(8)"
  then have n: "n < 8" by simp
  have "bit (GetU64 d off) (8 * i + n) = bit (GetU64 d' off) (8 * i + n)" using assms(1) by simp
  with n assms(2) show "bit (d ! (off + i)) n = bit (d' ! (off + i)) n" unfolding GetU64_def get_bits by simp
qed

lemma GetU32_inject:
  assumes "GetU32 d off = GetU32 d' off" "i < 4"
  shows "d ! (off + i) = d' ! (off + i)"
proof (rule bit_word_eqI)
  fix n assume "n < LENGTH(8)"
  then have n: "n < 8" by simp
  have "bit (GetU32 d off) (8 * i + n) = bit (GetU32 d' off) (8 * i + n)" using assms(1) by simp
  with n assms(2) show "bit (d ! (off + i)) n = bit (d' ! (off + i)) n" unfolding GetU32_def get_bits by simp
qed

section \<open>What a byte-wise checksum detects\<close>

locale stream_checksum =
  fixes mix :: "'h \<Rightarrow> 'b \<Rightarrow> 'h" and start :: 'h
  assumes mix_state: "mix h b = mix h' b \<Longrightarrow> h = h'"
    and mix_byte: "mix h b = mix h b' \<Longrightarrow> b = b'"
begin

definition digest :: "'b list \<Rightarrow> 'h" where
  "digest bs = foldl mix start bs"

lemma foldl_mix_inject: "foldl mix h bs = foldl mix h' bs \<Longrightarrow> h = h'"
  by (induction bs arbitrary: h h') (auto dest: mix_state)

lemma detects_byte:
  assumes "i < length bs" "digest (bs[i := b]) = digest bs"
  shows "b = bs ! i"
proof -
  have "foldl mix start (take i bs @ b # drop (Suc i) bs) = foldl mix start (take i bs @ bs ! i # drop (Suc i) bs)"
    using assms by (simp add: digest_def upd_conv_take_nth_drop id_take_nth_drop [symmetric] del: foldl_append)
  then have "foldl mix (mix (foldl mix start (take i bs)) b) (drop (Suc i) bs) =
      foldl mix (mix (foldl mix start (take i bs)) (bs ! i)) (drop (Suc i) bs)" by simp
  then show ?thesis by (rule mix_byte [OF foldl_mix_inject])
qed

end

lemma odd_prime_invertible: "(0x100000001b3 :: u64) * 0xce965057aff6957b = 1"
  by simp

lemma mult_prime_inject: "a * 0x100000001b3 = b * (0x100000001b3 :: u64) \<Longrightarrow> a = b"
proof -
  assume "a * 0x100000001b3 = b * (0x100000001b3 :: u64)"
  then have "a * 0x100000001b3 * 0xce965057aff6957b = b * 0x100000001b3 * (0xce965057aff6957b :: u64)" by (rule arg_cong)
  then show "a = b" unfolding mult.assoc odd_prime_invertible by simp
qed

lemma xor_inject_left: "a XOR c = b XOR c \<Longrightarrow> a = (b :: 'a::len word)"
proof -
  assume "a XOR c = b XOR c"
  then have "(a XOR c) XOR c = (b XOR c) XOR c" by simp
  then show "a = b" by (simp add: xor.assoc)
qed

lemma ucast_u8_inject: "(ucast (b :: u8) :: u64) = ucast b' \<Longrightarrow> b = b'"
proof -
  assume eq: "(ucast (b :: u8) :: u64) = ucast b'"
  have "(ucast (ucast b :: u64) :: u8) = b" for b :: u8 by (rule bit_word_eqI) (simp add: bit_simps)
  with eq show ?thesis by metis
qed

interpretation fnv: stream_checksum fnv_step "0xcbf29ce484222325"
  rewrites "stream_checksum.digest fnv_step 0xcbf29ce484222325 = Fnv"
proof -
  show sc: "stream_checksum fnv_step"
  proof
    show "h = h'" if "fnv_step h b = fnv_step h' b" for h h' b
      using that unfolding fnv_step_def by (rule xor_inject_left [OF mult_prime_inject])
    show "b = b'" if "fnv_step h b = fnv_step h b'" for h b b'
    proof -
      have "ucast b XOR h = ucast b' XOR h"
        using mult_prime_inject [OF that [unfolded fnv_step_def]] by (simp only: xor.commute)
      then show ?thesis by (rule ucast_u8_inject [OF xor_inject_left])
    qed
  qed
  show "stream_checksum.digest fnv_step 0xcbf29ce484222325 = Fnv"
    by (rule ext) (simp add: stream_checksum.digest_def [OF sc] Fnv_def)
qed

text \<open>A change of one byte of a block that ends in its own checksum shows.\<close>

lemma trailer_detects:
  assumes block: "block = body @ PutU64 (Fnv body)" and i: "i < length block" and b: "b \<noteq> block ! i"
  shows "GetU64 (block[i := b]) (length body) \<noteq> Fnv (take (length body) (block[i := b]))"
proof -
  let ?n = "length body" and ?d = "block[i := b]"
  have stored: "GetU64 block ?n = Fnv body" using GetU64_Put [of body "Fnv body" "[]"] by (simp add: block)
  show ?thesis
  proof (cases "i < ?n")
    case True
    have "GetU64 ?d ?n = GetU64 block ?n" by (rule GetU64_cong) (use True in \<open>simp add: nth_list_update\<close>)
    moreover have "take ?n ?d = body[i := b]" by (simp add: take_update_swap block)
    moreover have "Fnv (body[i := b]) \<noteq> Fnv body"
      using fnv.detects_byte [of i body b] True b by (auto simp: block nth_append)
    ultimately show ?thesis using stored by simp
  next
    case False
    have "take ?n ?d = body" using False by (simp add: take_update_cancel block)
    moreover have "GetU64 ?d ?n \<noteq> GetU64 block ?n"
    proof
      assume eq: "GetU64 ?d ?n = GetU64 block ?n"
      have "i - ?n < 8" using i False by (simp add: block)
      from GetU64_inject [OF eq this] False i b show False by simp
    qed
    ultimately show ?thesis using stored by simp
  qed
qed

end
