(* ===== verification/Fabric_Ids.thy ===== *)
theory Fabric_Ids
  imports Fabric_Prelude
begin

text \<open>
  \<open>include/dfabric/ids.hpp\<close>: identities and generations.  Both are 64-bit values with a
  phantom tag, so that identities of different kinds are different HOL types, as they are
  different C++ types; zero is the invalid sentinel.  The \<open>std::hash\<close> specialisations have
  no counterpart: a hashed map is modelled by its entries only.
\<close>

section \<open>Identities\<close>

datatype IdentityError = IdentityError string

datatype 'tag StrongId = StrongId (Value: u64)

definition IsZero :: "'tag StrongId \<Rightarrow> bool" where
  "IsZero i \<longleftrightarrow> Value i = 0"

definition IsValid :: "'tag StrongId \<Rightarrow> bool" where
  "IsValid i \<longleftrightarrow> Value i \<noteq> 0"

definition Require :: "u64 \<Rightarrow> string \<Rightarrow> IdentityError + 'tag StrongId" where
  "Require v what =
     (if v = 0 then Inl (IdentityError (''zero identity rejected: '' @ what)) else Inr (StrongId v))"

definition id_ToString :: "'tag StrongId \<Rightarrow> string" where
  "id_ToString i = to_string (Value i)"

definition id_le :: "'tag StrongId \<Rightarrow> 'tag StrongId \<Rightarrow> bool" where
  "id_le a b \<longleftrightarrow> Value a \<le> Value b"

definition id_lt :: "'tag StrongId \<Rightarrow> 'tag StrongId \<Rightarrow> bool" where
  "id_lt a b \<longleftrightarrow> Value a < Value b"

definition id_gt :: "'tag StrongId \<Rightarrow> 'tag StrongId \<Rightarrow> bool" where
  "id_gt a b \<longleftrightarrow> Value a > Value b"

text \<open>The operators of the class are the order of the library's type class.\<close>

instantiation StrongId :: (type) linorder
begin

definition less_eq_StrongId :: "'a StrongId \<Rightarrow> 'a StrongId \<Rightarrow> bool" where
  "less_eq_StrongId = id_le"

definition less_StrongId :: "'a StrongId \<Rightarrow> 'a StrongId \<Rightarrow> bool" where
  "less_StrongId = id_lt"

instance
  by standard (auto simp: less_eq_StrongId_def less_StrongId_def id_le_def id_lt_def intro: StrongId.expand)

end

section \<open>Generations\<close>

datatype 'tag StrongGeneration = StrongGeneration (gen_Value: u64)

definition gen_IsZero :: "'tag StrongGeneration \<Rightarrow> bool" where
  "gen_IsZero g \<longleftrightarrow> gen_Value g = 0"

definition gen_IsValid :: "'tag StrongGeneration \<Rightarrow> bool" where
  "gen_IsValid g \<longleftrightarrow> gen_Value g \<noteq> 0"

definition gen_Next :: "'tag StrongGeneration \<Rightarrow> 'tag StrongGeneration" where
  "gen_Next g = (let v = gen_Value g + 1 in StrongGeneration (if v = 0 then 1 else v))"

definition gen_Require :: "u64 \<Rightarrow> string \<Rightarrow> IdentityError + 'tag StrongGeneration" where
  "gen_Require v what =
     (if v = 0 then Inl (IdentityError (''zero generation rejected: '' @ what))
      else Inr (StrongGeneration v))"

definition gen_ToString :: "'tag StrongGeneration \<Rightarrow> string" where
  "gen_ToString g = to_string (gen_Value g)"

definition gen_le :: "'tag StrongGeneration \<Rightarrow> 'tag StrongGeneration \<Rightarrow> bool" where
  "gen_le a b \<longleftrightarrow> gen_Value a \<le> gen_Value b"

definition gen_lt :: "'tag StrongGeneration \<Rightarrow> 'tag StrongGeneration \<Rightarrow> bool" where
  "gen_lt a b \<longleftrightarrow> gen_Value a < gen_Value b"

instantiation StrongGeneration :: (type) linorder
begin

definition less_eq_StrongGeneration :: "'a StrongGeneration \<Rightarrow> 'a StrongGeneration \<Rightarrow> bool" where
  "less_eq_StrongGeneration = gen_le"

definition less_StrongGeneration :: "'a StrongGeneration \<Rightarrow> 'a StrongGeneration \<Rightarrow> bool" where
  "less_StrongGeneration = gen_lt"

instance
  by standard
    (auto simp: less_eq_StrongGeneration_def less_StrongGeneration_def gen_le_def gen_lt_def intro: StrongGeneration.expand)

end

section \<open>Tags and aliases\<close>

typedecl ResourceIdTag
typedecl ResourceGenTag
typedecl ResourceSetIdTag
typedecl ResourceSetGenTag
typedecl CompositionIdTag
typedecl CompositionGenTag
typedecl NodeIdTag
typedecl NodeGenTag
typedecl AttachmentIdTag
typedecl AttachmentGenTag
typedecl CapabilityIdTag
typedecl CapabilityGenTag
typedecl CompatibilityIdTag
typedecl CompatibilityGenTag
typedecl PathEvidenceIdTag
typedecl PathGenTag
typedecl ReservationIdTag
typedecl ReservationGenTag
typedecl PolicyIdTag
typedecl PolicyGenTag
typedecl EvidenceIdTag
typedecl EvidenceGenTag
typedecl WorkerIdTag
typedecl WorkerBootIdTag
typedecl CoordinatorIdTag
typedecl CoordinatorEpochTag
typedecl FailureDomainIdTag
typedecl ConsumerIdTag
typedecl ConsumerGenTag

type_synonym ResourceId = "ResourceIdTag StrongId"
type_synonym ResourceGeneration = "ResourceGenTag StrongGeneration"
type_synonym ResourceSetId = "ResourceSetIdTag StrongId"
type_synonym ResourceSetGeneration = "ResourceSetGenTag StrongGeneration"
type_synonym CompositionId = "CompositionIdTag StrongId"
type_synonym CompositionGeneration = "CompositionGenTag StrongGeneration"
type_synonym NodeId = "NodeIdTag StrongId"
type_synonym NodeGeneration = "NodeGenTag StrongGeneration"
type_synonym AttachmentId = "AttachmentIdTag StrongId"
type_synonym AttachmentGeneration = "AttachmentGenTag StrongGeneration"
type_synonym CapabilityId = "CapabilityIdTag StrongId"
type_synonym CapabilityGeneration = "CapabilityGenTag StrongGeneration"
type_synonym CompatibilityId = "CompatibilityIdTag StrongId"
type_synonym CompatibilityGeneration = "CompatibilityGenTag StrongGeneration"
type_synonym PathEvidenceId = "PathEvidenceIdTag StrongId"
type_synonym PathGeneration = "PathGenTag StrongGeneration"
type_synonym ReservationId = "ReservationIdTag StrongId"
type_synonym ReservationGeneration = "ReservationGenTag StrongGeneration"
type_synonym PolicyId = "PolicyIdTag StrongId"
type_synonym PolicyGeneration = "PolicyGenTag StrongGeneration"
type_synonym EvidenceId = "EvidenceIdTag StrongId"
type_synonym EvidenceGeneration = "EvidenceGenTag StrongGeneration"
type_synonym WorkerId = "WorkerIdTag StrongId"
type_synonym WorkerBootId = "WorkerBootIdTag StrongId"
type_synonym CoordinatorId = "CoordinatorIdTag StrongId"
type_synonym CoordinatorEpoch = "CoordinatorEpochTag StrongGeneration"
type_synonym FailureDomainId = "FailureDomainIdTag StrongId"
type_synonym ConsumerId = "ConsumerIdTag StrongId"
type_synonym ConsumerGeneration = "ConsumerGenTag StrongGeneration"

section \<open>Laws\<close>

lemma StrongId_Value_eq [simp]: "Value a = Value b \<longleftrightarrow> a = b"
  by (cases a; cases b) simp

lemma id_ToString_inject [simp]: "id_ToString a = id_ToString b \<longleftrightarrow> a = b"
  by (simp add: id_ToString_def)

lemma id_ToString_digits: "set (id_ToString a) \<subseteq> set ''0123456789''"
  unfolding id_ToString_def by (rule to_string_digits)

lemma gen_ToString_inject [simp]: "gen_ToString a = gen_ToString b \<longleftrightarrow> a = b"
  by (cases a; cases b) (simp add: gen_ToString_def)

lemma IsZero_iff: "IsZero i \<longleftrightarrow> \<not> IsValid i"
  by (simp add: IsZero_def IsValid_def)

lemma Require_Inr_iff: "Require v what = Inr i \<longleftrightarrow> IsValid i \<and> Value i = v"
  by (cases i) (auto simp: Require_def IsValid_def)

lemma word_add_one_zero: "(v :: u64) + 1 = 0 \<longleftrightarrow> v = - 1"
  by (simp add: add_eq_0_iff2)

text \<open>
  A generation never becomes the zero sentinel: it counts up by one, and the step past
  the largest 64-bit value wraps to one.  So the returned value is never zero, and a
  wrap-around shows only as a generation that is not above its predecessor.
\<close>

lemma gen_Next_step: "g < gen_Next g \<or> gen_Value g = - 1"
proof (cases "gen_Value g = - 1")
  case False
  then have "gen_Value g + 1 \<noteq> 0" by (simp add: word_add_one_zero)
  then have "unat (gen_Value g + 1) = Suc (unat (gen_Value g))" 
    by (metis add.commute unatSuc)
  then have "gen_Value g < gen_Value g + 1" by (simp add: word_less_nat_alt)
  with False show ?thesis
    by (simp add: gen_Next_def less_StrongGeneration_def gen_lt_def word_add_one_zero)
qed simp

lemma id_gt_iff: "id_gt a b \<longleftrightarrow> b < a"
  by (simp add: id_gt_def less_StrongId_def id_lt_def)

section \<open>Correctness of generations\<close>

text \<open>
  A successor generation is always valid.  It is the next larger value, except after the
  largest 64-bit value, where it wraps to one and never to the zero sentinel.
\<close>

theorem next_generation:
  "gen_IsValid (gen_Next g) \<and>
     (if gen_Value g = - 1 then gen_Value (gen_Next g) = 1
      else gen_Value (gen_Next g) = gen_Value g + 1 \<and> g < gen_Next g)"
  using gen_Next_step [of g] by (auto simp: gen_Next_def gen_IsValid_def Let_def word_add_one_zero)

end
