(* ===== verification/Fabric_Enums.thy ===== *)
theory Fabric_Enums
  imports Fabric_Ids
begin

text \<open>
  \<open>include/dfabric/enums.hpp\<close>, with the two enumerations of \<open>graph.hpp\<close> and
  \<open>requirement.hpp\<close>: the enumerators, their wire values, their names, and the canonical
  bounds (\<open>EnumTraits\<close>) that decoders check.  A prefix tells apart the enumerators that
  several enumerations share (\<open>RC_UNKNOWN\<close> is \<open>ResourceClass::UNKNOWN\<close>).  The table of
  each enumeration lists its enumerators by value; the locale \<open>enum_table\<close> states what the
  decoders rely on (distinct values, no hole in the accepted range) and every enumeration
  with an \<open>EnumTraits\<close> instance is an instance of it.
\<close>

section \<open>Enumerations\<close>

datatype ResourceClass =
  RC_COMPUTE | RC_ACCELERATOR | RC_HOST_MEMORY | RC_EXPANDED_MEMORY | RC_STORAGE
  | RC_NETWORK_ENDPOINT | RC_FABRIC_ENDPOINT | RC_DPU | RC_NIC | RC_SERVICE_ENDPOINT
  | RC_CONTROL_PROCESS | RC_OTHER_REGISTERED | RC_UNKNOWN

fun ResourceClass_value :: "ResourceClass \<Rightarrow> u32" where
  "ResourceClass_value RC_COMPUTE = 1"
| "ResourceClass_value RC_ACCELERATOR = 2"
| "ResourceClass_value RC_HOST_MEMORY = 3"
| "ResourceClass_value RC_EXPANDED_MEMORY = 4"
| "ResourceClass_value RC_STORAGE = 5"
| "ResourceClass_value RC_NETWORK_ENDPOINT = 6"
| "ResourceClass_value RC_FABRIC_ENDPOINT = 7"
| "ResourceClass_value RC_DPU = 8"
| "ResourceClass_value RC_NIC = 9"
| "ResourceClass_value RC_SERVICE_ENDPOINT = 10"
| "ResourceClass_value RC_CONTROL_PROCESS = 11"
| "ResourceClass_value RC_OTHER_REGISTERED = 12"
| "ResourceClass_value RC_UNKNOWN = 0"

fun ResourceClass_ToString :: "ResourceClass \<Rightarrow> string" where
  "ResourceClass_ToString RC_COMPUTE = ''COMPUTE''"
| "ResourceClass_ToString RC_ACCELERATOR = ''ACCELERATOR''"
| "ResourceClass_ToString RC_HOST_MEMORY = ''HOST_MEMORY''"
| "ResourceClass_ToString RC_EXPANDED_MEMORY = ''EXPANDED_MEMORY''"
| "ResourceClass_ToString RC_STORAGE = ''STORAGE''"
| "ResourceClass_ToString RC_NETWORK_ENDPOINT = ''NETWORK_ENDPOINT''"
| "ResourceClass_ToString RC_FABRIC_ENDPOINT = ''FABRIC_ENDPOINT''"
| "ResourceClass_ToString RC_DPU = ''DPU''"
| "ResourceClass_ToString RC_NIC = ''NIC''"
| "ResourceClass_ToString RC_SERVICE_ENDPOINT = ''SERVICE_ENDPOINT''"
| "ResourceClass_ToString RC_CONTROL_PROCESS = ''CONTROL_PROCESS''"
| "ResourceClass_ToString RC_OTHER_REGISTERED = ''OTHER_REGISTERED''"
| "ResourceClass_ToString RC_UNKNOWN = ''UNKNOWN''"

definition ResourceClass_table :: "ResourceClass list" where
  "ResourceClass_table =
    [RC_UNKNOWN, RC_COMPUTE, RC_ACCELERATOR, RC_HOST_MEMORY, RC_EXPANDED_MEMORY, RC_STORAGE
    , RC_NETWORK_ENDPOINT, RC_FABRIC_ENDPOINT, RC_DPU, RC_NIC, RC_SERVICE_ENDPOINT
    , RC_CONTROL_PROCESS, RC_OTHER_REGISTERED]"

definition ResourceClass_max :: u32 where
  "ResourceClass_max = 12"

datatype CapabilityKind =
  CK_CUDA_EXECUTION | CK_ROCM_EXECUTION | CK_CPU_EXECUTION | CK_HOST_MEMORY_ACCESS
  | CK_EXPANDED_MEMORY_ACCESS | CK_PERSISTENT_STORAGE | CK_DIRECT_NETWORK_ACCESS
  | CK_RDMA_CAPABLE | CK_GPUDIRECT_CAPABLE | CK_COHERENT_MEMORY_ACCESS
  | CK_NON_COHERENT_MEMORY_ACCESS | CK_SPECIFIC_ISA | CK_ARCH_GENERATION | CK_DATA_FORMAT_COMPAT
  | CK_PAGE_SIZE_SUPPORT | CK_ADDRESS_WIDTH | CK_DMA_CAPABLE | CK_STORAGE_PROTOCOL
  | CK_NETWORK_PROTOCOL | CK_COMPUTE_PRECISION | CK_ATOMIC_SEMANTICS | CK_RETRY_CAPABLE
  | CK_DRAIN_SUPPORT | CK_UNKNOWN

fun CapabilityKind_value :: "CapabilityKind \<Rightarrow> u32" where
  "CapabilityKind_value CK_CUDA_EXECUTION = 1"
| "CapabilityKind_value CK_ROCM_EXECUTION = 2"
| "CapabilityKind_value CK_CPU_EXECUTION = 3"
| "CapabilityKind_value CK_HOST_MEMORY_ACCESS = 4"
| "CapabilityKind_value CK_EXPANDED_MEMORY_ACCESS = 5"
| "CapabilityKind_value CK_PERSISTENT_STORAGE = 6"
| "CapabilityKind_value CK_DIRECT_NETWORK_ACCESS = 7"
| "CapabilityKind_value CK_RDMA_CAPABLE = 8"
| "CapabilityKind_value CK_GPUDIRECT_CAPABLE = 9"
| "CapabilityKind_value CK_COHERENT_MEMORY_ACCESS = 10"
| "CapabilityKind_value CK_NON_COHERENT_MEMORY_ACCESS = 11"
| "CapabilityKind_value CK_SPECIFIC_ISA = 12"
| "CapabilityKind_value CK_ARCH_GENERATION = 13"
| "CapabilityKind_value CK_DATA_FORMAT_COMPAT = 14"
| "CapabilityKind_value CK_PAGE_SIZE_SUPPORT = 15"
| "CapabilityKind_value CK_ADDRESS_WIDTH = 16"
| "CapabilityKind_value CK_DMA_CAPABLE = 17"
| "CapabilityKind_value CK_STORAGE_PROTOCOL = 18"
| "CapabilityKind_value CK_NETWORK_PROTOCOL = 19"
| "CapabilityKind_value CK_COMPUTE_PRECISION = 20"
| "CapabilityKind_value CK_ATOMIC_SEMANTICS = 21"
| "CapabilityKind_value CK_RETRY_CAPABLE = 22"
| "CapabilityKind_value CK_DRAIN_SUPPORT = 23"
| "CapabilityKind_value CK_UNKNOWN = 0"

fun CapabilityKind_ToString :: "CapabilityKind \<Rightarrow> string" where
  "CapabilityKind_ToString CK_CUDA_EXECUTION = ''CUDA_EXECUTION''"
| "CapabilityKind_ToString CK_ROCM_EXECUTION = ''ROCM_EXECUTION''"
| "CapabilityKind_ToString CK_CPU_EXECUTION = ''CPU_EXECUTION''"
| "CapabilityKind_ToString CK_HOST_MEMORY_ACCESS = ''HOST_MEMORY_ACCESS''"
| "CapabilityKind_ToString CK_EXPANDED_MEMORY_ACCESS = ''EXPANDED_MEMORY_ACCESS''"
| "CapabilityKind_ToString CK_PERSISTENT_STORAGE = ''PERSISTENT_STORAGE''"
| "CapabilityKind_ToString CK_DIRECT_NETWORK_ACCESS = ''DIRECT_NETWORK_ACCESS''"
| "CapabilityKind_ToString CK_RDMA_CAPABLE = ''RDMA_CAPABLE''"
| "CapabilityKind_ToString CK_GPUDIRECT_CAPABLE = ''GPUDIRECT_CAPABLE''"
| "CapabilityKind_ToString CK_COHERENT_MEMORY_ACCESS = ''COHERENT_MEMORY_ACCESS''"
| "CapabilityKind_ToString CK_NON_COHERENT_MEMORY_ACCESS = ''NON_COHERENT_MEMORY_ACCESS''"
| "CapabilityKind_ToString CK_SPECIFIC_ISA = ''SPECIFIC_ISA''"
| "CapabilityKind_ToString CK_ARCH_GENERATION = ''ARCH_GENERATION''"
| "CapabilityKind_ToString CK_DATA_FORMAT_COMPAT = ''DATA_FORMAT_COMPAT''"
| "CapabilityKind_ToString CK_PAGE_SIZE_SUPPORT = ''PAGE_SIZE_SUPPORT''"
| "CapabilityKind_ToString CK_ADDRESS_WIDTH = ''ADDRESS_WIDTH''"
| "CapabilityKind_ToString CK_DMA_CAPABLE = ''DMA_CAPABLE''"
| "CapabilityKind_ToString CK_STORAGE_PROTOCOL = ''STORAGE_PROTOCOL''"
| "CapabilityKind_ToString CK_NETWORK_PROTOCOL = ''NETWORK_PROTOCOL''"
| "CapabilityKind_ToString CK_COMPUTE_PRECISION = ''COMPUTE_PRECISION''"
| "CapabilityKind_ToString CK_ATOMIC_SEMANTICS = ''ATOMIC_SEMANTICS''"
| "CapabilityKind_ToString CK_RETRY_CAPABLE = ''RETRY_CAPABLE''"
| "CapabilityKind_ToString CK_DRAIN_SUPPORT = ''DRAIN_SUPPORT''"
| "CapabilityKind_ToString CK_UNKNOWN = ''UNKNOWN''"

definition CapabilityKind_table :: "CapabilityKind list" where
  "CapabilityKind_table =
    [CK_UNKNOWN, CK_CUDA_EXECUTION, CK_ROCM_EXECUTION, CK_CPU_EXECUTION, CK_HOST_MEMORY_ACCESS
    , CK_EXPANDED_MEMORY_ACCESS, CK_PERSISTENT_STORAGE, CK_DIRECT_NETWORK_ACCESS
    , CK_RDMA_CAPABLE, CK_GPUDIRECT_CAPABLE, CK_COHERENT_MEMORY_ACCESS
    , CK_NON_COHERENT_MEMORY_ACCESS, CK_SPECIFIC_ISA, CK_ARCH_GENERATION, CK_DATA_FORMAT_COMPAT
    , CK_PAGE_SIZE_SUPPORT, CK_ADDRESS_WIDTH, CK_DMA_CAPABLE, CK_STORAGE_PROTOCOL
    , CK_NETWORK_PROTOCOL, CK_COMPUTE_PRECISION, CK_ATOMIC_SEMANTICS, CK_RETRY_CAPABLE
    , CK_DRAIN_SUPPORT]"

definition CapabilityKind_max :: u32 where
  "CapabilityKind_max = 23"

datatype CapabilityState =
  CS_SUPPORTED | CS_UNSUPPORTED | CS_UNKNOWN | CS_REVALIDATION_REQUIRED

fun CapabilityState_value :: "CapabilityState \<Rightarrow> u32" where
  "CapabilityState_value CS_SUPPORTED = 1"
| "CapabilityState_value CS_UNSUPPORTED = 2"
| "CapabilityState_value CS_UNKNOWN = 3"
| "CapabilityState_value CS_REVALIDATION_REQUIRED = 4"

fun CapabilityState_ToString :: "CapabilityState \<Rightarrow> string" where
  "CapabilityState_ToString CS_SUPPORTED = ''SUPPORTED''"
| "CapabilityState_ToString CS_UNSUPPORTED = ''UNSUPPORTED''"
| "CapabilityState_ToString CS_UNKNOWN = ''UNKNOWN''"
| "CapabilityState_ToString CS_REVALIDATION_REQUIRED = ''REVALIDATION_REQUIRED''"

definition CapabilityState_table :: "CapabilityState list" where
  "CapabilityState_table =
    [CS_SUPPORTED, CS_UNSUPPORTED, CS_UNKNOWN, CS_REVALIDATION_REQUIRED]"

definition CapabilityState_max :: u32 where
  "CapabilityState_max = 4"

datatype ResourceHealth =
  RH_HEALTHY | RH_DEGRADED | RH_OFFLINE | RH_UNKNOWN

fun ResourceHealth_value :: "ResourceHealth \<Rightarrow> u32" where
  "ResourceHealth_value RH_HEALTHY = 1"
| "ResourceHealth_value RH_DEGRADED = 2"
| "ResourceHealth_value RH_OFFLINE = 3"
| "ResourceHealth_value RH_UNKNOWN = 0"

fun ResourceHealth_ToString :: "ResourceHealth \<Rightarrow> string" where
  "ResourceHealth_ToString RH_HEALTHY = ''HEALTHY''"
| "ResourceHealth_ToString RH_DEGRADED = ''DEGRADED''"
| "ResourceHealth_ToString RH_OFFLINE = ''OFFLINE''"
| "ResourceHealth_ToString RH_UNKNOWN = ''UNKNOWN''"

definition ResourceHealth_table :: "ResourceHealth list" where
  "ResourceHealth_table =
    [RH_UNKNOWN, RH_HEALTHY, RH_DEGRADED, RH_OFFLINE]"

definition ResourceHealth_max :: u32 where
  "ResourceHealth_max = 3"

datatype Readiness =
  RD_READY | RD_NOT_READY | RD_UNKNOWN

fun Readiness_value :: "Readiness \<Rightarrow> u32" where
  "Readiness_value RD_READY = 1"
| "Readiness_value RD_NOT_READY = 2"
| "Readiness_value RD_UNKNOWN = 0"

fun Readiness_ToString :: "Readiness \<Rightarrow> string" where
  "Readiness_ToString RD_READY = ''READY''"
| "Readiness_ToString RD_NOT_READY = ''NOT_READY''"
| "Readiness_ToString RD_UNKNOWN = ''UNKNOWN''"

definition Readiness_table :: "Readiness list" where
  "Readiness_table =
    [RD_UNKNOWN, RD_READY, RD_NOT_READY]"

definition Readiness_max :: u32 where
  "Readiness_max = 2"

datatype Reachability =
  RB_REACHABLE | RB_UNREACHABLE | RB_UNKNOWN

fun Reachability_value :: "Reachability \<Rightarrow> u32" where
  "Reachability_value RB_REACHABLE = 1"
| "Reachability_value RB_UNREACHABLE = 2"
| "Reachability_value RB_UNKNOWN = 0"

fun Reachability_ToString :: "Reachability \<Rightarrow> string" where
  "Reachability_ToString RB_REACHABLE = ''REACHABLE''"
| "Reachability_ToString RB_UNREACHABLE = ''UNREACHABLE''"
| "Reachability_ToString RB_UNKNOWN = ''UNKNOWN''"

definition Reachability_table :: "Reachability list" where
  "Reachability_table =
    [RB_UNKNOWN, RB_REACHABLE, RB_UNREACHABLE]"

definition Reachability_max :: u32 where
  "Reachability_max = 2"

datatype EvidenceState =
  ES_FRESH | ES_STALE | ES_REVALIDATION_REQUIRED | ES_PROVENANCE_UNKNOWN

fun EvidenceState_value :: "EvidenceState \<Rightarrow> u32" where
  "EvidenceState_value ES_FRESH = 1"
| "EvidenceState_value ES_STALE = 2"
| "EvidenceState_value ES_REVALIDATION_REQUIRED = 3"
| "EvidenceState_value ES_PROVENANCE_UNKNOWN = 4"

fun EvidenceState_ToString :: "EvidenceState \<Rightarrow> string" where
  "EvidenceState_ToString ES_FRESH = ''FRESH''"
| "EvidenceState_ToString ES_STALE = ''STALE''"
| "EvidenceState_ToString ES_REVALIDATION_REQUIRED = ''REVALIDATION_REQUIRED''"
| "EvidenceState_ToString ES_PROVENANCE_UNKNOWN = ''PROVENANCE_UNKNOWN''"

definition EvidenceState_table :: "EvidenceState list" where
  "EvidenceState_table =
    [ES_FRESH, ES_STALE, ES_REVALIDATION_REQUIRED, ES_PROVENANCE_UNKNOWN]"

definition EvidenceState_max :: u32 where
  "EvidenceState_max = 4"

datatype EvidenceSource =
  SRC_STATIC | SRC_WORKER | SRC_COORDINATOR | SRC_BACKEND | SRC_DIRECT | SRC_UNKNOWN

fun EvidenceSource_value :: "EvidenceSource \<Rightarrow> u32" where
  "EvidenceSource_value SRC_STATIC = 1"
| "EvidenceSource_value SRC_WORKER = 2"
| "EvidenceSource_value SRC_COORDINATOR = 3"
| "EvidenceSource_value SRC_BACKEND = 4"
| "EvidenceSource_value SRC_DIRECT = 5"
| "EvidenceSource_value SRC_UNKNOWN = 0"

fun EvidenceSource_ToString :: "EvidenceSource \<Rightarrow> string" where
  "EvidenceSource_ToString SRC_STATIC = ''STATIC''"
| "EvidenceSource_ToString SRC_WORKER = ''WORKER''"
| "EvidenceSource_ToString SRC_COORDINATOR = ''COORDINATOR''"
| "EvidenceSource_ToString SRC_BACKEND = ''BACKEND''"
| "EvidenceSource_ToString SRC_DIRECT = ''DIRECT''"
| "EvidenceSource_ToString SRC_UNKNOWN = ''UNKNOWN''"

definition EvidenceSource_table :: "EvidenceSource list" where
  "EvidenceSource_table =
    [SRC_UNKNOWN, SRC_STATIC, SRC_WORKER, SRC_COORDINATOR, SRC_BACKEND, SRC_DIRECT]"

definition EvidenceSource_max :: u32 where
  "EvidenceSource_max = 5"

datatype NodeLifecycle =
  NL_DISCOVERED | NL_VALIDATED | NL_REVALIDATION_REQUIRED | NL_RETIRED

fun NodeLifecycle_value :: "NodeLifecycle \<Rightarrow> u32" where
  "NodeLifecycle_value NL_DISCOVERED = 1"
| "NodeLifecycle_value NL_VALIDATED = 2"
| "NodeLifecycle_value NL_REVALIDATION_REQUIRED = 3"
| "NodeLifecycle_value NL_RETIRED = 4"

fun NodeLifecycle_ToString :: "NodeLifecycle \<Rightarrow> string" where
  "NodeLifecycle_ToString NL_DISCOVERED = ''DISCOVERED''"
| "NodeLifecycle_ToString NL_VALIDATED = ''VALIDATED''"
| "NodeLifecycle_ToString NL_REVALIDATION_REQUIRED = ''REVALIDATION_REQUIRED''"
| "NodeLifecycle_ToString NL_RETIRED = ''RETIRED''"

definition NodeLifecycle_table :: "NodeLifecycle list" where
  "NodeLifecycle_table =
    [NL_DISCOVERED, NL_VALIDATED, NL_REVALIDATION_REQUIRED, NL_RETIRED]"

definition NodeLifecycle_max :: u32 where
  "NodeLifecycle_max = 4"

datatype FailureDomainType =
  FD_HOST | FD_NUMA_NODE | FD_PCI_ROOT | FD_RACK | FD_POWER_DOMAIN | FD_NETWORK_DOMAIN
  | FD_STORAGE_DOMAIN | FD_FABRIC_DOMAIN | FD_CUSTOM | FD_UNKNOWN

fun FailureDomainType_value :: "FailureDomainType \<Rightarrow> u32" where
  "FailureDomainType_value FD_HOST = 1"
| "FailureDomainType_value FD_NUMA_NODE = 2"
| "FailureDomainType_value FD_PCI_ROOT = 3"
| "FailureDomainType_value FD_RACK = 4"
| "FailureDomainType_value FD_POWER_DOMAIN = 5"
| "FailureDomainType_value FD_NETWORK_DOMAIN = 6"
| "FailureDomainType_value FD_STORAGE_DOMAIN = 7"
| "FailureDomainType_value FD_FABRIC_DOMAIN = 8"
| "FailureDomainType_value FD_CUSTOM = 9"
| "FailureDomainType_value FD_UNKNOWN = 0"

fun FailureDomainType_ToString :: "FailureDomainType \<Rightarrow> string" where
  "FailureDomainType_ToString FD_HOST = ''HOST''"
| "FailureDomainType_ToString FD_NUMA_NODE = ''NUMA_NODE''"
| "FailureDomainType_ToString FD_PCI_ROOT = ''PCI_ROOT''"
| "FailureDomainType_ToString FD_RACK = ''RACK''"
| "FailureDomainType_ToString FD_POWER_DOMAIN = ''POWER_DOMAIN''"
| "FailureDomainType_ToString FD_NETWORK_DOMAIN = ''NETWORK_DOMAIN''"
| "FailureDomainType_ToString FD_STORAGE_DOMAIN = ''STORAGE_DOMAIN''"
| "FailureDomainType_ToString FD_FABRIC_DOMAIN = ''FABRIC_DOMAIN''"
| "FailureDomainType_ToString FD_CUSTOM = ''CUSTOM''"
| "FailureDomainType_ToString FD_UNKNOWN = ''UNKNOWN''"

definition FailureDomainType_table :: "FailureDomainType list" where
  "FailureDomainType_table =
    [FD_UNKNOWN, FD_HOST, FD_NUMA_NODE, FD_PCI_ROOT, FD_RACK, FD_POWER_DOMAIN, FD_NETWORK_DOMAIN
    , FD_STORAGE_DOMAIN, FD_FABRIC_DOMAIN, FD_CUSTOM]"

definition FailureDomainType_max :: u32 where
  "FailureDomainType_max = 9"

datatype BackendKind =
  BK_REAL | BK_SYNTHETIC | BK_UNSUPPORTED | BK_UNKNOWN

fun BackendKind_value :: "BackendKind \<Rightarrow> u32" where
  "BackendKind_value BK_REAL = 1"
| "BackendKind_value BK_SYNTHETIC = 2"
| "BackendKind_value BK_UNSUPPORTED = 3"
| "BackendKind_value BK_UNKNOWN = 0"

fun BackendKind_ToString :: "BackendKind \<Rightarrow> string" where
  "BackendKind_ToString BK_REAL = ''REAL''"
| "BackendKind_ToString BK_SYNTHETIC = ''SYNTHETIC''"
| "BackendKind_ToString BK_UNSUPPORTED = ''UNSUPPORTED''"
| "BackendKind_ToString BK_UNKNOWN = ''UNKNOWN''"

definition BackendKind_table :: "BackendKind list" where
  "BackendKind_table =
    [BK_UNKNOWN, BK_REAL, BK_SYNTHETIC, BK_UNSUPPORTED]"

definition BackendKind_max :: u32 where
  "BackendKind_max = 3"

datatype CompositionLifecycle =
  CL_REQUESTED | CL_DISCOVERING | CL_EVALUATED | CL_PLANNED | CL_RESERVING | CL_RESERVED
  | CL_REVALIDATING | CL_COMMITTED | CL_ACTIVE | CL_DEGRADED | CL_DRAINING
  | CL_RECOMPOSITION_REQUIRED | CL_REVALIDATION_REQUIRED | CL_FENCED | CL_FAILED | CL_RELEASED
  | CL_RETIRED

fun CompositionLifecycle_value :: "CompositionLifecycle \<Rightarrow> u32" where
  "CompositionLifecycle_value CL_REQUESTED = 1"
| "CompositionLifecycle_value CL_DISCOVERING = 2"
| "CompositionLifecycle_value CL_EVALUATED = 3"
| "CompositionLifecycle_value CL_PLANNED = 4"
| "CompositionLifecycle_value CL_RESERVING = 5"
| "CompositionLifecycle_value CL_RESERVED = 6"
| "CompositionLifecycle_value CL_REVALIDATING = 7"
| "CompositionLifecycle_value CL_COMMITTED = 8"
| "CompositionLifecycle_value CL_ACTIVE = 9"
| "CompositionLifecycle_value CL_DEGRADED = 10"
| "CompositionLifecycle_value CL_DRAINING = 11"
| "CompositionLifecycle_value CL_RECOMPOSITION_REQUIRED = 12"
| "CompositionLifecycle_value CL_REVALIDATION_REQUIRED = 13"
| "CompositionLifecycle_value CL_FENCED = 14"
| "CompositionLifecycle_value CL_FAILED = 15"
| "CompositionLifecycle_value CL_RELEASED = 16"
| "CompositionLifecycle_value CL_RETIRED = 17"

fun CompositionLifecycle_ToString :: "CompositionLifecycle \<Rightarrow> string" where
  "CompositionLifecycle_ToString CL_REQUESTED = ''REQUESTED''"
| "CompositionLifecycle_ToString CL_DISCOVERING = ''DISCOVERING''"
| "CompositionLifecycle_ToString CL_EVALUATED = ''EVALUATED''"
| "CompositionLifecycle_ToString CL_PLANNED = ''PLANNED''"
| "CompositionLifecycle_ToString CL_RESERVING = ''RESERVING''"
| "CompositionLifecycle_ToString CL_RESERVED = ''RESERVED''"
| "CompositionLifecycle_ToString CL_REVALIDATING = ''REVALIDATING''"
| "CompositionLifecycle_ToString CL_COMMITTED = ''COMMITTED''"
| "CompositionLifecycle_ToString CL_ACTIVE = ''ACTIVE''"
| "CompositionLifecycle_ToString CL_DEGRADED = ''DEGRADED''"
| "CompositionLifecycle_ToString CL_DRAINING = ''DRAINING''"
| "CompositionLifecycle_ToString CL_RECOMPOSITION_REQUIRED = ''RECOMPOSITION_REQUIRED''"
| "CompositionLifecycle_ToString CL_REVALIDATION_REQUIRED = ''REVALIDATION_REQUIRED''"
| "CompositionLifecycle_ToString CL_FENCED = ''FENCED''"
| "CompositionLifecycle_ToString CL_FAILED = ''FAILED''"
| "CompositionLifecycle_ToString CL_RELEASED = ''RELEASED''"
| "CompositionLifecycle_ToString CL_RETIRED = ''RETIRED''"

definition CompositionLifecycle_table :: "CompositionLifecycle list" where
  "CompositionLifecycle_table =
    [CL_REQUESTED, CL_DISCOVERING, CL_EVALUATED, CL_PLANNED, CL_RESERVING, CL_RESERVED
    , CL_REVALIDATING, CL_COMMITTED, CL_ACTIVE, CL_DEGRADED, CL_DRAINING
    , CL_RECOMPOSITION_REQUIRED, CL_REVALIDATION_REQUIRED, CL_FENCED, CL_FAILED, CL_RELEASED
    , CL_RETIRED]"

definition CompositionLifecycle_max :: u32 where
  "CompositionLifecycle_max = 17"

datatype RejectionReason =
  RR_NONE | RR_RESOURCE_OFFLINE | RR_RESOURCE_DEGRADED | RR_RESOURCE_UNREACHABLE
  | RR_RESOURCE_REVALIDATION_REQUIRED | RR_CAPABILITY_UNSUPPORTED | RR_CAPABILITY_UNKNOWN
  | RR_COMPATIBILITY_MISMATCH | RR_INSUFFICIENT_CAPACITY | RR_PATH_UNAVAILABLE | RR_PATH_STALE
  | RR_BANDWIDTH_INSUFFICIENT | RR_LATENCY_LIMIT_EXCEEDED | RR_FAILURE_DOMAIN_CONFLICT
  | RR_COLLOCATION_REQUIRED | RR_ANTI_COLLOCATION_VIOLATED | RR_POLICY_DENIED
  | RR_WRONG_RESOURCE_GENERATION | RR_WRONG_NODE_GENERATION | RR_WRONG_WORKER_BOOT
  | RR_WRONG_EPOCH | RR_STALE_EVIDENCE | RR_NO_VALID_COMPOSITION | RR_DUPLICATE_RESERVATION
  | RR_RESERVATION_CONFLICT | RR_OVERCOMMIT | RR_DUPLICATE_RELEASE | RR_STALE_RELEASE
  | RR_RESOURCE_WITHDRAWN | RR_RESOURCE_DRAINING | RR_PATH_EVIDENCE_STALE | RR_UNVERIFIED_PATH
  | RR_CAPACITY_NEGATIVE | RR_INVALID_STATE_TRANSITION | RR_UNKNOWN

fun RejectionReason_value :: "RejectionReason \<Rightarrow> u32" where
  "RejectionReason_value RR_NONE = 0"
| "RejectionReason_value RR_RESOURCE_OFFLINE = 1"
| "RejectionReason_value RR_RESOURCE_DEGRADED = 2"
| "RejectionReason_value RR_RESOURCE_UNREACHABLE = 3"
| "RejectionReason_value RR_RESOURCE_REVALIDATION_REQUIRED = 4"
| "RejectionReason_value RR_CAPABILITY_UNSUPPORTED = 5"
| "RejectionReason_value RR_CAPABILITY_UNKNOWN = 6"
| "RejectionReason_value RR_COMPATIBILITY_MISMATCH = 7"
| "RejectionReason_value RR_INSUFFICIENT_CAPACITY = 8"
| "RejectionReason_value RR_PATH_UNAVAILABLE = 9"
| "RejectionReason_value RR_PATH_STALE = 10"
| "RejectionReason_value RR_BANDWIDTH_INSUFFICIENT = 11"
| "RejectionReason_value RR_LATENCY_LIMIT_EXCEEDED = 12"
| "RejectionReason_value RR_FAILURE_DOMAIN_CONFLICT = 13"
| "RejectionReason_value RR_COLLOCATION_REQUIRED = 14"
| "RejectionReason_value RR_ANTI_COLLOCATION_VIOLATED = 15"
| "RejectionReason_value RR_POLICY_DENIED = 16"
| "RejectionReason_value RR_WRONG_RESOURCE_GENERATION = 17"
| "RejectionReason_value RR_WRONG_NODE_GENERATION = 18"
| "RejectionReason_value RR_WRONG_WORKER_BOOT = 19"
| "RejectionReason_value RR_WRONG_EPOCH = 20"
| "RejectionReason_value RR_STALE_EVIDENCE = 21"
| "RejectionReason_value RR_NO_VALID_COMPOSITION = 22"
| "RejectionReason_value RR_DUPLICATE_RESERVATION = 23"
| "RejectionReason_value RR_RESERVATION_CONFLICT = 24"
| "RejectionReason_value RR_OVERCOMMIT = 25"
| "RejectionReason_value RR_DUPLICATE_RELEASE = 26"
| "RejectionReason_value RR_STALE_RELEASE = 27"
| "RejectionReason_value RR_RESOURCE_WITHDRAWN = 28"
| "RejectionReason_value RR_RESOURCE_DRAINING = 29"
| "RejectionReason_value RR_PATH_EVIDENCE_STALE = 30"
| "RejectionReason_value RR_UNVERIFIED_PATH = 31"
| "RejectionReason_value RR_CAPACITY_NEGATIVE = 32"
| "RejectionReason_value RR_INVALID_STATE_TRANSITION = 33"
| "RejectionReason_value RR_UNKNOWN = 0xFFFFFFFF"

fun RejectionReason_ToString :: "RejectionReason \<Rightarrow> string" where
  "RejectionReason_ToString RR_NONE = ''NONE''"
| "RejectionReason_ToString RR_RESOURCE_OFFLINE = ''RESOURCE_OFFLINE''"
| "RejectionReason_ToString RR_RESOURCE_DEGRADED = ''RESOURCE_DEGRADED''"
| "RejectionReason_ToString RR_RESOURCE_UNREACHABLE = ''RESOURCE_UNREACHABLE''"
| "RejectionReason_ToString RR_RESOURCE_REVALIDATION_REQUIRED = ''RESOURCE_REVALIDATION_REQUIRED''"
| "RejectionReason_ToString RR_CAPABILITY_UNSUPPORTED = ''CAPABILITY_UNSUPPORTED''"
| "RejectionReason_ToString RR_CAPABILITY_UNKNOWN = ''CAPABILITY_UNKNOWN''"
| "RejectionReason_ToString RR_COMPATIBILITY_MISMATCH = ''COMPATIBILITY_MISMATCH''"
| "RejectionReason_ToString RR_INSUFFICIENT_CAPACITY = ''INSUFFICIENT_CAPACITY''"
| "RejectionReason_ToString RR_PATH_UNAVAILABLE = ''PATH_UNAVAILABLE''"
| "RejectionReason_ToString RR_PATH_STALE = ''PATH_STALE''"
| "RejectionReason_ToString RR_BANDWIDTH_INSUFFICIENT = ''BANDWIDTH_INSUFFICIENT''"
| "RejectionReason_ToString RR_LATENCY_LIMIT_EXCEEDED = ''LATENCY_LIMIT_EXCEEDED''"
| "RejectionReason_ToString RR_FAILURE_DOMAIN_CONFLICT = ''FAILURE_DOMAIN_CONFLICT''"
| "RejectionReason_ToString RR_COLLOCATION_REQUIRED = ''COLLOCATION_REQUIRED''"
| "RejectionReason_ToString RR_ANTI_COLLOCATION_VIOLATED = ''ANTI_COLLOCATION_VIOLATED''"
| "RejectionReason_ToString RR_POLICY_DENIED = ''POLICY_DENIED''"
| "RejectionReason_ToString RR_WRONG_RESOURCE_GENERATION = ''WRONG_RESOURCE_GENERATION''"
| "RejectionReason_ToString RR_WRONG_NODE_GENERATION = ''WRONG_NODE_GENERATION''"
| "RejectionReason_ToString RR_WRONG_WORKER_BOOT = ''WRONG_WORKER_BOOT''"
| "RejectionReason_ToString RR_WRONG_EPOCH = ''WRONG_EPOCH''"
| "RejectionReason_ToString RR_STALE_EVIDENCE = ''STALE_EVIDENCE''"
| "RejectionReason_ToString RR_NO_VALID_COMPOSITION = ''NO_VALID_COMPOSITION''"
| "RejectionReason_ToString RR_DUPLICATE_RESERVATION = ''DUPLICATE_RESERVATION''"
| "RejectionReason_ToString RR_RESERVATION_CONFLICT = ''RESERVATION_CONFLICT''"
| "RejectionReason_ToString RR_OVERCOMMIT = ''OVERCOMMIT''"
| "RejectionReason_ToString RR_DUPLICATE_RELEASE = ''DUPLICATE_RELEASE''"
| "RejectionReason_ToString RR_STALE_RELEASE = ''STALE_RELEASE''"
| "RejectionReason_ToString RR_RESOURCE_WITHDRAWN = ''RESOURCE_WITHDRAWN''"
| "RejectionReason_ToString RR_RESOURCE_DRAINING = ''RESOURCE_DRAINING''"
| "RejectionReason_ToString RR_PATH_EVIDENCE_STALE = ''PATH_EVIDENCE_STALE''"
| "RejectionReason_ToString RR_UNVERIFIED_PATH = ''UNVERIFIED_PATH''"
| "RejectionReason_ToString RR_CAPACITY_NEGATIVE = ''CAPACITY_NEGATIVE''"
| "RejectionReason_ToString RR_INVALID_STATE_TRANSITION = ''INVALID_STATE_TRANSITION''"
| "RejectionReason_ToString RR_UNKNOWN = ''UNKNOWN''"

definition RejectionReason_table :: "RejectionReason list" where
  "RejectionReason_table =
    [RR_NONE, RR_RESOURCE_OFFLINE, RR_RESOURCE_DEGRADED, RR_RESOURCE_UNREACHABLE
    , RR_RESOURCE_REVALIDATION_REQUIRED, RR_CAPABILITY_UNSUPPORTED, RR_CAPABILITY_UNKNOWN
    , RR_COMPATIBILITY_MISMATCH, RR_INSUFFICIENT_CAPACITY, RR_PATH_UNAVAILABLE, RR_PATH_STALE
    , RR_BANDWIDTH_INSUFFICIENT, RR_LATENCY_LIMIT_EXCEEDED, RR_FAILURE_DOMAIN_CONFLICT
    , RR_COLLOCATION_REQUIRED, RR_ANTI_COLLOCATION_VIOLATED, RR_POLICY_DENIED
    , RR_WRONG_RESOURCE_GENERATION, RR_WRONG_NODE_GENERATION, RR_WRONG_WORKER_BOOT
    , RR_WRONG_EPOCH, RR_STALE_EVIDENCE, RR_NO_VALID_COMPOSITION, RR_DUPLICATE_RESERVATION
    , RR_RESERVATION_CONFLICT, RR_OVERCOMMIT, RR_DUPLICATE_RELEASE, RR_STALE_RELEASE
    , RR_RESOURCE_WITHDRAWN, RR_RESOURCE_DRAINING, RR_PATH_EVIDENCE_STALE, RR_UNVERIFIED_PATH
    , RR_CAPACITY_NEGATIVE, RR_INVALID_STATE_TRANSITION, RR_UNKNOWN]"

definition RejectionReason_max :: u32 where
  "RejectionReason_max = 33"

datatype CompositionOutcome =
  CO_SUCCESS | CO_REJECTED | CO_PARTIAL | CO_ABORTED | CO_OUTCOME_UNKNOWN | CO_FAILED

fun CompositionOutcome_value :: "CompositionOutcome \<Rightarrow> u32" where
  "CompositionOutcome_value CO_SUCCESS = 1"
| "CompositionOutcome_value CO_REJECTED = 2"
| "CompositionOutcome_value CO_PARTIAL = 3"
| "CompositionOutcome_value CO_ABORTED = 4"
| "CompositionOutcome_value CO_OUTCOME_UNKNOWN = 5"
| "CompositionOutcome_value CO_FAILED = 6"

fun CompositionOutcome_ToString :: "CompositionOutcome \<Rightarrow> string" where
  "CompositionOutcome_ToString CO_SUCCESS = ''SUCCESS''"
| "CompositionOutcome_ToString CO_REJECTED = ''REJECTED''"
| "CompositionOutcome_ToString CO_PARTIAL = ''PARTIAL''"
| "CompositionOutcome_ToString CO_ABORTED = ''ABORTED''"
| "CompositionOutcome_ToString CO_OUTCOME_UNKNOWN = ''OUTCOME_UNKNOWN''"
| "CompositionOutcome_ToString CO_FAILED = ''FAILED''"

definition CompositionOutcome_table :: "CompositionOutcome list" where
  "CompositionOutcome_table =
    [CO_SUCCESS, CO_REJECTED, CO_PARTIAL, CO_ABORTED, CO_OUTCOME_UNKNOWN, CO_FAILED]"

definition CompositionOutcome_max :: u32 where
  "CompositionOutcome_max = 6"

datatype ReservationState =
  RS_NONE | RS_PROVISIONAL | RS_COMMITTED | RS_RELEASED | RS_ROLLED_BACK

fun ReservationState_value :: "ReservationState \<Rightarrow> u32" where
  "ReservationState_value RS_NONE = 0"
| "ReservationState_value RS_PROVISIONAL = 1"
| "ReservationState_value RS_COMMITTED = 2"
| "ReservationState_value RS_RELEASED = 3"
| "ReservationState_value RS_ROLLED_BACK = 4"

fun ReservationState_ToString :: "ReservationState \<Rightarrow> string" where
  "ReservationState_ToString RS_NONE = ''NONE''"
| "ReservationState_ToString RS_PROVISIONAL = ''PROVISIONAL''"
| "ReservationState_ToString RS_COMMITTED = ''COMMITTED''"
| "ReservationState_ToString RS_RELEASED = ''RELEASED''"
| "ReservationState_ToString RS_ROLLED_BACK = ''ROLLED_BACK''"

definition ReservationState_table :: "ReservationState list" where
  "ReservationState_table =
    [RS_NONE, RS_PROVISIONAL, RS_COMMITTED, RS_RELEASED, RS_ROLLED_BACK]"

definition ReservationState_max :: u32 where
  "ReservationState_max = 4"

datatype GraphEdgeKind =
  GE_REACHABILITY | GE_LATENCY_BOUND | GE_BANDWIDTH_BOUND | GE_COMPATIBILITY | GE_PROTOCOL
  | GE_LOCALITY | GE_FRESHNESS | GE_GENERATION

fun GraphEdgeKind_value :: "GraphEdgeKind \<Rightarrow> u32" where
  "GraphEdgeKind_value GE_REACHABILITY = 1"
| "GraphEdgeKind_value GE_LATENCY_BOUND = 2"
| "GraphEdgeKind_value GE_BANDWIDTH_BOUND = 3"
| "GraphEdgeKind_value GE_COMPATIBILITY = 4"
| "GraphEdgeKind_value GE_PROTOCOL = 5"
| "GraphEdgeKind_value GE_LOCALITY = 6"
| "GraphEdgeKind_value GE_FRESHNESS = 7"
| "GraphEdgeKind_value GE_GENERATION = 8"

fun GraphEdgeKind_ToString :: "GraphEdgeKind \<Rightarrow> string" where
  "GraphEdgeKind_ToString GE_REACHABILITY = ''REACHABILITY''"
| "GraphEdgeKind_ToString GE_LATENCY_BOUND = ''LATENCY_BOUND''"
| "GraphEdgeKind_ToString GE_BANDWIDTH_BOUND = ''BANDWIDTH_BOUND''"
| "GraphEdgeKind_ToString GE_COMPATIBILITY = ''COMPATIBILITY''"
| "GraphEdgeKind_ToString GE_PROTOCOL = ''PROTOCOL''"
| "GraphEdgeKind_ToString GE_LOCALITY = ''LOCALITY''"
| "GraphEdgeKind_ToString GE_FRESHNESS = ''FRESHNESS''"
| "GraphEdgeKind_ToString GE_GENERATION = ''GENERATION''"

definition GraphEdgeKind_table :: "GraphEdgeKind list" where
  "GraphEdgeKind_table =
    [GE_REACHABILITY, GE_LATENCY_BOUND, GE_BANDWIDTH_BOUND, GE_COMPATIBILITY, GE_PROTOCOL
    , GE_LOCALITY, GE_FRESHNESS, GE_GENERATION]"

definition GraphEdgeKind_max :: u32 where
  "GraphEdgeKind_max = 8"

datatype TopologyConstraint =
  TC_NONE | TC_COLOCATE | TC_SPREAD | TC_DISTINCT_FAILURE_DOMAINS | TC_MAX_SHARED_RISK

fun TopologyConstraint_value :: "TopologyConstraint \<Rightarrow> u32" where
  "TopologyConstraint_value TC_NONE = 0"
| "TopologyConstraint_value TC_COLOCATE = 1"
| "TopologyConstraint_value TC_SPREAD = 2"
| "TopologyConstraint_value TC_DISTINCT_FAILURE_DOMAINS = 3"
| "TopologyConstraint_value TC_MAX_SHARED_RISK = 4"

fun TopologyConstraint_ToString :: "TopologyConstraint \<Rightarrow> string" where
  "TopologyConstraint_ToString TC_NONE = ''NONE''"
| "TopologyConstraint_ToString TC_COLOCATE = ''COLOCATE''"
| "TopologyConstraint_ToString TC_SPREAD = ''SPREAD''"
| "TopologyConstraint_ToString TC_DISTINCT_FAILURE_DOMAINS = ''DISTINCT_FAILURE_DOMAINS''"
| "TopologyConstraint_ToString TC_MAX_SHARED_RISK = ''MAX_SHARED_RISK''"

definition TopologyConstraint_table :: "TopologyConstraint list" where
  "TopologyConstraint_table =
    [TC_NONE, TC_COLOCATE, TC_SPREAD, TC_DISTINCT_FAILURE_DOMAINS, TC_MAX_SHARED_RISK]"

section \<open>Validation on decode\<close>

text \<open>
  \<open>ValidEnum\<close> (\<open>persistence.cpp\<close>) and \<open>WireValidEnum\<close> (\<open>codec.hpp\<close>): the lower bound
  is the value 1 for every enumeration.  \<open>enum_cast\<close> is the \<open>static_cast\<close> that follows:
  the enumerator with that value, if there is one.
\<close>

definition ValidEnum :: "u32 \<Rightarrow> u32 \<Rightarrow> bool" where
  "ValidEnum max_value v \<longleftrightarrow> 1 \<le> v \<and> v \<le> max_value"

definition enum_cast :: "('e \<Rightarrow> u32) \<Rightarrow> 'e list \<Rightarrow> u32 \<Rightarrow> 'e option" where
  "enum_cast value_of table v = List.find (\<lambda>e. value_of e = v) table"

definition read_enum :: "('e \<Rightarrow> u32) \<Rightarrow> 'e list \<Rightarrow> u32 \<Rightarrow> u32 \<Rightarrow> 'e option" where
  "read_enum value_of table max_value v =
     (if ValidEnum max_value v then enum_cast value_of table v else None)"

locale enum_table =
  fixes value_of :: "'e \<Rightarrow> u32" and table :: "'e list" and max_value :: u32
  assumes table_all: "e \<in> set table"
    and values_distinct: "distinct (map value_of table)"
    and values_contiguous:
      "map (\<lambda>e. unat (value_of e)) (filter (\<lambda>e. 1 \<le> value_of e \<and> value_of e \<le> max_value) table)
         = [1..<Suc (unat max_value)]"
begin

lemma value_of_inject: "value_of a = value_of b \<longleftrightarrow> a = b"
  using values_distinct table_all by (metis distinct_map inj_on_def)

lemma cast_value: "enum_cast value_of table (value_of e) = Some e"
proof -
  have "\<exists>x. enum_cast value_of table (value_of e) = Some x"
    using table_all [of e] by (auto simp: enum_cast_def find_None_iff simp flip: not_None_eq)
  then show ?thesis by (auto simp: enum_cast_def find_Some_iff value_of_inject)
qed

lemma cast_total: "ValidEnum max_value v \<Longrightarrow> \<exists>e. enum_cast value_of table v = Some e \<and> value_of e = v"
proof -
  assume "ValidEnum max_value v"
  then have "unat v \<in> set [1..<Suc (unat max_value)]"
    by (auto simp: ValidEnum_def word_le_nat_alt)
  then obtain e where "unat (value_of e) = unat v"
    unfolding values_contiguous [symmetric] by auto
  then have "value_of e = v" by (simp add: word_unat_eq_iff)
  then show ?thesis using cast_value [of e] by auto
qed

lemma read_value:
  "read_enum value_of table max_value (value_of e) =
     (if ValidEnum max_value (value_of e) then Some e else None)"
  by (simp add: read_enum_def cast_value)

lemma read_Some_iff:
  "read_enum value_of table max_value v = Some e \<longleftrightarrow> ValidEnum max_value v \<and> value_of e = v"
  using cast_value [of e] cast_total [of v] by (auto simp: read_enum_def value_of_inject)

lemma read_None_iff: "read_enum value_of table max_value v = None \<longleftrightarrow> \<not> ValidEnum max_value v"
  using cast_total [of v] by (auto simp: read_enum_def)

end

lemma ResourceClass_in_table [simp]: "e \<in> set ResourceClass_table"
  by (cases e) (simp_all add: ResourceClass_table_def)

interpretation ResourceClass_enum: enum_table ResourceClass_value ResourceClass_table ResourceClass_max
  by unfold_locales (rule ResourceClass_in_table, simp_all add: ResourceClass_table_def ResourceClass_max_def upt_rec)

lemma CapabilityKind_in_table [simp]: "e \<in> set CapabilityKind_table"
  by (cases e) (simp_all add: CapabilityKind_table_def)

interpretation CapabilityKind_enum: enum_table CapabilityKind_value CapabilityKind_table CapabilityKind_max
  by unfold_locales (rule CapabilityKind_in_table, simp_all add: CapabilityKind_table_def CapabilityKind_max_def upt_rec)

lemma CapabilityState_in_table [simp]: "e \<in> set CapabilityState_table"
  by (cases e) (simp_all add: CapabilityState_table_def)

interpretation CapabilityState_enum: enum_table CapabilityState_value CapabilityState_table CapabilityState_max
  by unfold_locales (rule CapabilityState_in_table, simp_all add: CapabilityState_table_def CapabilityState_max_def upt_rec)

lemma ResourceHealth_in_table [simp]: "e \<in> set ResourceHealth_table"
  by (cases e) (simp_all add: ResourceHealth_table_def)

interpretation ResourceHealth_enum: enum_table ResourceHealth_value ResourceHealth_table ResourceHealth_max
  by unfold_locales (rule ResourceHealth_in_table, simp_all add: ResourceHealth_table_def ResourceHealth_max_def upt_rec)

lemma Readiness_in_table [simp]: "e \<in> set Readiness_table"
  by (cases e) (simp_all add: Readiness_table_def)

interpretation Readiness_enum: enum_table Readiness_value Readiness_table Readiness_max
  by unfold_locales (rule Readiness_in_table, simp_all add: Readiness_table_def Readiness_max_def upt_rec)

lemma Reachability_in_table [simp]: "e \<in> set Reachability_table"
  by (cases e) (simp_all add: Reachability_table_def)

interpretation Reachability_enum: enum_table Reachability_value Reachability_table Reachability_max
  by unfold_locales (rule Reachability_in_table, simp_all add: Reachability_table_def Reachability_max_def upt_rec)

lemma EvidenceState_in_table [simp]: "e \<in> set EvidenceState_table"
  by (cases e) (simp_all add: EvidenceState_table_def)

interpretation EvidenceState_enum: enum_table EvidenceState_value EvidenceState_table EvidenceState_max
  by unfold_locales (rule EvidenceState_in_table, simp_all add: EvidenceState_table_def EvidenceState_max_def upt_rec)

lemma EvidenceSource_in_table [simp]: "e \<in> set EvidenceSource_table"
  by (cases e) (simp_all add: EvidenceSource_table_def)

interpretation EvidenceSource_enum: enum_table EvidenceSource_value EvidenceSource_table EvidenceSource_max
  by unfold_locales (rule EvidenceSource_in_table, simp_all add: EvidenceSource_table_def EvidenceSource_max_def upt_rec)

lemma NodeLifecycle_in_table [simp]: "e \<in> set NodeLifecycle_table"
  by (cases e) (simp_all add: NodeLifecycle_table_def)

interpretation NodeLifecycle_enum: enum_table NodeLifecycle_value NodeLifecycle_table NodeLifecycle_max
  by unfold_locales (rule NodeLifecycle_in_table, simp_all add: NodeLifecycle_table_def NodeLifecycle_max_def upt_rec)

lemma FailureDomainType_in_table [simp]: "e \<in> set FailureDomainType_table"
  by (cases e) (simp_all add: FailureDomainType_table_def)

interpretation FailureDomainType_enum: enum_table FailureDomainType_value FailureDomainType_table FailureDomainType_max
  by unfold_locales (rule FailureDomainType_in_table, simp_all add: FailureDomainType_table_def FailureDomainType_max_def upt_rec)

lemma BackendKind_in_table [simp]: "e \<in> set BackendKind_table"
  by (cases e) (simp_all add: BackendKind_table_def)

interpretation BackendKind_enum: enum_table BackendKind_value BackendKind_table BackendKind_max
  by unfold_locales (rule BackendKind_in_table, simp_all add: BackendKind_table_def BackendKind_max_def upt_rec)

lemma CompositionLifecycle_in_table [simp]: "e \<in> set CompositionLifecycle_table"
  by (cases e) (simp_all add: CompositionLifecycle_table_def)

interpretation CompositionLifecycle_enum: enum_table CompositionLifecycle_value CompositionLifecycle_table CompositionLifecycle_max
  by unfold_locales (rule CompositionLifecycle_in_table, simp_all add: CompositionLifecycle_table_def CompositionLifecycle_max_def upt_rec)

lemma RejectionReason_in_table [simp]: "e \<in> set RejectionReason_table"
  by (cases e) (simp_all add: RejectionReason_table_def)

interpretation RejectionReason_enum: enum_table RejectionReason_value RejectionReason_table RejectionReason_max
  by unfold_locales (rule RejectionReason_in_table, simp_all add: RejectionReason_table_def RejectionReason_max_def upt_rec)

lemma CompositionOutcome_in_table [simp]: "e \<in> set CompositionOutcome_table"
  by (cases e) (simp_all add: CompositionOutcome_table_def)

interpretation CompositionOutcome_enum: enum_table CompositionOutcome_value CompositionOutcome_table CompositionOutcome_max
  by unfold_locales (rule CompositionOutcome_in_table, simp_all add: CompositionOutcome_table_def CompositionOutcome_max_def upt_rec)

lemma ReservationState_in_table [simp]: "e \<in> set ReservationState_table"
  by (cases e) (simp_all add: ReservationState_table_def)

interpretation ReservationState_enum: enum_table ReservationState_value ReservationState_table ReservationState_max
  by unfold_locales (rule ReservationState_in_table, simp_all add: ReservationState_table_def ReservationState_max_def upt_rec)

lemma GraphEdgeKind_in_table [simp]: "e \<in> set GraphEdgeKind_table"
  by (cases e) (simp_all add: GraphEdgeKind_table_def)

interpretation GraphEdgeKind_enum: enum_table GraphEdgeKind_value GraphEdgeKind_table GraphEdgeKind_max
  by unfold_locales (rule GraphEdgeKind_in_table, simp_all add: GraphEdgeKind_table_def GraphEdgeKind_max_def upt_rec)

section \<open>Order of resource classes\<close>

text \<open>A \<open>std::set<ResourceClass>\<close> iterates in the order of the enumerator values.\<close>

instantiation ResourceClass :: linorder
begin

definition less_eq_ResourceClass :: "ResourceClass \<Rightarrow> ResourceClass \<Rightarrow> bool" where
  "less_eq_ResourceClass a b \<longleftrightarrow> ResourceClass_value a \<le> ResourceClass_value b"

definition less_ResourceClass :: "ResourceClass \<Rightarrow> ResourceClass \<Rightarrow> bool" where
  "less_ResourceClass a b \<longleftrightarrow> ResourceClass_value a < ResourceClass_value b"

instance
proof
  fix x y :: ResourceClass
  show "x \<le> y \<Longrightarrow> y \<le> x \<Longrightarrow> x = y"
    unfolding less_eq_ResourceClass_def by (metis antisym ResourceClass_enum.value_of_inject)
qed (auto simp: less_eq_ResourceClass_def less_ResourceClass_def)

end

section \<open>Correctness of enum decoding\<close>

text \<open>
  For every enumeration that is stored or sent, a raw value decodes to an enumerator
  exactly when it lies within the canonical bounds and is that enumerator's value: nothing
  out of range is accepted, nothing in range is refused, and no value has two readings.
\<close>

theorem enum_decoding_exact:
  "(read_enum ResourceClass_value ResourceClass_table ResourceClass_max v = Some e0 \<longleftrightarrow> ValidEnum ResourceClass_max v \<and> ResourceClass_value e0 = v) \<and>
   (read_enum CapabilityKind_value CapabilityKind_table CapabilityKind_max v = Some e1 \<longleftrightarrow> ValidEnum CapabilityKind_max v \<and> CapabilityKind_value e1 = v) \<and>
   (read_enum CapabilityState_value CapabilityState_table CapabilityState_max v = Some e2 \<longleftrightarrow> ValidEnum CapabilityState_max v \<and> CapabilityState_value e2 = v) \<and>
   (read_enum ResourceHealth_value ResourceHealth_table ResourceHealth_max v = Some e3 \<longleftrightarrow> ValidEnum ResourceHealth_max v \<and> ResourceHealth_value e3 = v) \<and>
   (read_enum Readiness_value Readiness_table Readiness_max v = Some e4 \<longleftrightarrow> ValidEnum Readiness_max v \<and> Readiness_value e4 = v) \<and>
   (read_enum Reachability_value Reachability_table Reachability_max v = Some e5 \<longleftrightarrow> ValidEnum Reachability_max v \<and> Reachability_value e5 = v) \<and>
   (read_enum EvidenceState_value EvidenceState_table EvidenceState_max v = Some e6 \<longleftrightarrow> ValidEnum EvidenceState_max v \<and> EvidenceState_value e6 = v) \<and>
   (read_enum EvidenceSource_value EvidenceSource_table EvidenceSource_max v = Some e7 \<longleftrightarrow> ValidEnum EvidenceSource_max v \<and> EvidenceSource_value e7 = v) \<and>
   (read_enum NodeLifecycle_value NodeLifecycle_table NodeLifecycle_max v = Some e8 \<longleftrightarrow> ValidEnum NodeLifecycle_max v \<and> NodeLifecycle_value e8 = v) \<and>
   (read_enum FailureDomainType_value FailureDomainType_table FailureDomainType_max v = Some e9 \<longleftrightarrow> ValidEnum FailureDomainType_max v \<and> FailureDomainType_value e9 = v) \<and>
   (read_enum BackendKind_value BackendKind_table BackendKind_max v = Some e10 \<longleftrightarrow> ValidEnum BackendKind_max v \<and> BackendKind_value e10 = v) \<and>
   (read_enum CompositionLifecycle_value CompositionLifecycle_table CompositionLifecycle_max v = Some e11 \<longleftrightarrow> ValidEnum CompositionLifecycle_max v \<and> CompositionLifecycle_value e11 = v) \<and>
   (read_enum RejectionReason_value RejectionReason_table RejectionReason_max v = Some e12 \<longleftrightarrow> ValidEnum RejectionReason_max v \<and> RejectionReason_value e12 = v) \<and>
   (read_enum CompositionOutcome_value CompositionOutcome_table CompositionOutcome_max v = Some e13 \<longleftrightarrow> ValidEnum CompositionOutcome_max v \<and> CompositionOutcome_value e13 = v) \<and>
   (read_enum ReservationState_value ReservationState_table ReservationState_max v = Some e14 \<longleftrightarrow> ValidEnum ReservationState_max v \<and> ReservationState_value e14 = v) \<and>
   (read_enum GraphEdgeKind_value GraphEdgeKind_table GraphEdgeKind_max v = Some e15 \<longleftrightarrow> ValidEnum GraphEdgeKind_max v \<and> GraphEdgeKind_value e15 = v)"
  by (intro conjI) (rule ResourceClass_enum.read_Some_iff | rule CapabilityKind_enum.read_Some_iff | rule CapabilityState_enum.read_Some_iff | rule ResourceHealth_enum.read_Some_iff | rule Readiness_enum.read_Some_iff | rule Reachability_enum.read_Some_iff | rule EvidenceState_enum.read_Some_iff | rule EvidenceSource_enum.read_Some_iff | rule NodeLifecycle_enum.read_Some_iff | rule FailureDomainType_enum.read_Some_iff | rule BackendKind_enum.read_Some_iff | rule CompositionLifecycle_enum.read_Some_iff | rule RejectionReason_enum.read_Some_iff | rule CompositionOutcome_enum.read_Some_iff | rule ReservationState_enum.read_Some_iff | rule GraphEdgeKind_enum.read_Some_iff)+

end
