(* ===== verification/Binary64.thy ===== *)
theory Binary64
  imports Fabric_Prelude
begin

text \<open>
  The C++ type \<open>double\<close> as IEEE~754 binary64, held as its 64-bit pattern: this is what
  \<open>std::memcpy\<close> to a 64-bit integer shows, so the codecs need no further assumption.
  Every finite double is an integer multiple of \<open>2 ^ -1074\<close>; sums and products are formed
  exactly on integers and rounded once, to nearest with ties to even, as the hardware does.
  Comparison uses that the bit pattern below the sign bit is ordered like the magnitude.
  The sign and payload of a NaN produced by arithmetic are left out: every such result is
  the canonical quiet NaN (no code of the fabric inspects them).
\<close>

type_synonym double = u64

section \<open>Fields of the bit pattern\<close>

definition d_negative :: "double \<Rightarrow> bool" where
  "d_negative x \<longleftrightarrow> 2 ^ 63 \<le> uint x"

definition d_mag :: "double \<Rightarrow> int" where
  "d_mag x = uint x mod 2 ^ 63"

definition d_inf_mag :: int where
  "d_inf_mag = 2047 * 2 ^ 52"

definition d_is_nan :: "double \<Rightarrow> bool" where
  "d_is_nan x \<longleftrightarrow> d_inf_mag < d_mag x"

definition d_is_inf :: "double \<Rightarrow> bool" where
  "d_is_inf x \<longleftrightarrow> d_mag x = d_inf_mag"

definition d_finite :: "double \<Rightarrow> bool" where
  "d_finite x \<longleftrightarrow> d_mag x < d_inf_mag"

definition d_nan :: double where
  "d_nan = 0x7FF8000000000000"

text \<open>Mantissa and exponent: the magnitude is \<open>d_man x * 2 ^ d_exp x\<close> units of \<open>2 ^ -1074\<close>.\<close>

definition d_exp :: "double \<Rightarrow> int" where
  "d_exp x = (let e = d_mag x div 2 ^ 52 in if e = 0 then 0 else e - 1)"

definition d_man :: "double \<Rightarrow> int" where
  "d_man x = (let e = d_mag x div 2 ^ 52; f = d_mag x mod 2 ^ 52 in if e = 0 then f else 2 ^ 52 + f)"

section \<open>Rounding\<close>

function bitlen :: "int \<Rightarrow> int" where
  "bitlen n = (if n \<le> 0 then 0 else 1 + bitlen (n div 2))"
  by pat_completeness auto
termination by (relation "measure nat") auto

declare bitlen.simps [simp del]

text \<open>Nearest integer to \<open>n / 2 ^ k\<close>, ties to even.\<close>

definition round_half_even :: "int \<Rightarrow> nat \<Rightarrow> int" where
  "round_half_even n k =
     (let q = n div 2 ^ k; r = n mod 2 ^ k
      in if 2 ^ k < 2 * r \<or> (2 ^ k = 2 * r \<and> odd q) then q + 1 else q)"

text \<open>The magnitude bits of the double nearest to \<open>n * 2 ^ e\<close> units (\<open>n \<ge> 0\<close>).\<close>

definition d_round :: "int \<Rightarrow> int \<Rightarrow> int" where
  "d_round n e =
     (if n = 0 then 0
      else let q = max 0 (e + bitlen n - 53);
               m = (if q \<le> e then n * 2 ^ nat (e - q) else round_half_even n (nat (q - e)))
           in min (q * 2 ^ 52 + m) d_inf_mag)"

definition d_pack :: "bool \<Rightarrow> int \<Rightarrow> double" where
  "d_pack s m = word_of_int (if s then 2 ^ 63 + m else m)"

section \<open>Arithmetic and comparison\<close>

definition d_neg :: "double \<Rightarrow> double" where
  "d_neg x = d_pack (\<not> d_negative x) (d_mag x)"

definition d_signed :: "double \<Rightarrow> int \<Rightarrow> int" where
  "d_signed x e = (let a = d_man x * 2 ^ nat (d_exp x - e) in if d_negative x then - a else a)"

definition d_add :: "double \<Rightarrow> double \<Rightarrow> double" where
  "d_add x y =
     (if d_is_nan x \<or> d_is_nan y then d_nan
      else if d_is_inf x then (if d_is_inf y \<and> d_negative x \<noteq> d_negative y then d_nan else x)
      else if d_is_inf y then y
      else let e = min (d_exp x) (d_exp y);
               v = d_signed x e + d_signed y e
           in if v = 0 then d_pack (d_negative x \<and> d_negative y) 0
              else d_pack (v < 0) (d_round \<bar>v\<bar> e))"

definition d_sub :: "double \<Rightarrow> double \<Rightarrow> double" where
  "d_sub x y = d_add x (d_neg y)"

definition d_mul :: "double \<Rightarrow> double \<Rightarrow> double" where
  "d_mul x y =
     (let s = (d_negative x \<noteq> d_negative y)
      in if d_is_nan x \<or> d_is_nan y then d_nan
         else if d_is_inf x \<or> d_is_inf y
              then (if d_mag x = 0 \<or> d_mag y = 0 then d_nan else d_pack s d_inf_mag)
         else d_pack s (d_round (d_man x * d_man y) (d_exp x + d_exp y - 1074)))"

text \<open>\<open>static_cast<double>\<close> of an unsigned 64-bit integer.\<close>

definition d_of_u64 :: "u64 \<Rightarrow> double" where
  "d_of_u64 n = d_pack False (d_round (uint n) 1074)"

definition d_of_nat :: "nat \<Rightarrow> double" where
  "d_of_nat n = d_pack False (d_round (int n) 1074)"

definition d_key :: "double \<Rightarrow> int" where
  "d_key x = (if d_negative x then - d_mag x else d_mag x)"

definition d_lt :: "double \<Rightarrow> double \<Rightarrow> bool" where
  "d_lt x y \<longleftrightarrow> \<not> d_is_nan x \<and> \<not> d_is_nan y \<and> d_key x < d_key y"

definition d_ge :: "double \<Rightarrow> double \<Rightarrow> bool" where
  "d_ge x y \<longleftrightarrow> \<not> d_is_nan x \<and> \<not> d_is_nan y \<and> d_key y \<le> d_key x"

definition d_eq :: "double \<Rightarrow> double \<Rightarrow> bool" where
  "d_eq x y \<longleftrightarrow> \<not> d_is_nan x \<and> \<not> d_is_nan y \<and> d_key x = d_key y"

abbreviation d_gt :: "double \<Rightarrow> double \<Rightarrow> bool" where
  "d_gt x y \<equiv> d_lt y x"

text \<open>\<open>std::max(a, b)\<close> is \<open>a < b ? b : a\<close>; \<open>std::min(a, b)\<close> is \<open>b < a ? b : a\<close>.\<close>

definition d_max :: "double \<Rightarrow> double \<Rightarrow> double" where
  "d_max a b = (if d_lt a b then b else a)"

definition d_min :: "double \<Rightarrow> double \<Rightarrow> double" where
  "d_min a b = (if d_lt b a then b else a)"

text \<open>The literals the engine uses.\<close>

definition d_1 :: double where "d_1 = 0x3FF0000000000000"
definition d_minus_1 :: double where "d_minus_1 = 0xBFF0000000000000"
definition d_10 :: double where "d_10 = 0x4024000000000000"
definition d_100 :: double where "d_100 = 0x4059000000000000"
definition d_1000 :: double where "d_1000 = 0x408F400000000000"
definition d_tenth :: double where "d_tenth = 0x3FB999999999999A"
definition d_1em6 :: double where "d_1em6 = 0x3EB0C6F7A0B5ED8D"
definition d_1e12 :: double where "d_1e12 = 0x426D1A94A2000000"

lemmas d_literals = d_1_def d_minus_1_def d_10_def d_100_def d_1000_def d_tenth_def d_1em6_def
  d_1e12_def

section \<open>Basic laws\<close>

lemma d_mag_bounds [simp]: "0 \<le> d_mag x" "d_mag x < 9223372036854775808"
  by (simp_all add: d_mag_def)

lemma d_inf_mag_eq: "d_inf_mag = 9218868437227405312"
  by (simp add: d_inf_mag_def)

lemma uint_split: "uint x = (if d_negative x then 9223372036854775808 + d_mag x else d_mag x)"
proof -
  have hi: "uint x < 18446744073709551616" using uint_lt2p [of x] by simp
  show ?thesis
  proof (cases "d_negative x")
    case True
    then have lo: "9223372036854775808 \<le> uint x" by (simp add: d_negative_def)
    have "uint x mod 9223372036854775808 = (uint x - 9223372036854775808) mod 9223372036854775808"
      by simp
    also have "\<dots> = uint x - 9223372036854775808"
      using lo hi by (intro mod_pos_pos_trivial) simp_all
    finally show ?thesis using True by (simp add: d_mag_def)
  next
    case False
    then show ?thesis by (simp add: d_negative_def d_mag_def)
  qed
qed

lemma d_pack_uint:
  "0 \<le> m \<Longrightarrow> m < 9223372036854775808 \<Longrightarrow>
     uint (d_pack s m) = (if s then 9223372036854775808 + m else m)"
  by (simp add: d_pack_def uint_word_of_int)

lemma d_pack_mag [simp]: "0 \<le> m \<Longrightarrow> m < 9223372036854775808 \<Longrightarrow> d_mag (d_pack s m) = m"
  by (simp add: d_mag_def d_pack_uint)

lemma d_pack_negative [simp]:
  "0 \<le> m \<Longrightarrow> m < 9223372036854775808 \<Longrightarrow> d_negative (d_pack s m) = s"
  by (simp add: d_negative_def d_pack_uint)

lemma d_pack_same [simp]: "d_pack (d_negative x) (d_mag x) = x"
  by (simp add: word_uint_eq_iff d_pack_uint uint_split)

lemma double_eqI: "d_mag x = d_mag y \<Longrightarrow> d_negative x = d_negative y \<Longrightarrow> x = y"
  by (simp add: word_uint_eq_iff uint_split)

lemma d_mag_neg [simp]: "d_mag (d_neg x) = d_mag x"
  by (simp add: d_neg_def)

lemma d_negative_neg [simp]: "d_negative (d_neg x) = (\<not> d_negative x)"
  by (simp add: d_neg_def)

lemma d_fields_neg [simp]:
  "d_is_nan (d_neg x) = d_is_nan x" "d_is_inf (d_neg x) = d_is_inf x"
  "d_finite (d_neg x) = d_finite x" "d_man (d_neg x) = d_man x" "d_exp (d_neg x) = d_exp x"
  by (simp_all add: d_is_nan_def d_is_inf_def d_finite_def d_man_def d_exp_def)

lemma d_finite_simps: "d_finite x \<longleftrightarrow> \<not> d_is_nan x \<and> \<not> d_is_inf x"
  by (auto simp: d_finite_def d_is_nan_def d_is_inf_def)

lemma d_zero_fields [simp]:
  "d_mag 0 = 0" "\<not> d_negative 0" "d_key 0 = 0" "\<not> d_is_nan 0" "d_finite 0"
  by (simp_all add: d_mag_def d_negative_def d_key_def d_is_nan_def d_finite_def d_inf_mag_def)

lemma d_not_finite_nan [simp]: "d_is_nan d_nan"
  by (simp add: d_is_nan_def d_nan_def d_mag_def d_inf_mag_def)

lemma d_man_nonneg [simp]: "0 \<le> d_man x"
  by (simp add: d_man_def Let_def)

lemma d_exp_nonneg [simp]: "0 \<le> d_exp x"
proof -
  have "0 \<le> d_mag x div 2 ^ 52" by (simp add: pos_imp_zdiv_nonneg_iff)
  then show ?thesis by (auto simp: d_exp_def Let_def)
qed

lemma d_mag_parts: "d_mag x = d_exp x * 2 ^ 52 + d_man x"
proof -
  have "m = (let e = m div p in if e = 0 then 0 else e - 1) * p
      + (let e = m div p; f = m mod p in if e = 0 then f else p + f)" for m p :: int
    using div_mult_mod_eq [of m p] by (cases "m div p = 0") (auto simp: Let_def algebra_simps)
  then show ?thesis unfolding d_exp_def d_man_def by blast
qed

lemma d_man_zero: "d_man x = 0 \<longleftrightarrow> d_mag x = 0"
proof
  assume z: "d_man x = 0"
  have f: "0 \<le> d_mag x mod 2 ^ 52" by simp
  have "d_mag x div 2 ^ 52 = 0"
  proof (rule ccontr)
    assume "d_mag x div 2 ^ 52 \<noteq> 0"
    then have "d_man x = 2 ^ 52 + d_mag x mod 2 ^ 52" by (simp add: d_man_def Let_def)
    with z f show False by simp
  qed
  then have "d_exp x = 0" by (simp add: d_exp_def)
  with z d_mag_parts [of x] show "d_mag x = 0" by simp
qed (simp add: d_man_def)

section \<open>Rounding laws\<close>

lemma bitlen_nonneg [simp]: "0 \<le> bitlen n"
  by (induction n rule: bitlen.induct) (simp add: bitlen.simps)

lemma bitlen_le:
  "n < 2 ^ k \<Longrightarrow> bitlen n \<le> int k"
proof (induction n arbitrary: k rule: bitlen.induct)
  case (1 n)
  show ?case
  proof (cases "n \<le> 0")
    case True
    then show ?thesis by (simp add: bitlen.simps)
  next
    case False
    then obtain j where k: "k = Suc j" using "1.prems" by (cases k) auto
    with "1.prems" have "n div 2 < 2 ^ j" by simp
    with False "1.IH" have "bitlen (n div 2) \<le> int j" by simp
    with False k show ?thesis by (simp add: bitlen.simps [of n])
  qed
qed

lemma bitlen_ge:
  "2 ^ k \<le> n \<Longrightarrow> int k < bitlen n"
proof (induction n arbitrary: k rule: bitlen.induct)
  case (1 n)
  have pos: "\<not> n \<le> 0" using "1.prems" by (smt (verit) zero_less_power)
  show ?case
  proof (cases k)
    case 0
    with pos show ?thesis using bitlen_nonneg [of "n div 2"]
      by (simp add: bitlen.simps [of n] del: bitlen_nonneg)
  next
    case (Suc j)
    with "1.prems" have "2 ^ j \<le> n div 2" by simp
    with pos "1.IH" have "int j < bitlen (n div 2)" by simp
    with pos Suc show ?thesis by (simp add: bitlen.simps [of n])
  qed
qed

lemma round_half_even_nonneg: "0 \<le> n \<Longrightarrow> 0 \<le> round_half_even n k"
  by (simp add: round_half_even_def Let_def pos_imp_zdiv_nonneg_iff)

lemma d_round_bounds: "0 \<le> n \<Longrightarrow> 0 \<le> d_round n e \<and> d_round n e \<le> d_inf_mag"
  by (auto simp: d_round_def Let_def d_inf_mag_eq round_half_even_nonneg)

lemma d_round_lt: "0 \<le> n \<Longrightarrow> d_round n e < 9223372036854775808"
  using d_round_bounds [of n e] by (simp add: d_inf_mag_eq)

text \<open>A representable value is its own rounding.\<close>

lemma d_round_exact:
  assumes "d_finite x"
  shows "d_round (d_man x) (d_exp x) = d_mag x"
proof (cases "d_mag x = 0")
  case True
  then show ?thesis using d_man_zero [of x] by (simp add: d_round_def)
next
  case nz: False
  then have man: "d_man x \<noteq> 0" by (simp add: d_man_zero)
  have q: "max 0 (d_exp x + bitlen (d_man x) - 53) = d_exp x"
  proof (cases "d_mag x div 2 ^ 52 = 0")
    case True
    then have "d_man x < 2 ^ 52" by (simp add: d_man_def)
    then have "bitlen (d_man x) \<le> 52" using bitlen_le [of "d_man x" 52] by simp
    with True show ?thesis by (simp add: d_exp_def)
  next
    case False
    then have eq: "d_man x = 2 ^ 52 + d_mag x mod 2 ^ 52" by (simp add: d_man_def Let_def)
    have f: "0 \<le> d_mag x mod 2 ^ 52" "d_mag x mod 2 ^ 52 < 2 ^ 52" by simp_all
    have "d_man x < 2 ^ 53" using eq f by simp
    then have "bitlen (d_man x) \<le> 53" using bitlen_le [of "d_man x" 53] by simp
    moreover have "52 < bitlen (d_man x)" using bitlen_ge [of 52 "d_man x"] eq f by simp
    ultimately have "bitlen (d_man x) = 53" by simp
    then show ?thesis by (simp add: max_def)
  qed
  have "d_mag x \<le> d_inf_mag" using assms by (simp add: d_finite_def)
  then show ?thesis using man q d_mag_parts [of x] by (simp add: d_round_def Let_def min_def)
qed

section \<open>Laws of addition and subtraction\<close>

lemma d_man_exp_zero: "d_mag x = 0 \<Longrightarrow> d_man x = 0 \<and> d_exp x = 0"
  by (simp add: d_man_def d_exp_def)

lemma d_signed_zero: "d_mag x = 0 \<Longrightarrow> d_signed x e = 0"
  by (simp add: d_signed_def d_man_exp_zero Let_def)

text \<open>Adding to a zero returns the other operand, whatever its exponent.\<close>

lemma d_round_shift:
  assumes "0 < n" "0 \<le> e"
  shows "d_round (n * 2 ^ k) e = d_round n (e + int k)"
proof -
  have bl: "bitlen (m * 2 ^ k) = bitlen m + int k" if "0 < m" for m :: int
    using that
  proof (induction k)
    case (Suc k)
    have pos: "0 < m * 2 ^ k" using Suc.prems by simp
    have "m * 2 ^ Suc k div 2 = m * 2 ^ k" by simp
    with pos have "bitlen (m * 2 ^ Suc k) = 1 + bitlen (m * 2 ^ k)"
      using Suc.prems by (subst bitlen.simps) (simp flip: not_less)
    with Suc show ?case by simp
  qed simp
  define q where "q = max 0 (e + int k + bitlen n - 53)"
  have q2: "max 0 (e + bitlen (n * 2 ^ k) - 53) = q" using bl [OF assms(1)] by (simp add: q_def add.assoc add.commute)
  have m: "(if q \<le> e then n * 2 ^ k * 2 ^ nat (e - q) else round_half_even (n * 2 ^ k) (nat (q - e)))
      = (if q \<le> e + int k then n * 2 ^ nat (e + int k - q) else round_half_even n (nat (q - (e + int k))))"
  proof (cases "q \<le> e")
    case True
    then have "nat (e + int k - q) = k + nat (e - q)" by simp
    with True show ?thesis by (simp add: power_add mult.assoc)
  next
    case False
    show ?thesis
    proof (cases "q \<le> e + int k")
      case True
      define j where "j = nat (q - e)"
      have j: "j \<le> k" using True by (simp add: j_def)
      have split: "n * 2 ^ k = (n * 2 ^ (k - j)) * 2 ^ j"
        using j by (simp flip: power_add add: mult.assoc)
      have "round_half_even (n * 2 ^ k) j = n * 2 ^ (k - j)"
        unfolding split by (simp add: round_half_even_def Let_def)
      moreover have "nat (e + int k - q) = k - j" using False by (simp add: j_def nat_diff_distrib)
      ultimately show ?thesis using False True by (simp add: j_def)
    next
      case beyond: False
      define j where "j = nat (q - (e + int k))"
      have eq: "nat (q - e) = j + k" using beyond by (simp add: j_def)
      have "round_half_even (n * 2 ^ k) (j + k) = round_half_even n j"
        by (simp add: round_half_even_def Let_def power_add div_mult_mult2 mod_mult_mult2
            mult.left_commute flip: mult.assoc)
      then show ?thesis using False beyond by (simp add: eq flip: j_def)
    qed
  qed
  have nz: "n * 2 ^ k \<noteq> 0" "n \<noteq> 0" using assms(1) by auto
  show ?thesis
    unfolding d_round_def Let_def q2 q_def [symmetric] m using nz by (simp only: if_False)
qed

lemma d_add_zero:
  assumes "d_mag z = 0" "d_finite y" "d_mag y \<noteq> 0"
  shows "d_add z y = y"
proof -
  have fin: "d_finite z" using assms(1) by (simp add: d_finite_def d_inf_mag_eq)
  have e: "min (d_exp z) (d_exp y) = 0" using d_man_exp_zero [OF assms(1)] d_exp_nonneg [of y] by simp
  define V where "V = d_man y * 2 ^ nat (d_exp y)"
  have sz: "d_signed z 0 = 0" using assms(1) by (rule d_signed_zero)
  have sy: "d_signed y 0 = (if d_negative y then - V else V)"
    by (simp add: d_signed_def Let_def V_def)
  have man: "0 < d_man y" using assms(3) d_man_nonneg [of y] by (simp add: d_man_zero less_le)
  have pos: "0 < V" using man by (simp add: V_def)
  have "d_round V 0 = d_round (d_man y) (d_exp y)"
    using d_round_shift [OF man, of 0 "nat (d_exp y)"] d_exp_nonneg [of y] by (simp add: V_def)
  then have r: "d_round V 0 = d_mag y" by (simp add: d_round_exact [OF assms(2)])
  have "d_add z y = d_pack (d_negative y) (d_round V 0)"
    unfolding d_add_def Let_def e sz sy using fin assms(2) pos by (auto simp: d_finite_simps)
  then show ?thesis by (simp add: r)
qed

lemma d_sub_self:
  assumes "d_finite x"
  shows "d_sub x x = 0"
proof -
  have "d_signed x e + d_signed (d_neg x) e = 0" for e
    by (simp add: d_signed_def Let_def)
  then show ?thesis
    using assms by (simp add: d_sub_def d_add_def d_finite_simps d_pack_def)
qed

lemma d_sub_zero:
  assumes "d_finite x" "d_mag x \<noteq> 0" "d_mag z = 0"
  shows "d_sub x z = x"
proof -
  have comm: "d_add a b = d_add b a" if "d_finite a" "d_finite b" for a b
    using that by (simp add: d_add_def d_finite_simps Let_def min.commute add.commute conj_commute)
  have "d_finite z" using assms(3) by (simp add: d_finite_def d_inf_mag_eq)
  then show ?thesis using assms comm d_add_zero [of "d_neg z" x] by (simp add: d_sub_def)
qed

text \<open>Evaluation takes the exact case of a zero operand without aligning exponents.\<close>

lemma d_neg_neg [simp]: "d_neg (d_neg x) = x"
  by (rule double_eqI) simp_all

lemma d_add_zero_right: "d_finite x \<Longrightarrow> d_mag x \<noteq> 0 \<Longrightarrow> d_mag z = 0 \<Longrightarrow> d_add x z = x"
  using d_sub_zero [of x "d_neg z"] by (simp add: d_sub_def)

lemma d_add_code [code]:
  "d_add x y =
     (if d_mag x = 0 \<and> d_mag y \<noteq> 0 \<and> d_finite y then y
      else if d_mag y = 0 \<and> d_mag x \<noteq> 0 \<and> d_finite x then x
      else if d_is_nan x \<or> d_is_nan y then d_nan
      else if d_is_inf x then (if d_is_inf y \<and> d_negative x \<noteq> d_negative y then d_nan else x)
      else if d_is_inf y then y
      else let e = min (d_exp x) (d_exp y);
               v = d_signed x e + d_signed y e
           in if v = 0 then d_pack (d_negative x \<and> d_negative y) 0
              else d_pack (v < 0) (d_round \<bar>v\<bar> e))"
  using d_add_zero [of x y] d_add_zero_right [of x y] by (simp add: d_add_def)

section \<open>Comparison laws\<close>

lemma d_lt_irrefl [simp]: "\<not> d_lt x x"
  by (simp add: d_lt_def)

lemma d_lt_trans: "d_lt x y \<Longrightarrow> d_lt y z \<Longrightarrow> d_lt x z"
  by (auto simp: d_lt_def)

lemma d_lt_asym: "d_lt x y \<Longrightarrow> \<not> d_lt y x"
  by (auto simp: d_lt_def)

lemma d_eq_zero_iff: "d_eq x 0 \<longleftrightarrow> d_mag x = 0"
  by (auto simp: d_eq_def d_key_def d_is_nan_def d_inf_mag_eq)

lemma d_gt_zero_iff: "d_gt x 0 \<longleftrightarrow> \<not> d_is_nan x \<and> \<not> d_negative x \<and> d_mag x \<noteq> 0"
  using d_mag_bounds(1) [of x] by (auto simp: d_lt_def d_key_def simp del: d_mag_bounds)

lemma d_lt_zero_iff: "d_lt x 0 \<longleftrightarrow> \<not> d_is_nan x \<and> d_negative x \<and> d_mag x \<noteq> 0"
  using d_mag_bounds(1) [of x] by (auto simp: d_lt_def d_key_def simp del: d_mag_bounds)

text \<open>Values that are at least zero: closed under the sums and products the engine forms.\<close>

definition d_nonneg :: "double \<Rightarrow> bool" where
  "d_nonneg x \<longleftrightarrow> \<not> d_is_nan x \<and> 0 \<le> d_key x"

lemma d_nonneg_iff: "d_nonneg x \<longleftrightarrow> \<not> d_is_nan x \<and> (d_negative x \<longrightarrow> d_mag x = 0)"
  using d_mag_bounds(1) [of x] by (auto simp: d_nonneg_def d_key_def simp del: d_mag_bounds)

lemma d_nonneg_zero [simp]: "d_nonneg 0"
  by (simp add: d_nonneg_def)

lemma d_nonneg_ge: "d_nonneg x \<longleftrightarrow> d_ge x 0"
  by (auto simp: d_nonneg_def d_ge_def)

lemma d_pack_nonneg: "0 \<le> m \<Longrightarrow> m \<le> d_inf_mag \<Longrightarrow> (s \<Longrightarrow> m = 0) \<Longrightarrow> d_nonneg (d_pack s m)"
  by (auto simp: d_nonneg_iff d_inf_mag_eq d_is_nan_def)

lemma d_signed_nonneg: "d_nonneg x \<Longrightarrow> 0 \<le> d_signed x e"
  by (auto simp: d_nonneg_iff d_signed_def Let_def d_man_exp_zero)

lemma d_add_nonneg:
  assumes "d_nonneg x" "d_nonneg y"
  shows "d_nonneg (d_add x y)"
proof -
  let ?v = "d_signed x (min (d_exp x) (d_exp y)) + d_signed y (min (d_exp x) (d_exp y))"
  have v: "0 \<le> ?v" using assms d_signed_nonneg by (simp add: add_nonneg_nonneg)
  have inf: "\<not> d_negative z" if "d_nonneg z" "d_is_inf z" for z
    using that by (auto simp: d_nonneg_iff d_is_inf_def d_inf_mag_eq)
  have pk: "d_nonneg (d_pack (?v < 0) (d_round \<bar>?v\<bar> e))" for e
    using v d_round_bounds [of ?v e] by (intro d_pack_nonneg) auto
  have zero: "d_nonneg (d_pack b 0)" for b by (rule d_pack_nonneg) (simp_all add: d_inf_mag_eq)
  show ?thesis
    using assms inf pk zero by (auto simp: d_add_def Let_def d_nonneg_iff)
qed

lemma d_mul_nonneg:
  assumes "d_nonneg x" "d_finite y" "\<not> d_negative y" "d_mag y \<noteq> 0"
  shows "d_nonneg (d_mul x y)"
proof -
  have sign: "d_negative x \<Longrightarrow> d_mag x = 0" using assms(1) by (simp add: d_nonneg_iff)
  have "d_nonneg (d_pack (d_negative x) (d_round (d_man x * d_man y) e))" for e
    using sign d_round_bounds [of "d_man x * d_man y" e]
    by (intro d_pack_nonneg) (auto simp: d_man_zero d_round_def)
  moreover have "d_is_inf x \<Longrightarrow> d_mag x \<noteq> 0" by (simp add: d_is_inf_def d_inf_mag_eq)
  moreover have "d_is_inf x \<Longrightarrow> \<not> d_negative x" using sign by (auto simp: d_is_inf_def d_inf_mag_eq)
  moreover have "d_nonneg (d_pack False d_inf_mag)" by (rule d_pack_nonneg) (simp_all add: d_inf_mag_eq)
  ultimately show ?thesis
    using assms by (auto simp: d_mul_def Let_def d_nonneg_iff d_finite_simps)
qed

lemma d_mul_commute: "d_mul x y = d_mul y x"
proof -
  have s: "(d_negative x \<noteq> d_negative y) = (d_negative y \<noteq> d_negative x)" by auto
  have m: "d_man x * d_man y = d_man y * d_man x" by (rule mult.commute)
  have e: "d_exp x + d_exp y - 1074 = d_exp y + d_exp x - 1074" by simp
  show ?thesis
    unfolding d_mul_def Let_def s m e by (simp only: disj_commute [of "d_is_nan x"]
      disj_commute [of "d_is_inf x"] disj_commute [of "d_mag x = 0"])
qed

lemma d_max_zero_nonneg: "d_nonneg (d_max 0 x)"
  by (auto simp: d_max_def d_nonneg_def d_lt_def)

lemma d_min_nonneg: "d_nonneg a \<Longrightarrow> d_nonneg b \<Longrightarrow> d_nonneg (d_min a b)"
  by (simp add: d_min_def)

lemma d_of_u64_nonneg [simp]: "d_nonneg (d_of_u64 n)"
  using d_round_bounds [of "uint n" 1074] by (auto simp: d_of_u64_def intro: d_pack_nonneg)

lemma d_of_nat_nonneg [simp]: "d_nonneg (d_of_nat n)"
  using d_round_bounds [of "int n" 1074] by (auto simp: d_of_nat_def intro: d_pack_nonneg)

lemma d_literals_nonneg [simp]: "d_nonneg d_1" "d_nonneg d_10" "d_nonneg d_100" "d_nonneg d_1000"
  by (simp_all add: d_nonneg_iff d_is_nan_def d_negative_def d_mag_def d_inf_mag_def d_literals)

lemma d_literals_finite [simp]:
  "d_finite d_1" "d_finite d_tenth" "d_finite d_1em6"
  "\<not> d_negative d_1" "\<not> d_negative d_tenth" "\<not> d_negative d_1em6"
  "d_mag d_1 \<noteq> 0" "d_mag d_tenth \<noteq> 0" "d_mag d_1em6 \<noteq> 0"
  by (simp_all add: d_finite_def d_negative_def d_mag_def d_inf_mag_def d_literals)

lemma d_nonneg_gt_minus_1: "d_nonneg x \<Longrightarrow> d_gt x d_minus_1"
proof -
  have "\<not> d_is_nan d_minus_1" "d_key d_minus_1 < 0"
    by (simp_all add: d_key_def d_is_nan_def d_negative_def d_mag_def d_inf_mag_def d_minus_1_def)
  then show "d_nonneg x \<Longrightarrow> d_gt x d_minus_1" by (simp add: d_nonneg_def d_lt_def)
qed

section \<open>Amounts held and given back\<close>

text \<open>
  What an account of held amounts needs of its arithmetic: an amount added to nothing can
  be taken away again and leaves nothing.  The reservation ledger is a client of this
  interface; the binary64 operations implement it for finite amounts that are not negative.
\<close>

locale hold_arith =
  fixes add :: "'a \<Rightarrow> 'a \<Rightarrow> 'a" and sub :: "'a \<Rightarrow> 'a \<Rightarrow> 'a"
    and zero :: 'a and is_zero :: "'a \<Rightarrow> bool" and positive :: "'a \<Rightarrow> bool"
    and below :: "'a \<Rightarrow> bool" and amount :: "'a \<Rightarrow> bool"
  assumes zero_is_zero: "is_zero zero"
    and amount_zero: "is_zero a \<Longrightarrow> amount a"
    and amount_cases: "amount a \<Longrightarrow> is_zero a \<or> positive a"
    and zero_not_positive: "is_zero a \<Longrightarrow> \<not> positive a"
    and add_zero: "is_zero z \<Longrightarrow> amount a \<Longrightarrow> positive a \<Longrightarrow> add z a = a"
    and add_zeros: "is_zero z \<Longrightarrow> is_zero y \<Longrightarrow> is_zero (add z y)"
    and sub_self: "amount a \<Longrightarrow> is_zero (sub a a)"
    and sub_zero: "amount a \<Longrightarrow> positive a \<Longrightarrow> is_zero z \<Longrightarrow> sub a z = a"
    and sub_zeros: "is_zero y \<Longrightarrow> is_zero z \<Longrightarrow> is_zero (sub y z)"
    and amount_not_below: "amount a \<Longrightarrow> \<not> below a"
begin

lemma hold_release: "is_zero z \<Longrightarrow> amount a \<Longrightarrow> is_zero (sub (add z a) a)"
  using amount_cases [of a] add_zero [of z a] sub_self [of a] add_zeros [of z a] sub_zeros by metis

lemma amount_add: "is_zero z \<Longrightarrow> amount a \<Longrightarrow> amount (add z a)"
  using amount_cases [of a] add_zero [of z a] add_zeros [of z a] amount_zero by metis

end

definition d_amount :: "double \<Rightarrow> bool" where
  "d_amount x \<longleftrightarrow> d_finite x \<and> d_nonneg x"

lemma d_add_zeros: "d_mag x = 0 \<Longrightarrow> d_mag y = 0 \<Longrightarrow> d_mag (d_add x y) = 0"
  by (simp add: d_add_def Let_def d_is_nan_def d_is_inf_def d_inf_mag_eq d_signed_zero)

interpretation held: hold_arith d_add d_sub 0 "\<lambda>x. d_eq x 0" "\<lambda>x. d_gt x 0" "\<lambda>x. d_lt x 0" d_amount
proof unfold_locales
  fix a y z :: double
  show "d_eq 0 0" by (simp add: d_eq_zero_iff)
  show "d_eq a 0 \<Longrightarrow> d_amount a"
    by (auto simp: d_eq_zero_iff d_amount_def d_nonneg_iff d_finite_def d_is_nan_def d_inf_mag_eq)
  show "d_amount a \<Longrightarrow> d_eq a 0 \<or> d_gt a 0"
    by (auto simp: d_eq_zero_iff d_gt_zero_iff d_amount_def d_nonneg_iff)
  show "d_eq a 0 \<Longrightarrow> \<not> d_gt a 0" by (simp add: d_eq_zero_iff d_gt_zero_iff)
  show "d_eq z 0 \<Longrightarrow> d_amount a \<Longrightarrow> d_gt a 0 \<Longrightarrow> d_add z a = a"
    by (simp add: d_eq_zero_iff d_gt_zero_iff d_amount_def d_add_zero)
  show "d_eq z 0 \<Longrightarrow> d_eq y 0 \<Longrightarrow> d_eq (d_add z y) 0"
    by (simp add: d_eq_zero_iff d_add_zeros)
  show "d_amount a \<Longrightarrow> d_eq (d_sub a a) 0" by (simp add: d_amount_def d_sub_self d_eq_zero_iff)
  show "d_amount a \<Longrightarrow> d_gt a 0 \<Longrightarrow> d_eq z 0 \<Longrightarrow> d_sub a z = a"
    by (simp add: d_eq_zero_iff d_gt_zero_iff d_amount_def d_sub_zero)
  show "d_eq y 0 \<Longrightarrow> d_eq z 0 \<Longrightarrow> d_eq (d_sub y z) 0"
    by (simp add: d_eq_zero_iff d_sub_def d_add_zeros)
  show "d_amount a \<Longrightarrow> \<not> d_lt a 0" by (auto simp: d_lt_zero_iff d_amount_def d_nonneg_iff)
qed

end
