(* ===== verification/Fabric_Model.thy ===== *)
theory Fabric_Model
  imports Fabric_Enums Binary64
begin

text \<open>
  The data of the fabric: \<open>include/dfabric/model.hpp\<close>, \<open>graph.hpp\<close>, \<open>requirement.hpp\<close>,
  \<open>authority.hpp\<close>, \<open>composition.hpp\<close> and \<open>backend.hpp\<close>.  Each struct is a record with the
  fields of the source, in its order, under a prefix of its own (\<open>r_health\<close> is
  \<open>Resource::health\<close>, \<open>n_health\<close> is \<open>Node::health\<close>); the \<open>_default\<close> constants are the
  default member initialisers.  \<open>std::string\<close> is \<^typ>\<open>string\<close> (a list of 8-bit characters),
  \<open>std::map\<close> an ordered association list, \<open>std::set\<close> a set.
\<close>

section \<open>Resources, nodes and evidence\<close>

record Capacity =
  cp_compute_units :: double
  cp_accelerator_memory_bytes :: double
  cp_host_memory_bytes :: double
  cp_expanded_memory_bytes :: double
  cp_storage_bytes :: double
  cp_network_bandwidth_mbps :: double
  cp_network_latency_us :: double
  cp_extra :: "(string, double) omap"

definition Capacity_default :: Capacity where
  "Capacity_default =
     \<lparr>cp_compute_units = 0, cp_accelerator_memory_bytes = 0, cp_host_memory_bytes = 0,
      cp_expanded_memory_bytes = 0, cp_storage_bytes = 0, cp_network_bandwidth_mbps = 0,
      cp_network_latency_us = 0, cp_extra = []\<rparr>"

record Capability =
  cb_kind :: CapabilityKind
  cb_state :: CapabilityState
  cb_generation :: CapabilityGeneration
  cb_evidence :: EvidenceId
  cb_detail :: string

definition Capability_default :: Capability where
  "Capability_default =
     \<lparr>cb_kind = CK_UNKNOWN, cb_state = CS_UNKNOWN, cb_generation = StrongGeneration 0,
      cb_evidence = StrongId 0, cb_detail = []\<rparr>"

record CompatibilityPin =
  pin_name :: string
  pin_value :: string
  pin_generation :: CompatibilityGeneration

record Compatibility =
  ct_id :: CompatibilityId
  ct_generation :: CompatibilityGeneration
  ct_pins :: "CompatibilityPin list"

definition Compatibility_default :: Compatibility where
  "Compatibility_default =
     \<lparr>ct_id = StrongId 0, ct_generation = StrongGeneration 0, ct_pins = []\<rparr>"

record FailureDomain =
  fd_id :: FailureDomainId
  fd_type :: FailureDomainType
  fd_name :: string
  fd_synthetic :: bool
  fd_locality_coords :: "(string, double) omap"

definition FailureDomain_default :: FailureDomain where
  "FailureDomain_default =
     \<lparr>fd_id = StrongId 0, fd_type = FD_UNKNOWN, fd_name = [], fd_synthetic = False,
      fd_locality_coords = []\<rparr>"

record Evidence =
  ev_id :: EvidenceId
  ev_generation :: EvidenceGeneration
  ev_source :: EvidenceSource
  ev_state :: EvidenceState
  ev_timestamp_ms :: u64
  ev_max_age_ms :: u64
  ev_confidence :: double
  ev_provenance :: string
  ev_owner :: string
  ev_durable :: bool

definition Evidence_default :: Evidence where
  "Evidence_default =
     \<lparr>ev_id = StrongId 0, ev_generation = StrongGeneration 0, ev_source = SRC_UNKNOWN,
      ev_state = ES_PROVENANCE_UNKNOWN, ev_timestamp_ms = 0, ev_max_age_ms = 0,
      ev_confidence = 0, ev_provenance = [], ev_owner = [], ev_durable = False\<rparr>"

definition IsCurrent :: "Evidence \<Rightarrow> bool" where
  "IsCurrent e =
     (if ev_state e = ES_STALE \<or> ev_state e = ES_REVALIDATION_REQUIRED then False
      else if ev_max_age_ms e = 0 then False
      else True)"

record Locality =
  lo_coords :: "double list"
  lo_tags :: "(string, double) omap"

definition Locality_default :: Locality where
  "Locality_default = \<lparr>lo_coords = [], lo_tags = []\<rparr>"

record Resource =
  r_id :: ResourceId
  r_generation :: ResourceGeneration
  r_resource_class :: ResourceClass
  r_node_id :: NodeId
  r_provider :: string
  r_capabilities :: "Capability list"
  r_compatibility :: "Compatibility list"
  r_capacity :: Capacity
  r_health :: ResourceHealth
  r_readiness :: Readiness
  r_reachability :: Reachability
  r_locality :: Locality
  r_failure_domain :: FailureDomain
  r_evidence :: Evidence
  r_authority_owner :: string
  r_synthetic :: bool

definition Resource_default :: Resource where
  "Resource_default =
     \<lparr>r_id = StrongId 0, r_generation = StrongGeneration 0, r_resource_class = RC_UNKNOWN,
      r_node_id = StrongId 0, r_provider = [], r_capabilities = [], r_compatibility = [],
      r_capacity = Capacity_default, r_health = RH_UNKNOWN, r_readiness = RD_UNKNOWN,
      r_reachability = RB_UNKNOWN, r_locality = Locality_default,
      r_failure_domain = FailureDomain_default, r_evidence = Evidence_default,
      r_authority_owner = [], r_synthetic = False\<rparr>"

record Node =
  n_id :: NodeId
  n_generation :: NodeGeneration
  n_hostname :: string
  n_provider :: string
  n_backend :: BackendKind
  n_inventory :: "ResourceId list"
  n_failure_domain :: FailureDomain
  n_locality :: Locality
  n_reachability :: Reachability
  n_health :: ResourceHealth
  n_worker_owner :: string
  n_worker_boot :: WorkerBootId
  n_evidence_freshness_ms :: u64
  n_lifecycle :: NodeLifecycle
  n_synthetic :: bool

definition Node_default :: Node where
  "Node_default =
     \<lparr>n_id = StrongId 0, n_generation = StrongGeneration 0, n_hostname = [], n_provider = [],
      n_backend = BK_UNKNOWN, n_inventory = [], n_failure_domain = FailureDomain_default,
      n_locality = Locality_default, n_reachability = RB_UNKNOWN, n_health = RH_UNKNOWN,
      n_worker_owner = [], n_worker_boot = StrongId 0, n_evidence_freshness_ms = 0,
      n_lifecycle = NL_DISCOVERED, n_synthetic = False\<rparr>"

record PathRequirement =
  pr_from :: NodeId
  pr_to :: NodeId
  pr_min_bandwidth_mbps :: double
  pr_max_latency_us :: double
  pr_required :: bool
  pr_direct :: bool
  pr_protocol :: string

definition PathRequirement_default :: PathRequirement where
  "PathRequirement_default =
     \<lparr>pr_from = StrongId 0, pr_to = StrongId 0, pr_min_bandwidth_mbps = 0, pr_max_latency_us = 0,
      pr_required = False, pr_direct = False, pr_protocol = []\<rparr>"

record PathEvidence =
  pe_id :: PathEvidenceId
  pe_generation :: PathGeneration
  pe_requirement :: PathRequirement
  pe_available :: bool
  pe_bandwidth_mbps :: double
  pe_latency_us :: double
  pe_verified :: bool
  pe_provider :: string
  pe_source :: string
  pe_evidence :: Evidence

definition PathEvidence_default :: PathEvidence where
  "PathEvidence_default =
     \<lparr>pe_id = StrongId 0, pe_generation = StrongGeneration 0,
      pe_requirement = PathRequirement_default, pe_available = False, pe_bandwidth_mbps = 0,
      pe_latency_us = 0, pe_verified = False, pe_provider = [], pe_source = [],
      pe_evidence = Evidence_default\<rparr>"

section \<open>Composition graph\<close>

record GraphEdge =
  e_from :: ResourceId
  e_to :: ResourceId
  e_kind :: GraphEdgeKind
  e_required :: bool
  e_min_bandwidth_mbps :: double
  e_max_latency_us :: double
  e_protocol :: string
  e_compat_facet :: string

definition GraphEdge_default :: GraphEdge where
  "GraphEdge_default =
     \<lparr>e_from = StrongId 0, e_to = StrongId 0, e_kind = GE_REACHABILITY, e_required = True,
      e_min_bandwidth_mbps = 0, e_max_latency_us = 0, e_protocol = [], e_compat_facet = []\<rparr>"

record ResourceGraph =
  g_vertices :: "ResourceId list"
  g_edges :: "GraphEdge list"

definition ResourceGraph_default :: ResourceGraph where
  "ResourceGraph_default = \<lparr>g_vertices = [], g_edges = []\<rparr>"

definition HasVertex :: "ResourceGraph \<Rightarrow> ResourceId \<Rightarrow> bool" where
  "HasVertex g i \<longleftrightarrow> i \<in> set (g_vertices g)"

definition AddVertex :: "ResourceGraph \<Rightarrow> ResourceId \<Rightarrow> ResourceGraph" where
  "AddVertex g i = (if HasVertex g i then g else g\<lparr>g_vertices := g_vertices g @ [i]\<rparr>)"

definition AddEdge :: "ResourceGraph \<Rightarrow> GraphEdge \<Rightarrow> ResourceGraph" where
  "AddEdge g e = g\<lparr>g_edges := g_edges g @ [e]\<rparr>"

section \<open>Requirements\<close>

record FailureDomainConstraint =
  fc_topology :: TopologyConstraint
  fc_max_shared_risk :: u32
  fc_allowed_types :: "FailureDomainType list"

definition FailureDomainConstraint_default :: FailureDomainConstraint where
  "FailureDomainConstraint_default =
     \<lparr>fc_topology = TC_NONE, fc_max_shared_risk = 0, fc_allowed_types = []\<rparr>"

record CompositionRequest =
  rq_compute_units :: u64
  rq_accelerator_count :: u32
  rq_accelerator_architectures :: "string list"
  rq_accelerator_memory_bytes :: double
  rq_host_memory_bytes :: double
  rq_expanded_memory_bytes :: double
  rq_storage_bytes :: double
  rq_network_endpoint_count :: u32
  rq_min_bandwidth_mbps :: double
  rq_max_latency_us :: double
  rq_mandatory_classes :: "ResourceClass set"
  rq_optional_classes :: "ResourceClass set"
  rq_require_direct_path :: bool
  rq_require_coherence :: bool
  rq_require_persistence :: bool
  rq_require_isolation :: bool
  rq_staging_allowance :: bool
  rq_ignore_reachability :: bool
  rq_compatibility :: CompatibilityId
  rq_failure_domain :: FailureDomainConstraint
  rq_policy :: PolicyId
  rq_policy_generation :: PolicyGeneration
  rq_consumer :: ConsumerId
  rq_consumer_generation :: ConsumerGeneration
  rq_constraints :: "(string, double) omap"

definition CompositionRequest_default :: CompositionRequest where
  "CompositionRequest_default =
     \<lparr>rq_compute_units = 0, rq_accelerator_count = 0, rq_accelerator_architectures = [],
      rq_accelerator_memory_bytes = 0, rq_host_memory_bytes = 0, rq_expanded_memory_bytes = 0,
      rq_storage_bytes = 0, rq_network_endpoint_count = 0, rq_min_bandwidth_mbps = 0,
      rq_max_latency_us = 0, rq_mandatory_classes = {}, rq_optional_classes = {},
      rq_require_direct_path = False, rq_require_coherence = False,
      rq_require_persistence = False, rq_require_isolation = False,
      rq_staging_allowance = False, rq_ignore_reachability = False,
      rq_compatibility = StrongId 0, rq_failure_domain = FailureDomainConstraint_default,
      rq_policy = StrongId 0, rq_policy_generation = StrongGeneration 0,
      rq_consumer = StrongId 0, rq_consumer_generation = StrongGeneration 0,
      rq_constraints = []\<rparr>"

section \<open>Authority, plans, compositions and reservations\<close>

record AuthorityTuple =
  au_coordinator_epoch :: CoordinatorEpoch
  au_worker_boots :: "WorkerBootId list"
  au_node_generations :: "NodeGeneration list"
  au_resource_generations :: "ResourceGeneration list"
  au_path_generations :: "PathGeneration list"
  au_capability_generations :: "CapabilityGeneration list"
  au_compatibility_generations :: "CompatibilityGeneration list"
  au_policy_generation :: PolicyGeneration
  au_evidence_generations :: "EvidenceGeneration list"
  au_reservation_generations :: "ReservationGeneration list"
  au_composition_generation :: CompositionGeneration

definition AuthorityTuple_default :: AuthorityTuple where
  "AuthorityTuple_default =
     \<lparr>au_coordinator_epoch = StrongGeneration 0, au_worker_boots = [], au_node_generations = [],
      au_resource_generations = [], au_path_generations = [], au_capability_generations = [],
      au_compatibility_generations = [], au_policy_generation = StrongGeneration 0,
      au_evidence_generations = [], au_reservation_generations = [],
      au_composition_generation = StrongGeneration 0\<rparr>"

record RankingFactor =
  rf_name :: string
  rf_weight :: double
  rf_value :: double
  rf_detail :: string

record RankScore =
  rk_total :: double
  rk_factors :: "RankingFactor list"

definition RankScore_default :: RankScore where
  "RankScore_default = \<lparr>rk_total = 0, rk_factors = []\<rparr>"

record CompositionPlan =
  pl_id :: CompositionId
  pl_generation :: CompositionGeneration
  pl_graph :: ResourceGraph
  pl_nodes :: "NodeId list"
  pl_request :: CompositionRequest
  pl_rank :: RankScore
  pl_authority :: AuthorityTuple
  pl_lifecycle :: CompositionLifecycle
  pl_paths :: "PathEvidence list"

definition CompositionPlan_default :: CompositionPlan where
  "CompositionPlan_default =
     \<lparr>pl_id = StrongId 0, pl_generation = StrongGeneration 0, pl_graph = ResourceGraph_default,
      pl_nodes = [], pl_request = CompositionRequest_default, pl_rank = RankScore_default,
      pl_authority = AuthorityTuple_default, pl_lifecycle = CL_PLANNED, pl_paths = []\<rparr>"

record Composition =
  c_id :: CompositionId
  c_generation :: CompositionGeneration
  c_resource_set_id :: ResourceSetId
  c_resource_set_generation :: ResourceSetGeneration
  c_graph :: ResourceGraph
  c_nodes :: "NodeId list"
  c_request :: CompositionRequest
  c_authority :: AuthorityTuple
  c_lifecycle :: CompositionLifecycle
  c_rank :: RankScore
  c_reservation :: ReservationId
  c_paths :: "PathEvidence list"
  c_outcome :: CompositionOutcome
  c_explanation :: string

definition Composition_default :: Composition where
  "Composition_default =
     \<lparr>c_id = StrongId 0, c_generation = StrongGeneration 0, c_resource_set_id = StrongId 0,
      c_resource_set_generation = StrongGeneration 0, c_graph = ResourceGraph_default,
      c_nodes = [], c_request = CompositionRequest_default, c_authority = AuthorityTuple_default,
      c_lifecycle = CL_REQUESTED, c_rank = RankScore_default, c_reservation = StrongId 0,
      c_paths = [], c_outcome = CO_OUTCOME_UNKNOWN, c_explanation = []\<rparr>"

record ReservationItem =
  it_resource :: ResourceId
  it_state :: ReservationState
  it_reserved_amount :: double

record Reservation =
  rv_id :: ReservationId
  rv_generation :: ReservationGeneration
  rv_composition :: CompositionId
  rv_items :: "ReservationItem list"
  rv_state :: ReservationState

definition Reservation_default :: Reservation where
  "Reservation_default =
     \<lparr>rv_id = StrongId 0, rv_generation = StrongGeneration 0, rv_composition = StrongId 0,
      rv_items = [], rv_state = RS_NONE\<rparr>"

section \<open>Backends\<close>

text \<open>
  The virtual interface \<open>Backend\<close>: what the engine sees of a backend at one call.  The
  backends of the repository answer discovery and path queries from their current state
  without changing it, so an answer is a value and a path resolver a function; a change of
  a backend's state between two calls of the engine is a change of this record.
\<close>

record Backend =
  bk_kind :: BackendKind
  bk_name :: string
  bk_DiscoverNodes :: "Node list"
  bk_DiscoverResources :: "Resource list"
  bk_ResolvePath :: "PathRequirement \<Rightarrow> PathEvidence option"
  bk_SupportsRealExecution :: bool

section \<open>Laws\<close>

lemma IsCurrent_iff:
  "IsCurrent e \<longleftrightarrow>
     ev_state e \<noteq> ES_STALE \<and> ev_state e \<noteq> ES_REVALIDATION_REQUIRED \<and> ev_max_age_ms e \<noteq> 0"
  by (simp add: IsCurrent_def)

lemma AddVertex_vertices:
  "g_vertices (AddVertex g i) = (if i \<in> set (g_vertices g) then g_vertices g else g_vertices g @ [i])"
  by (simp add: AddVertex_def HasVertex_def)

lemma AddVertex_edges [simp]: "g_edges (AddVertex g i) = g_edges g"
  by (simp add: AddVertex_def)

lemma AddEdge_fields [simp]:
  "g_vertices (AddEdge g e) = g_vertices g" "g_edges (AddEdge g e) = g_edges g @ [e]"
  by (simp_all add: AddEdge_def)

lemma AddVertex_distinct: "distinct (g_vertices g) \<Longrightarrow> distinct (g_vertices (AddVertex g i))"
  by (simp add: AddVertex_vertices)

lemma AddVertex_set [simp]: "set (g_vertices (AddVertex g i)) = insert i (set (g_vertices g))"
  by (auto simp: AddVertex_vertices)

end
