(* ===== verification/Fabric_Wire.thy ===== *)
theory Fabric_Wire
  imports Fabric_Bytes Fabric_Model
begin

text \<open>
  The byte readers and writers of \<open>include/dfabric/codec.hpp\<close> (\<open>WireWriter\<close>, \<open>WireReader\<close>) and
  of \<open>src/dfabric/persistence.cpp\<close> (\<open>Writer\<close>, \<open>Reader\<close>), which are the same up to the text of the
  exception for an over-long string.

  Writing is a sequence of chunks, of which one may throw.  A reader is a cursor with a flag
  \<open>ok\<close> that the first read past the end clears for good; such a read returns zero.  A decoder
  fills an object field by field and may return \<open>false\<close> in the middle, with the object partly
  filled: it is a function of the object and the reader, built from the few forms of statement
  the decoders use.  The relation \<open>codes\<close> says that a decoder reads back what an encoder wrote
  and that it never accepts a truncated input; it is proved once for each form of statement.
\<close>

section \<open>Writing\<close>

type_synonym encoding = "string + bytes"

definition kMaxLen :: u32 where "kMaxLen = push_bit 15 1"
definition kMaxCount :: u32 where "kMaxCount = push_bit 20 1"

fun emit :: "encoding list \<Rightarrow> encoding" where
  "emit [] = Inr []"
| "emit (Inl what # es) = Inl what"
| "emit (Inr b # es) = (case emit es of Inl what \<Rightarrow> Inl what | Inr bs \<Rightarrow> Inr (b @ bs))"

definition put_U8 :: "u8 \<Rightarrow> encoding" where "put_U8 v = Inr [v]"
definition put_U16 :: "16 word \<Rightarrow> encoding" where "put_U16 v = Inr [ucast v, ucast (drop_bit 8 v)]"
definition put_U32 :: "u32 \<Rightarrow> encoding" where "put_U32 v = Inr (PutU32 v)"
definition put_U64 :: "u64 \<Rightarrow> encoding" where "put_U64 v = Inr (PutU64 v)"
definition put_Dbl :: "double \<Rightarrow> encoding" where "put_Dbl d = put_U64 d"

definition put_Str :: "string \<Rightarrow> string \<Rightarrow> encoding" where
  "put_Str what s =
     (if unat kMaxLen < length s then Inl what
      else Inr (PutU32 (word_of_nat (length s)) @ map of_char s))"

definition put_bool :: "bool \<Rightarrow> encoding" where "put_bool b = put_U8 (if b then 1 else 0)"

definition put_vector :: "('a \<Rightarrow> encoding) \<Rightarrow> 'a list \<Rightarrow> encoding" where
  "put_vector f xs = emit (put_U32 (word_of_nat (length xs)) # map f xs)"

section \<open>Reading\<close>

record Reader =
  rd_data :: bytes
  rd_pos :: nat
  rd_ok :: bool

definition MakeReader :: "bytes \<Rightarrow> Reader" where
  "MakeReader v = \<lparr>rd_data = v, rd_pos = 0, rd_ok = True\<rparr>"

definition Need :: "nat \<Rightarrow> Reader \<Rightarrow> bool" where
  "Need n r \<longleftrightarrow> rd_ok r \<and> n \<le> length (rd_data r) - rd_pos r"

abbreviation advance :: "nat \<Rightarrow> Reader \<Rightarrow> Reader" where
  "advance n r \<equiv> r\<lparr>rd_pos := rd_pos r + n\<rparr>"

abbreviation broken :: "Reader \<Rightarrow> Reader" where
  "broken r \<equiv> r\<lparr>rd_ok := False\<rparr>"

definition get_U8 :: "Reader \<Rightarrow> u8 \<times> Reader" where
  "get_U8 r = (if \<not> Need 1 r then (0, broken r) else (rd_data r ! rd_pos r, advance 1 r))"

definition get_U16 :: "Reader \<Rightarrow> 16 word \<times> Reader" where
  "get_U16 r =
     (if \<not> Need 2 r then (0, broken r)
      else (or (ucast (rd_data r ! rd_pos r)) (push_bit 8 (ucast (rd_data r ! (rd_pos r + 1)))), advance 2 r))"

definition get_U32 :: "Reader \<Rightarrow> u32 \<times> Reader" where
  "get_U32 r = (if \<not> Need 4 r then (0, broken r) else (GetU32 (rd_data r) (rd_pos r), advance 4 r))"

definition get_U64 :: "Reader \<Rightarrow> u64 \<times> Reader" where
  "get_U64 r = (if \<not> Need 8 r then (0, broken r) else (GetU64 (rd_data r) (rd_pos r), advance 8 r))"

definition get_Dbl :: "Reader \<Rightarrow> double \<times> Reader" where
  "get_Dbl r = get_U64 r"

definition get_Str :: "Reader \<Rightarrow> string \<times> Reader" where
  "get_Str r =
     (let (n, r1) = get_U32 r in
      if \<not> rd_ok r1 \<or> kMaxLen < n \<or> \<not> Need (unat n) r1 then ([], broken r1)
      else (map (\<lambda>b. char_of (unat b)) (take (unat n) (drop (rd_pos r1) (rd_data r1))), advance (unat n) r1))"

definition get_bool :: "Reader \<Rightarrow> bool \<times> Reader" where
  "get_bool r = (let (v, r1) = get_U8 r in (v \<noteq> 0, r1))"

definition Skip :: "nat \<Rightarrow> Reader \<Rightarrow> Reader" where
  "Skip n r = (if \<not> Need n r then broken r else advance n r)"

section \<open>The statements of a decoder\<close>

text \<open>
  A statement takes the object and the reader to a verdict, the object and the reader; the
  verdict \<open>False\<close> is \<open>return false\<close>.
\<close>

type_synonym 'a stmt = "'a \<Rightarrow> Reader \<Rightarrow> bool \<times> 'a \<times> Reader"

fun run_stmts :: "'a stmt list \<Rightarrow> 'a stmt" where
  "run_stmts [] x r = (True, x, r)"
| "run_stmts (f # fs) x r = (let (b, x', r') = f x r in if b then run_stmts fs x' r' else (False, x', r'))"

text \<open>\<open>return r.ok()\<close>\<close>

definition return_ok :: "'a stmt" where
  "return_ok x r = (rd_ok r, x, r)"

text \<open>\<open>x.field = r.Get()\<close>\<close>

definition assign :: "(Reader \<Rightarrow> 'v \<times> Reader) \<Rightarrow> ('v \<Rightarrow> 'a \<Rightarrow> 'a) \<Rightarrow> 'a stmt" where
  "assign get put x r = (let (v, r') = get r in (True, put v x, r'))"

text \<open>\<open>v = r.U32(); if (!ValidEnum<E>(v)) return false; x.field = static_cast<E>(v)\<close>\<close>

definition assign_enum :: "(u32 \<Rightarrow> 'e option) \<Rightarrow> ('e \<Rightarrow> 'a \<Rightarrow> 'a) \<Rightarrow> 'a stmt" where
  "assign_enum cast put x r =
     (let (v, r') = get_U32 r in case cast v of None \<Rightarrow> (False, x, r') | Some e \<Rightarrow> (True, put e x, r'))"

text \<open>\<open>if (!Decode(r, x.field)) return false\<close>\<close>

definition decode_field :: "'b stmt \<Rightarrow> ('a \<Rightarrow> 'b) \<Rightarrow> ('b \<Rightarrow> 'a \<Rightarrow> 'a) \<Rightarrow> 'a stmt" where
  "decode_field dec field put x r = (let (b, y, r') = dec (field x) r in (b, put y x, r'))"

text \<open>\<open>{ E e; if (!Decode(r, e)) return false; push(e); }\<close>\<close>

definition decode_element :: "'b \<Rightarrow> 'b stmt \<Rightarrow> ('b \<Rightarrow> 'a \<Rightarrow> 'a) \<Rightarrow> 'a stmt" where
  "decode_element fresh dec push x r =
     (let (b, y, r') = dec fresh r in if b then (True, push y x, r') else (False, x, r'))"

text \<open>\<open>n = r.U32(); if (n > kMaxCount) return false; for (i = 0; i < n; ++i) body\<close>\<close>

fun repeat_stmt :: "nat \<Rightarrow> 'a stmt \<Rightarrow> 'a stmt" where
  "repeat_stmt 0 body x r = (True, x, r)"
| "repeat_stmt (Suc n) body x r =
     (let (b, x', r') = body x r in if b then repeat_stmt n body x' r' else (False, x', r'))"

definition for_count :: "'a stmt \<Rightarrow> 'a stmt" where
  "for_count body x r =
     (let (n, r') = get_U32 r in if kMaxCount < n then (False, x, r') else repeat_stmt (unat n) body x r')"

text \<open>\<open>x.field.push_back(v)\<close>, \<open>x.field[k] = v\<close> and \<open>x.field.insert(v)\<close>, for the update function of a field.\<close>

definition push_back :: "(('v list \<Rightarrow> 'v list) \<Rightarrow> 'a \<Rightarrow> 'a) \<Rightarrow> 'v \<Rightarrow> 'a \<Rightarrow> 'a" where
  "push_back field v = field (\<lambda>l. l @ [v])"

definition set_entry :: "(((string, double) omap \<Rightarrow> (string, double) omap) \<Rightarrow> 'a \<Rightarrow> 'a) \<Rightarrow> string \<times> double \<Rightarrow> 'a \<Rightarrow> 'a" where
  "set_entry field e = field (om_put (fst e) (snd e))"

definition insert_into :: "(('v set \<Rightarrow> 'v set) \<Rightarrow> 'a \<Rightarrow> 'a) \<Rightarrow> 'v \<Rightarrow> 'a \<Rightarrow> 'a" where
  "insert_into field v = field (insert v)"

text \<open>\<open>k = r.Str(); v = r.Dbl()\<close>, the two reads before a map entry is assigned.\<close>

definition get_entry :: "Reader \<Rightarrow> (string \<times> double) \<times> Reader" where
  "get_entry r = (let (k, r1) = get_Str r; (v, r2) = get_Dbl r1 in ((k, v), r2))"

definition put_entry :: "string \<Rightarrow> string \<times> double \<Rightarrow> encoding" where
  "put_entry what e = emit [put_Str what (fst e), put_Dbl (snd e)]"

section \<open>What a decoder promises\<close>

definition unread :: "Reader \<Rightarrow> bytes" where
  "unread r = drop (rd_pos r) (rd_data r)"

text \<open>A reader that has failed or that has only a proper part of the bytes left.\<close>

definition short_of :: "bytes \<Rightarrow> Reader \<Rightarrow> bool" where
  "short_of bs r \<longleftrightarrow> \<not> rd_ok r \<or> (\<exists>t. t \<noteq> [] \<and> unread r @ t = bs)"

definition gets :: "encoding \<Rightarrow> (Reader \<Rightarrow> 'v \<times> Reader) \<Rightarrow> 'v \<Rightarrow> bool" where
  "gets e get v \<longleftrightarrow> (\<exists>bs. e = Inr bs \<and>
     (\<forall>r rest. rd_ok r \<longrightarrow> unread r = bs @ rest \<longrightarrow> get r = (v, advance (length bs) r)) \<and>
     (\<forall>r. short_of bs r \<longrightarrow> \<not> rd_ok (snd (get r))))"

definition codes :: "encoding \<Rightarrow> 'a stmt \<Rightarrow> ('a \<Rightarrow> 'a) \<Rightarrow> bool" where
  "codes e f u \<longleftrightarrow> (\<exists>bs. e = Inr bs \<and>
     (\<forall>x r rest. rd_ok r \<longrightarrow> unread r = bs @ rest \<longrightarrow> f x r = (True, u x, advance (length bs) r)) \<and>
     (\<forall>x r y r'. short_of bs r \<longrightarrow> f x r = (True, y, r') \<longrightarrow> \<not> rd_ok r'))"

lemma unread_advance [simp]: "unread (advance n r) = drop n (unread r)"
  by (simp add: unread_def add.commute)

lemma Need_iff: "Need n r \<longleftrightarrow> rd_ok r \<and> n \<le> length (unread r)"
  by (simp add: Need_def unread_def)

lemma short_of_broken: "\<not> rd_ok r \<Longrightarrow> short_of bs r"
  by (simp add: short_of_def)

lemma short_of_length: "short_of bs r \<Longrightarrow> rd_ok r \<Longrightarrow> length (unread r) < length bs"
  by (auto simp: short_of_def)

lemma short_of_append:
  assumes "short_of (bs @ cs) r"
  shows "short_of bs r \<or> (rd_ok r \<and> (\<exists>rest. unread r = bs @ rest) \<and> short_of cs (advance (length bs) r))"
proof (cases "rd_ok r")
  case True
  with assms obtain t where t: "t \<noteq> []" "unread r @ t = bs @ cs" by (auto simp: short_of_def)
  then obtain us where "unread r @ us = bs \<and> t = us @ cs \<or> unread r = bs @ us \<and> us @ t = cs"
    by (auto simp: append_eq_append_conv2)
  then show ?thesis
  proof
    assume "unread r @ us = bs \<and> t = us @ cs"
    then show ?thesis using True t by (cases "us = []") (auto simp: short_of_def)
  next
    assume "unread r = bs @ us \<and> us @ t = cs"
    then show ?thesis using True t by (auto simp: short_of_def)
  qed
qed (simp add: short_of_broken)

lemma getsI:
  assumes "e = Inr bs"
    and "\<And>r rest. rd_ok r \<Longrightarrow> unread r = bs @ rest \<Longrightarrow> get r = (v, advance (length bs) r)"
    and "\<And>r. short_of bs r \<Longrightarrow> \<not> rd_ok (snd (get r))"
  shows "gets e get v"
  using assms by (auto simp: gets_def)

lemma codesI:
  assumes "e = Inr bs"
    and "\<And>x r rest. rd_ok r \<Longrightarrow> unread r = bs @ rest \<Longrightarrow> f x r = (True, u x, advance (length bs) r)"
    and "\<And>x r y r'. short_of bs r \<Longrightarrow> f x r = (True, y, r') \<Longrightarrow> \<not> rd_ok r'"
  shows "codes e f u"
  using assms unfolding codes_def by auto

lemma nth_unread: "n < length (unread r) \<Longrightarrow> rd_data r ! (rd_pos r + n) = unread r ! n"
  by (simp add: unread_def)

lemma GetU32_unread: "4 \<le> length (unread r) \<Longrightarrow> GetU32 (rd_data r) (rd_pos r) = GetU32 (unread r) 0"
  unfolding GetU32_def by (rule foldl_upt_cong) (simp add: nth_unread)

lemma GetU64_unread: "8 \<le> length (unread r) \<Longrightarrow> GetU64 (rd_data r) (rd_pos r) = GetU64 (unread r) 0"
  unfolding GetU64_def by (rule foldl_upt_cong) (simp add: nth_unread)

lemma gets_U8: "gets (put_U8 v) get_U8 v"
proof (rule getsI [where bs = "[v]"])
  show "get_U8 r = (v, advance (length [v]) r)" if "rd_ok r" "unread r = [v] @ rest" for r rest
    using that nth_unread [of 0 r] by (simp add: get_U8_def Need_iff)
qed (auto simp: put_U8_def get_U8_def Need_iff dest: short_of_length)

lemma gets_U32: "gets (put_U32 v) get_U32 v"
proof (rule getsI [where bs = "PutU32 v"])
  show "get_U32 r = (v, advance (length (PutU32 v)) r)" if "rd_ok r" "unread r = PutU32 v @ rest" for r rest
    using that GetU32_Put [of "[]" v rest] by (simp add: get_U32_def Need_iff GetU32_unread)
qed (auto simp: put_U32_def get_U32_def Need_iff dest: short_of_length)

lemma gets_U64: "gets (put_U64 v) get_U64 v"
proof (rule getsI [where bs = "PutU64 v"])
  show "get_U64 r = (v, advance (length (PutU64 v)) r)" if "rd_ok r" "unread r = PutU64 v @ rest" for r rest
    using that GetU64_Put [of "[]" v rest] by (simp add: get_U64_def Need_iff GetU64_unread)
qed (auto simp: put_U64_def get_U64_def Need_iff dest: short_of_length)

lemma gets_Dbl: "gets (put_Dbl v) get_Dbl v"
  using gets_U64 [of v] by (simp add: put_Dbl_def get_Dbl_def [abs_def])

lemma getsD:
  assumes "gets e get v" "e = Inr bs"
  shows "rd_ok r \<Longrightarrow> unread r = bs @ rest \<Longrightarrow> get r = (v, advance (length bs) r)"
    "short_of bs r \<Longrightarrow> \<not> rd_ok (snd (get r))"
  using assms by (auto simp: gets_def)

lemma codesD:
  assumes "codes e f u" "e = Inr bs"
  shows "rd_ok r \<Longrightarrow> unread r = bs @ rest \<Longrightarrow> f x r = (True, u x, advance (length bs) r)"
    "short_of bs r \<Longrightarrow> f x r = (True, y, r') \<Longrightarrow> \<not> rd_ok r'"
  using assms unfolding codes_def by auto

lemma codes_Inr: "codes e f u \<Longrightarrow> \<exists>bs. e = Inr bs"
  by (auto simp: codes_def)

lemma gets_Inr: "gets e get v \<Longrightarrow> \<exists>bs. e = Inr bs"
  by (auto simp: gets_def)

lemma gets_map: "gets e get v \<Longrightarrow> gets e (\<lambda>r. let (a, r1) = get r in (h a, r1)) (h v)"
  by (auto simp: gets_def Let_def case_prod_beta)

lemma gets_pair:
  assumes "gets e1 get1 v1" "gets e2 get2 v2"
  shows "gets (emit [e1, e2]) (\<lambda>r. let (a, r1) = get1 r; (b, r2) = get2 r1 in ((a, b), r2)) (v1, v2)"
    (is "gets _ ?get _")
proof -
  obtain b1 b2 where b1: "e1 = Inr b1" and b2: "e2 = Inr b2"
    using assms by (auto simp: gets_def)
  note r1 = getsD(1) [OF assms(1) b1] and s1 = getsD(2) [OF assms(1) b1]
    and r2 = getsD(1) [OF assms(2) b2] and s2 = getsD(2) [OF assms(2) b2]
  have snd_get: "snd (?get r) = snd (get2 (snd (get1 r)))" for r by (simp add: Let_def split: prod.split)
  show ?thesis
  proof (rule getsI [where bs = "b1 @ b2"])
    show "?get r = ((v1, v2), advance (length (b1 @ b2)) r)" if "rd_ok r" "unread r = (b1 @ b2) @ rest" for r rest
      using that r1 [of r "b2 @ rest"] r2 [of "advance (length b1) r" rest] by (simp add: add.assoc)
    show "\<not> rd_ok (snd (?get r))" if short: "short_of (b1 @ b2) r" for r
    proof (cases "short_of b1 r")
      case True
      then show ?thesis unfolding snd_get by (rule s2 [OF short_of_broken [OF s1]])
    next
      case False
      then show ?thesis using short_of_append [OF short] r1 [of r] s2 unfolding snd_get by fastforce
    qed
  qed (simp add: b1 b2)
qed

lemma gets_bool: "gets (put_bool b) get_bool b"
  using gets_map [OF gets_U8, of "if b then 1 else 0" "\<lambda>v. v \<noteq> 0"]
  by (simp add: put_bool_def get_bool_def [abs_def] split: if_splits)

lemma char_of_byte [simp]: "char_of (unat (of_char c :: u8)) = c"
proof -
  have "(of_char c :: u8) = word_of_nat (of_char c)" by (simp add: of_nat_of_char)
  then have "unat (of_char c :: u8) = of_char c" by (simp add: unsigned_of_nat take_bit_nat_eq_self)
  then show ?thesis by simp
qed

lemma kMaxLen_eq: "unat kMaxLen = 32768" by (simp add: kMaxLen_def push_bit_eq_mult)
lemma kMaxCount_eq: "unat kMaxCount = 1048576" by (simp add: kMaxCount_def push_bit_eq_mult)

lemma short_count: "n \<le> 1048576 \<Longrightarrow> unat (word_of_nat n :: u32) = n"
  by (simp add: unsigned_of_nat take_bit_nat_eq_self)

lemma gets_Str:
  assumes "length s \<le> 32768"
  shows "gets (put_Str what s) get_Str s"
proof -
  let ?n = "word_of_nat (length s) :: u32" and ?c = "map of_char s :: bytes"
  have n: "unat ?n = length s" "\<not> kMaxLen < ?n"
    using assms short_count [of "length s"] by (simp_all add: word_less_nat_alt kMaxLen_eq)
  obtain bn where bn: "put_U32 ?n = Inr bn" using gets_Inr [OF gets_U32] by blast
  note rn = getsD(1) [OF gets_U32 bn] and sn = getsD(2) [OF gets_U32 bn]
  show ?thesis
  proof (rule getsI [where bs = "bn @ ?c"])
    show "put_Str what s = Inr (bn @ ?c)" using assms bn by (simp add: put_Str_def put_U32_def kMaxLen_eq)
    show "get_Str r = (s, advance (length (bn @ ?c)) r)" if "rd_ok r" "unread r = (bn @ ?c) @ rest" for r rest
    proof -
      let ?r = "advance (length bn) r"
      have c: "unread ?r = ?c @ rest" using that by simp
      then have "Need (length s) ?r" using that by (simp add: Need_iff)
      moreover have "take (length s) (drop (rd_pos ?r) (rd_data ?r)) = ?c" using c by (simp add: unread_def)
      ultimately show ?thesis using that rn [of r "?c @ rest"] n by (simp add: get_Str_def comp_def add.assoc)
    qed
    show "\<not> rd_ok (snd (get_Str r))" if short: "short_of (bn @ ?c) r" for r
    proof (cases "short_of bn r")
      case True
      then show ?thesis using sn [of r] by (auto simp: get_Str_def Let_def split: prod.split)
    next
      case False
      then obtain rest where "rd_ok r" "unread r = bn @ rest" "short_of ?c (advance (length bn) r)"
        using short_of_append [OF short] by blast
      then show ?thesis using rn [of r rest] n short_of_length [of ?c "advance (length bn) r"]
        by (simp add: get_Str_def Need_iff)
    qed
  qed
qed

lemma gets_entry: "length (fst e) \<le> 32768 \<Longrightarrow> gets (put_entry what e) get_entry e"
  using gets_pair [OF gets_Str [of "fst e" what] gets_Dbl [of "snd e"]]
  by (simp add: put_entry_def get_entry_def [abs_def])


section \<open>The statements keep the promise\<close>

lemma codes_Nil: "codes (emit []) (run_stmts []) (\<lambda>x. x)"
  by (rule codesI [where bs = "[]"]) (auto simp: short_of_def)

lemma codes_seq:
  assumes f: "codes e f u" and g: "codes d g v"
  shows "codes (emit [e, d]) (\<lambda>x r. let (b, x', r') = f x r in if b then g x' r' else (False, x', r')) (\<lambda>x. v (u x))"
    (is "codes _ ?run _")
proof -
  obtain b1 b2 where b: "e = Inr b1" "d = Inr b2" using codes_Inr [OF f] codes_Inr [OF g] by blast
  note r1 = codesD(1) [OF f b(1)] and s1 = codesD(2) [OF f b(1)]
    and r2 = codesD(1) [OF g b(2)] and s2 = codesD(2) [OF g b(2)]
  show ?thesis
  proof (rule codesI [where bs = "b1 @ b2"])
    show "?run x r = (True, v (u x), advance (length (b1 @ b2)) r)"
      if "rd_ok r" "unread r = (b1 @ b2) @ rest" for x r rest
      using that r1 [of r "b2 @ rest" x] r2 [of "advance (length b1) r" rest "u x"] by (simp add: add.assoc)
    show "\<not> rd_ok r'" if short: "short_of (b1 @ b2) r" and run: "?run x r = (True, y, r')" for x r y r'
    proof -
      obtain x1 r1' where step: "f x r = (True, x1, r1')" and rest: "g x1 r1' = (True, y, r')"
        using run by (auto split: prod.splits if_splits)
      have "short_of b2 r1'"
        using short_of_append [OF short] s1 [OF _ step] r1 [of r _ x] step by (auto intro: short_of_broken)
      then show ?thesis using rest by (rule s2)
    qed
  qed (simp add: b)
qed

lemma emit_defined: "(\<exists>bs. emit es = Inr bs) \<longleftrightarrow> (\<forall>e \<in> set es. \<exists>bs. e = Inr bs)"
  by (induction es rule: emit.induct) (auto split: sum.split)

lemma emit_Cons: "emit (e # es) = emit [e, emit es]"
  by (cases e) (simp_all split: sum.split)

lemma codes_Cons:
  "codes e f u \<Longrightarrow> codes (emit es) (run_stmts fs) v \<Longrightarrow> codes (emit (e # es)) (run_stmts (f # fs)) (\<lambda>x. v (u x))"
  unfolding emit_Cons [of e es] by (rule codes_seq [THEN back_subst [where P = "\<lambda>g. codes _ g _"]]) (auto simp: fun_eq_iff)

lemma codes_last: "codes e f u \<Longrightarrow> codes (emit [e]) (run_stmts [f]) u"
  using codes_Cons [OF _ codes_Nil, of e f u] by simp

lemma codes_return: "codes (emit []) (run_stmts [return_ok]) (\<lambda>x. x)"
  by (rule codesI [where bs = "[]"]) (auto simp: return_ok_def short_of_def)

lemma run_stmts_append:
  "run_stmts (fs @ gs) x r = (let (b, x', r') = run_stmts fs x r in if b then run_stmts gs x' r' else (False, x', r'))"
  by (induction fs arbitrary: x r) (simp_all add: Let_def case_prod_beta)

lemma codes_returning: "codes e (run_stmts fs) u \<Longrightarrow> codes e (run_stmts (fs @ [return_ok])) u"
  unfolding codes_def run_stmts_append by (force simp: return_ok_def split: if_splits prod.splits)

lemma codes_assign: "gets e get v \<Longrightarrow> codes e (assign get put) (put v)"
  by (auto simp: gets_def codes_def assign_def case_prod_beta)

lemma codes_enum:
  assumes "cast v = Some e"
  shows "codes (put_U32 v) (assign_enum cast put) (put e)"
  using gets_U32 [of v] assms
  by (auto simp: gets_def codes_def assign_enum_def case_prod_beta split: option.splits)

lemma codes_field: "codes e f u \<Longrightarrow> codes e (decode_field f field put) (\<lambda>x. put (u (field x)) x)"
  by (auto simp: codes_def decode_field_def case_prod_beta) (metis prod.collapse)

lemma codes_element: "codes e f u \<Longrightarrow> codes e (decode_element fresh f push) (push (u fresh))"
  by (auto simp: codes_def decode_element_def case_prod_beta split: if_splits) (metis prod.collapse)

lemma codes_repeat:
  "(\<And>a. a \<in> set as \<Longrightarrow> codes (enc a) body (u a)) \<Longrightarrow>
     codes (emit (map enc as)) (repeat_stmt (length as) body) (fold u as)"
proof (induction as)
  case Nil
  show ?case by (rule codesI [where bs = "[]"]) (auto simp: short_of_def)
next
  case (Cons a as)
  have "codes (emit [enc a, emit (map enc as)])
      (\<lambda>x r. let (b, x', r') = body x r in if b then repeat_stmt (length as) body x' r' else (False, x', r'))
      (\<lambda>x. fold u as (u a x))"
    by (rule codes_seq [OF Cons.prems Cons.IH]) (use Cons.prems in auto)
  moreover have "repeat_stmt (length (a # as)) body =
      (\<lambda>x r. let (b, x', r') = body x r in if b then repeat_stmt (length as) body x' r' else (False, x', r'))"
    by (simp add: fun_eq_iff)
  moreover have "emit (map enc (a # as)) = emit [enc a, emit (map enc as)]"
    unfolding list.map by (rule emit_Cons)
  ultimately show ?case by (simp only:) (simp add: comp_def)
qed

lemma get_U32_short: "short_of (PutU32 n) r \<Longrightarrow> get_U32 r = (0, broken r)"
  by (auto simp: get_U32_def Need_iff dest: short_of_length)

lemma codes_for:
  assumes body: "\<And>a. a \<in> set as \<Longrightarrow> codes (enc a) body (u a)" and len: "length as \<le> 1048576"
  shows "codes (put_vector enc as) (for_count body) (fold u as)"
proof -
  let ?n = "word_of_nat (length as) :: u32" and ?loop = "repeat_stmt (length as) body"
  have n: "unat ?n = length as" "\<not> kMaxCount < ?n"
    using len short_count [OF len] by (simp_all add: word_less_nat_alt kMaxCount_eq)
  have loop: "codes (emit (map enc as)) ?loop (fold u as)" using body by (rule codes_repeat)
  then obtain bs where bs: "emit (map enc as) = Inr bs" using codes_Inr by blast
  note whole = codesD(1) [OF loop bs] and short = codesD(2) [OF loop bs]
    and num = getsD(1) [OF gets_U32 put_U32_def, of _ ?n]
  show ?thesis
  proof (rule codesI [where bs = "PutU32 ?n @ bs"])
    show "for_count body x r = (True, fold u as x, advance (length (PutU32 ?n @ bs)) r)"
      if "rd_ok r" "unread r = (PutU32 ?n @ bs) @ rest" for x r rest
      using that num [of r "bs @ rest"] whole [of "advance 4 r" rest x] n by (simp add: for_count_def add.assoc)
    show "\<not> rd_ok r'" if cut: "short_of (PutU32 ?n @ bs) r" and run: "for_count body x r = (True, y, r')" for x r y r'
    proof (cases "short_of (PutU32 ?n) r")
      case True
      then show ?thesis using run get_U32_short [of ?n r] by (auto simp: for_count_def)
    next
      case False
      with short_of_append [OF cut] obtain rest where "rd_ok r" "unread r = PutU32 ?n @ rest" "short_of bs (advance 4 r)"
        by auto
      then show ?thesis using run num [of r rest] short [of "advance 4 r" x y r'] n by (simp add: for_count_def)
    qed
  qed (simp add: put_vector_def put_U32_def bs)
qed

section \<open>Vectors, maps and sets\<close>

definition updater :: "(('v \<Rightarrow> 'v) \<Rightarrow> 'a \<Rightarrow> 'a) \<Rightarrow> bool" where
  "updater field \<longleftrightarrow> (\<forall>f g x. field f (field g x) = field (\<lambda>v. f (g v)) x) \<and> (\<forall>x. field (\<lambda>v. v) x = x)"

lemma fold_updater:
  assumes "updater field"
  shows "fold (\<lambda>a. field (h a)) as x = field (fold h as) x"
  using assms by (induction as arbitrary: x) (simp_all add: updater_def comp_def id_def)

lemma fold_push_back:
  assumes "updater field"
  shows "fold (\<lambda>a. push_back field (g a)) as x = field (\<lambda>l. l @ map g as) x"
proof -
  have "fold (\<lambda>a l. l @ [g a]) as = (\<lambda>l. l @ map g as)" by (induction as) (auto simp: fun_eq_iff)
  then show ?thesis using fold_updater [OF assms, of "\<lambda>a l. l @ [g a]" as x] by (simp add: push_back_def)
qed

lemma codes_conv: "codes e f u \<Longrightarrow> (\<And>x. u x = v x) \<Longrightarrow> codes e f v"
  by (simp add: codes_def)

lemma codes_push:
  assumes "\<And>a. a \<in> set as \<Longrightarrow> gets (enc a) get (v a)" "length as \<le> 1048576" "updater field"
  shows "codes (put_vector enc as) (for_count (assign get (\<lambda>w. push_back field (h w)))) (field (\<lambda>l. l @ map (\<lambda>a. h (v a)) as))"
  by (rule codes_conv [OF codes_for [OF codes_assign [OF assms(1)] assms(2)]]) (simp_all add: fold_push_back assms(3))

lemma codes_push_element:
  assumes "\<And>a. a \<in> set as \<Longrightarrow> codes (enc a) dec (u a)" "length as \<le> 1048576" "updater field"
  shows "codes (put_vector enc as) (for_count (decode_element fresh dec (push_back field))) (field (\<lambda>l. l @ map (\<lambda>a. u a fresh) as))"
  by (rule codes_conv [OF codes_for [OF codes_element [OF assms(1)] assms(2)]]) (simp_all add: fold_push_back assms(3))

lemma codes_push_some:
  assumes "\<And>a. a \<in> set as \<Longrightarrow> \<exists>u. codes (enc a) dec u \<and> u fresh = g a" "length as \<le> 1048576" "updater field"
  shows "codes (put_vector enc as) (for_count (decode_element fresh dec (push_back field))) (field (\<lambda>l. l @ map g as))"
proof -
  obtain u where u: "\<forall>a \<in> set as. codes (enc a) dec (u a) \<and> u a fresh = g a"
    using bchoice [of "set as" "\<lambda>a u. codes (enc a) dec u \<and> u fresh = g a"] assms(1) by auto
  then have "map (\<lambda>a. u a fresh) as = map g as" by simp
  with codes_push_element [of as enc dec u field fresh] u assms(2,3) show ?thesis by (simp del: map_eq_conv)
qed

lemma codes_entries:
  assumes "\<forall>e \<in> set es. length (fst e) \<le> 32768" "length es \<le> 1048576" "updater field"
  shows "codes (put_vector (put_entry what) es) (for_count (assign get_entry (set_entry field)))
    (field (fold (\<lambda>e. om_put (fst e) (snd e)) es))"
proof (rule codes_conv [OF codes_for [OF codes_assign [OF gets_entry] assms(2)]])
  show "fold (set_entry field) es x = field (fold (\<lambda>e. om_put (fst e) (snd e)) es) x" for x
    using fold_updater [OF assms(3), of "\<lambda>e. om_put (fst e) (snd e)"] by (simp add: set_entry_def [abs_def])
qed (use assms(1) in auto)

lemma codes_insert:
  assumes "\<And>a. a \<in> set as \<Longrightarrow> cast (val a) = Some a" "length as \<le> 1048576" "updater field"
  shows "codes (put_vector (\<lambda>a. put_U32 (val a)) as) (for_count (assign_enum cast (insert_into field))) (field (\<lambda>s. set as \<union> s))"
proof (rule codes_conv [OF codes_for [OF _ assms(2)]])
  show "codes (put_U32 (val a)) (assign_enum cast (insert_into field)) (insert_into field a)" if "a \<in> set as" for a
    by (rule codes_enum) (rule assms(1) [OF that])
  have "fold insert as = (\<lambda>s. set as \<union> s)" by (induction as) (auto simp: fun_eq_iff)
  then show "fold (insert_into field) as x = field (\<lambda>s. set as \<union> s) x" for x
    using fold_updater [OF assms(3), of insert as x] by (simp add: insert_into_def [abs_def])
qed

lemma fold_om_put_append:
  "om_ok (m @ es) \<Longrightarrow> fold (\<lambda>e. om_put (fst e) (snd e)) es m = m @ es"
proof (induction es arbitrary: m)
  case (Cons e es)
  have "\<forall>x \<in> set m. fst x < fst e" using Cons.prems by (auto simp: om_ok_def sorted_wrt_append)
  then have "om_put (fst e) (snd e) m = m @ [e]" by (induction m) (auto simp: less_imp_not_eq2 dest: less_asym)
  then show ?case using Cons.IH [of "m @ [e]"] Cons.prems by simp
qed simp

lemma fold_om_put [simp]: "om_ok es \<Longrightarrow> fold (\<lambda>e. om_put (fst e) (snd e)) es [] = es"
  using fold_om_put_append [of "[]" es] by simp

section \<open>Encodings that are refused\<close>

definition refuses :: "encoding \<Rightarrow> 'a stmt \<Rightarrow> bool" where
  "refuses e f \<longleftrightarrow> (\<exists>bs. e = Inr bs \<and> (\<forall>x r rest. rd_ok r \<longrightarrow> unread r = bs @ rest \<longrightarrow> \<not> fst (f x r)))"

lemma refuses_enum: "cast v = None \<Longrightarrow> refuses (put_U32 v) (assign_enum cast put)"
  using gets_U32 [of v] by (auto simp: gets_def refuses_def assign_enum_def)

lemma refuses_here: "refuses e f \<Longrightarrow> emit es = Inr bs \<Longrightarrow> refuses (emit (e # es)) (run_stmts (f # fs))"
  by (fastforce simp: refuses_def case_prod_beta)

lemma refuses_later:
  assumes f: "codes e f u" and fs: "refuses (emit es) (run_stmts fs)"
  shows "refuses (emit (e # es)) (run_stmts (f # fs))"
proof -
  obtain b1 where b1: "e = Inr b1" using codes_Inr [OF f] by blast
  obtain b2 where b2: "emit es = Inr b2" "\<And>x r rest. rd_ok r \<Longrightarrow> unread r = b2 @ rest \<Longrightarrow> \<not> fst (run_stmts fs x r)"
    using fs by (auto simp: refuses_def)
  have "\<not> fst (run_stmts (f # fs) x r)" if "rd_ok r" "unread r = b1 @ b2 @ rest" for x r rest
    using codesD(1) [OF f b1 that(1), of "b2 @ rest" x] b2(2) [of "advance (length b1) r" rest "u x"] that by simp
  then show ?thesis unfolding refuses_def by (auto simp: b1 b2(1))
qed

lemma refuses_element: "refuses e f \<Longrightarrow> refuses e (decode_element fresh f push)"
  by (auto simp: refuses_def decode_element_def case_prod_beta)

lemma refuses_append: "refuses e (run_stmts fs) \<Longrightarrow> refuses e (run_stmts (fs @ gs))"
  by (auto simp: refuses_def run_stmts_append case_prod_beta)

lemma refuses_repeat:
  assumes "\<And>a. a \<in> set as \<Longrightarrow> codes (enc a) body (u a)" "refuses (enc d) body" "emit (map enc es) = Inr bs"
  shows "refuses (emit (map enc (as @ d # es))) (repeat_stmt (length (as @ d # es)) body)"
  using assms(1)
proof (induction as)
  case Nil
  then show ?case using assms(2,3) by (fastforce simp: refuses_def case_prod_beta)
next
  case (Cons a as)
  have ih: "refuses (emit (map enc (as @ d # es))) (repeat_stmt (length (as @ d # es)) body)"
    by (rule Cons.IH) (rule Cons.prems, simp)
  obtain ba where ba: "enc a = Inr ba" using codes_Inr [OF Cons.prems [of a]] by auto
  obtain bt where bt: "emit (map enc (as @ d # es)) = Inr bt"
      "\<And>x r rest. rd_ok r \<Longrightarrow> unread r = bt @ rest \<Longrightarrow> \<not> fst (repeat_stmt (length (as @ d # es)) body x r)"
    using ih by (auto simp: refuses_def)
  have "\<not> fst (repeat_stmt (length ((a # as) @ d # es)) body x r)" if "rd_ok r" "unread r = ba @ bt @ rest" for x r rest
    using codesD(1) [OF Cons.prems [of a] ba that(1), of "bt @ rest" x] bt(2) [of "advance (length ba) r" rest "u a x"] that by simp
  then show ?case using bt(1) by (auto simp: refuses_def ba)
qed

section \<open>A reader never leaves its data\<close>

definition stays :: "Reader \<Rightarrow> Reader \<Rightarrow> bool" where
  "stays r r' \<longleftrightarrow> rd_data r' = rd_data r \<and> rd_pos r \<le> rd_pos r' \<and>
     (rd_pos r \<le> length (rd_data r) \<longrightarrow> rd_pos r' \<le> length (rd_data r))"

definition confined :: "'a stmt \<Rightarrow> bool" where
  "confined f \<longleftrightarrow> (\<forall>x r. stays r (snd (snd (f x r))))"

definition confined_get :: "(Reader \<Rightarrow> 'v \<times> Reader) \<Rightarrow> bool" where
  "confined_get get \<longleftrightarrow> (\<forall>r. stays r (snd (get r)))"

lemma stays_trans: "stays r r' \<Longrightarrow> stays r' r'' \<Longrightarrow> stays r r''"
  by (auto simp: stays_def)

lemma stays_refl [simp]: "stays r r" "stays r (broken r)"
  by (simp_all add: stays_def)

lemma stays_advance: "Need n r \<Longrightarrow> stays r (advance n r)"
  by (auto simp: stays_def Need_def)

lemma confined_gets [simp]:
  "confined_get get_U8" "confined_get get_U16" "confined_get get_U32" "confined_get get_U64"
  using stays_advance by (auto simp: confined_get_def get_U8_def get_U16_def get_U32_def get_U64_def
      simp del: add_Suc_right One_nat_def add_2_eq_Suc')

lemma confined_Str [simp]: "confined_get get_Str"
  unfolding confined_get_def get_Str_def Let_def case_prod_beta
  using confined_gets(3) by (auto simp: confined_get_def intro: stays_trans stays_advance)

lemma confined_get_more [simp]: "confined_get get_Dbl" "confined_get get_bool" "confined_get get_entry"
  using confined_gets confined_Str
  by (auto simp: confined_get_def get_Dbl_def get_bool_def get_entry_def Let_def case_prod_beta intro: stays_trans)

lemma confined_Nil: "confined (run_stmts [])"
  by (simp add: confined_def)

lemma confined_Cons:
  assumes "confined f" "confined (run_stmts fs)"
  shows "confined (run_stmts (f # fs))"
proof -
  have "stays r (snd (snd (f x r)))" "stays r (snd (snd (run_stmts fs x r)))" for x r
    using assms by (simp_all add: confined_def)
  then show ?thesis unfolding confined_def by (simp add: case_prod_beta) (metis stays_trans)
qed

lemma confined_append: "confined (run_stmts fs) \<Longrightarrow> confined (run_stmts gs) \<Longrightarrow> confined (run_stmts (fs @ gs))"
  unfolding confined_def run_stmts_append by (simp add: case_prod_beta) (metis stays_trans)

lemma confined_repeat: "confined body \<Longrightarrow> confined (repeat_stmt n body)"
proof (induction n)
  case (Suc n)
  then have "confined body" "confined (repeat_stmt n body)" by auto
  then have "stays r (snd (snd (body x r)))" "stays r (snd (snd (repeat_stmt n body x r)))" for x r
    by (simp_all add: confined_def)
  then show ?case unfolding confined_def by (simp add: case_prod_beta) (metis stays_trans)
qed (simp add: confined_def)

lemma confined_stmts [simp]:
  "confined return_ok"
  "confined_get get \<Longrightarrow> confined (assign get put)"
  "confined (assign_enum cast put)"
  "confined f \<Longrightarrow> confined (decode_field f field put')"
  "confined f \<Longrightarrow> confined (decode_element fresh f push)"
  using confined_gets(3)
  by (auto simp: confined_def confined_get_def return_ok_def assign_def assign_enum_def decode_field_def
      decode_element_def case_prod_beta split: option.split)

lemma confined_for [simp]: "confined body \<Longrightarrow> confined (for_count body)"
  using confined_repeat [of body] confined_gets(3)
  by (auto simp: confined_def confined_get_def for_count_def case_prod_beta intro: stays_trans)

lemmas confined_intros = confined_Nil confined_Cons confined_append confined_stmts confined_for
  confined_gets confined_Str confined_get_more

section \<open>Truncated input\<close>

text \<open>A decoder that ends in \<open>return r.ok()\<close> accepts no input that is cut short.\<close>

definition checks_end :: "'a stmt \<Rightarrow> bool" where
  "checks_end f \<longleftrightarrow> (\<forall>x r y r'. f x r = (True, y, r') \<longrightarrow> rd_ok r')"

lemma checks_end_run: "checks_end (last fs) \<Longrightarrow> fs \<noteq> [] \<Longrightarrow> checks_end (run_stmts fs)"
proof (induction fs)
  case (Cons f fs)
  then show ?case by (cases "fs = []") (auto simp: checks_end_def split: prod.splits if_splits)
qed simp

lemma checks_end_return [simp]: "checks_end return_ok"
  by (simp add: checks_end_def return_ok_def)

lemma checks_end_field [simp]: "checks_end f \<Longrightarrow> checks_end (decode_field f field put)"
  by (auto simp: checks_end_def decode_field_def split: prod.splits)

lemma truncated_rejected:
  assumes "codes (Inr bs) f u" "checks_end f" "k < length bs"
  shows "\<not> fst (f x (MakeReader (take k bs)))"
proof
  let ?r = "MakeReader (take k bs)"
  assume "fst (f x ?r)"
  then obtain y r' where run: "f x ?r = (True, y, r')" by (cases "f x ?r") auto
  have "unread ?r @ drop k bs = bs" by (simp add: unread_def MakeReader_def)
  then have "short_of bs ?r" using assms(3) unfolding short_of_def by (intro disjI2 exI [of _ "drop k bs"]) auto
  from codesD(2) [OF assms(1) refl this run] assms(2) run show False by (auto simp: checks_end_def)
qed

lemma codes_whole:
  assumes "codes (Inr bs) f u"
  shows "f x (MakeReader bs) = (True, u x, advance (length bs) (MakeReader bs))"
  by (rule codesD(1) [OF assms refl, of _ "[]"]) (simp_all add: MakeReader_def unread_def)

section \<open>What an encoder and a decoder owe each other\<close>

text \<open>The encoding is read back to the end as the given value, and no proper prefix of it is accepted.\<close>

definition round_trips :: "encoding \<Rightarrow> 'a stmt \<Rightarrow> 'a \<Rightarrow> 'a \<Rightarrow> bool" where
  "round_trips e dec fresh v \<longleftrightarrow> (\<exists>bs. e = Inr bs \<and>
     dec fresh (MakeReader bs) = (True, v, \<lparr>rd_data = bs, rd_pos = length bs, rd_ok = True\<rparr>) \<and>
     (\<forall>k < length bs. \<not> fst (dec fresh (MakeReader (take k bs)))))"

lemma round_tripsI:
  assumes "codes e dec u" "u fresh = v" "checks_end dec"
  shows "round_trips e dec fresh v"
proof -
  obtain bs where bs: "e = Inr bs" using codes_Inr [OF assms(1)] by blast
  show ?thesis
    using codes_whole [OF assms(1) [unfolded bs], of fresh] truncated_rejected [OF assms(1) [unfolded bs] assms(3)]
    unfolding round_trips_def bs by (auto simp: MakeReader_def assms(2))
qed

text \<open>
  A format of a type: what fits it is written, and read back into a fresh object up to the fields the
  format keeps.  A vector of such values follows.
\<close>

locale record_format =
  fixes enc :: "'a \<Rightarrow> encoding" and dec :: "'a stmt" and fresh :: 'a and fit :: "'a \<Rightarrow> bool" and kept :: "'a \<Rightarrow> 'a"
  assumes format: "fit a \<Longrightarrow> \<exists>u. codes (enc a) dec u \<and> u fresh = kept a"
begin

lemma defined: "fit a \<Longrightarrow> \<exists>bs. enc a = Inr bs"
  using format codes_Inr by blast

lemma reads: "fit a \<Longrightarrow> enc a = Inr bs \<Longrightarrow> dec fresh (MakeReader bs) = (True, kept a, advance (length bs) (MakeReader bs))"
  using format codes_whole by metis

lemma pushes:
  "\<forall>a \<in> set as. fit a \<Longrightarrow> length as \<le> 1048576 \<Longrightarrow> updater field \<Longrightarrow>
    codes (put_vector enc as) (for_count (decode_element fresh dec (push_back field))) (field (\<lambda>l. l @ map kept as))"
  by (rule codes_push_some) (simp_all add: format)

end

text \<open>A format whose decoder looks at the reader's flag last, so that it refuses what is cut short.\<close>

locale wire_format = record_format +
  assumes ends: "checks_end dec"
begin

lemma round_trip: "fit a \<Longrightarrow> round_trips (enc a) dec fresh (kept a)"
  using format ends by (blast intro: round_tripsI)

end

end
