(* ===== verification/Fabric_Examples.thy ===== *)
theory Fabric_Examples
  imports Fabric_Model
begin

text \<open>
  Concrete inputs: a node, resources of a class with a given id, a request for compute and one
  accelerator, and a plan for a single resource.  The component theories evaluate their
  operations on them.
\<close>

definition ex_evidence :: Evidence where
  "ex_evidence = Evidence_default\<lparr>ev_id := StrongId 1, ev_generation := StrongGeneration 1,
     ev_source := SRC_WORKER, ev_state := ES_FRESH, ev_max_age_ms := 1000, ev_owner := ''7''\<rparr>"

definition ex_resource :: "u64 \<Rightarrow> ResourceClass \<Rightarrow> Resource" where
  "ex_resource i cls = Resource_default\<lparr>r_id := StrongId i, r_generation := StrongGeneration 1,
     r_resource_class := cls, r_node_id := StrongId 1,
     r_capacity := Capacity_default\<lparr>cp_compute_units := d_10\<rparr>,
     r_health := RH_HEALTHY, r_readiness := RD_READY, r_reachability := RB_REACHABLE,
     r_evidence := ex_evidence\<rparr>"

definition ex_node :: Node where
  "ex_node = Node_default\<lparr>n_id := StrongId 1, n_generation := StrongGeneration 1, n_worker_boot := StrongId 7\<rparr>"

definition ex_request :: CompositionRequest where
  "ex_request = CompositionRequest_default\<lparr>rq_compute_units := 4, rq_accelerator_count := 1\<rparr>"

text \<open>A plan for the one resource with id 1, bound to epoch 1 and generation 1.\<close>

definition ex_plan :: CompositionPlan where
  "ex_plan = CompositionPlan_default\<lparr>pl_id := StrongId 1, pl_generation := StrongGeneration 1,
     pl_graph := \<lparr>g_vertices = [StrongId 1], g_edges = []\<rparr>, pl_nodes := [StrongId 1],
     pl_request := CompositionRequest_default\<lparr>rq_compute_units := 4\<rparr>,
     pl_authority := AuthorityTuple_default\<lparr>au_coordinator_epoch := StrongGeneration 1,
       au_resource_generations := [StrongGeneration 1]\<rparr>\<rparr>"

end
