(* ===== verification/Fabric_Codec.thy ===== *)
theory Fabric_Codec
  imports Fabric_Wire Fabric_Examples
begin

text \<open>
  The wire codec, \<open>include/dfabric/codec.hpp\<close>, and the parts of the durable format
  (\<open>src/dfabric/persistence.cpp\<close>) that coincide with it.  For every type there is the sequence of
  chunks its encoder writes, given the text of the exception for a long string, and the list of
  statements of its decoder.  The round trip of a type says what its decoder makes of its
  encoding; where the encoder leaves fields out, they come back with their defaults.
\<close>

section \<open>Evidence, capabilities, compatibility\<close>

definition wire_long :: string where "wire_long = ''wire: string too long''"

definition encode_evidence :: "string \<Rightarrow> Evidence \<Rightarrow> encoding" where
  "encode_evidence what e = emit
     [put_U64 (Value (ev_id e)), put_U64 (gen_Value (ev_generation e)),
      put_U32 (EvidenceSource_value (ev_source e)), put_U32 (EvidenceState_value (ev_state e)),
      put_U64 (ev_timestamp_ms e), put_U64 (ev_max_age_ms e), put_Dbl (ev_confidence e),
      put_Str what (ev_provenance e), put_Str what (ev_owner e), put_bool (ev_durable e)]"

definition evidence_stmts :: "Evidence stmt list" where
  "evidence_stmts =
     [assign get_U64 (\<lambda>v e. e\<lparr>ev_id := StrongId v\<rparr>),
      assign get_U64 (\<lambda>v e. e\<lparr>ev_generation := StrongGeneration v\<rparr>),
      assign_enum (read_enum EvidenceSource_value EvidenceSource_table EvidenceSource_max) (\<lambda>v e. e\<lparr>ev_source := v\<rparr>),
      assign_enum (read_enum EvidenceState_value EvidenceState_table EvidenceState_max) (\<lambda>v e. e\<lparr>ev_state := v\<rparr>),
      assign get_U64 (\<lambda>v e. e\<lparr>ev_timestamp_ms := v\<rparr>),
      assign get_U64 (\<lambda>v e. e\<lparr>ev_max_age_ms := v\<rparr>),
      assign get_Dbl (\<lambda>v e. e\<lparr>ev_confidence := v\<rparr>),
      assign get_Str (\<lambda>v e. e\<lparr>ev_provenance := v\<rparr>),
      assign get_Str (\<lambda>v e. e\<lparr>ev_owner := v\<rparr>),
      assign get_bool (\<lambda>v e. e\<lparr>ev_durable := v\<rparr>)]"

definition EncodeEvidence :: "Evidence \<Rightarrow> encoding" where
  "EncodeEvidence = encode_evidence wire_long"

definition DecodeEvidence :: "Evidence stmt" where
  "DecodeEvidence = run_stmts (evidence_stmts @ [return_ok])"

definition encode_capability :: "string \<Rightarrow> Capability \<Rightarrow> encoding" where
  "encode_capability what c = emit
     [put_U32 (CapabilityKind_value (cb_kind c)), put_U32 (CapabilityState_value (cb_state c)),
      put_U64 (gen_Value (cb_generation c)), put_U64 (Value (cb_evidence c)), put_Str what (cb_detail c)]"

definition capability_stmts :: "Capability stmt list" where
  "capability_stmts =
     [assign_enum (read_enum CapabilityKind_value CapabilityKind_table CapabilityKind_max) (\<lambda>v c. c\<lparr>cb_kind := v\<rparr>),
      assign_enum (read_enum CapabilityState_value CapabilityState_table CapabilityState_max) (\<lambda>v c. c\<lparr>cb_state := v\<rparr>),
      assign get_U64 (\<lambda>v c. c\<lparr>cb_generation := StrongGeneration v\<rparr>),
      assign get_U64 (\<lambda>v c. c\<lparr>cb_evidence := StrongId v\<rparr>),
      assign get_Str (\<lambda>v c. c\<lparr>cb_detail := v\<rparr>)]"

definition EncodeCapability :: "Capability \<Rightarrow> encoding" where
  "EncodeCapability = encode_capability wire_long"

definition DecodeCapability :: "Capability stmt" where
  "DecodeCapability = run_stmts (capability_stmts @ [return_ok])"

definition encode_pin :: "string \<Rightarrow> CompatibilityPin \<Rightarrow> encoding" where
  "encode_pin what p = emit [put_Str what (pin_name p), put_Str what (pin_value p), put_U64 (gen_Value (pin_generation p))]"

definition CompatibilityPin_default :: CompatibilityPin where
  "CompatibilityPin_default = \<lparr>pin_name = [], pin_value = [], pin_generation = StrongGeneration 0\<rparr>"

definition pin_stmts :: "CompatibilityPin stmt list" where
  "pin_stmts =
     [assign get_Str (\<lambda>v p. p\<lparr>pin_name := v\<rparr>), assign get_Str (\<lambda>v p. p\<lparr>pin_value := v\<rparr>),
      assign get_U64 (\<lambda>v p. p\<lparr>pin_generation := StrongGeneration v\<rparr>)]"

definition encode_compatibility :: "string \<Rightarrow> Compatibility \<Rightarrow> encoding" where
  "encode_compatibility what c = emit
     [put_U64 (Value (ct_id c)), put_U64 (gen_Value (ct_generation c)), put_vector (encode_pin what) (ct_pins c)]"

definition compatibility_stmts :: "Compatibility stmt list" where
  "compatibility_stmts =
     [assign get_U64 (\<lambda>v c. c\<lparr>ct_id := StrongId v\<rparr>),
      assign get_U64 (\<lambda>v c. c\<lparr>ct_generation := StrongGeneration v\<rparr>),
      for_count (decode_element CompatibilityPin_default (run_stmts pin_stmts) (push_back ct_pins_update))]"

definition EncodeCompatibility :: "Compatibility \<Rightarrow> encoding" where
  "EncodeCompatibility = encode_compatibility wire_long"

definition DecodeCompatibility :: "Compatibility stmt" where
  "DecodeCompatibility = run_stmts (compatibility_stmts @ [return_ok])"

section \<open>Resources and nodes\<close>

definition encode_capacity :: "string \<Rightarrow> ((string \<times> double) list \<Rightarrow> encoding) \<Rightarrow> Capacity \<Rightarrow> encoding" where
  "encode_capacity what put_extra c = emit
     [put_Dbl (cp_compute_units c), put_Dbl (cp_accelerator_memory_bytes c), put_Dbl (cp_host_memory_bytes c),
      put_Dbl (cp_expanded_memory_bytes c), put_Dbl (cp_storage_bytes c), put_Dbl (cp_network_bandwidth_mbps c),
      put_Dbl (cp_network_latency_us c), put_extra (cp_extra c)]"

definition capacity_stmts :: "Capacity stmt list" where
  "capacity_stmts =
     [assign get_Dbl (\<lambda>v c. c\<lparr>cp_compute_units := v\<rparr>), assign get_Dbl (\<lambda>v c. c\<lparr>cp_accelerator_memory_bytes := v\<rparr>),
      assign get_Dbl (\<lambda>v c. c\<lparr>cp_host_memory_bytes := v\<rparr>), assign get_Dbl (\<lambda>v c. c\<lparr>cp_expanded_memory_bytes := v\<rparr>),
      assign get_Dbl (\<lambda>v c. c\<lparr>cp_storage_bytes := v\<rparr>), assign get_Dbl (\<lambda>v c. c\<lparr>cp_network_bandwidth_mbps := v\<rparr>),
      assign get_Dbl (\<lambda>v c. c\<lparr>cp_network_latency_us := v\<rparr>),
      for_count (assign get_entry (set_entry cp_extra_update))]"

definition encode_locality :: "string \<Rightarrow> Locality \<Rightarrow> encoding" where
  "encode_locality what l = emit [put_vector put_Dbl (lo_coords l), put_vector (put_entry what) (lo_tags l)]"

definition locality_stmts :: "Locality stmt list" where
  "locality_stmts =
     [for_count (assign get_Dbl (\<lambda>v. push_back lo_coords_update v)),
      for_count (assign get_entry (set_entry lo_tags_update))]"

definition encode_domain :: "string \<Rightarrow> FailureDomain \<Rightarrow> encoding" where
  "encode_domain what d = emit
     [put_U64 (Value (fd_id d)), put_U32 (FailureDomainType_value (fd_type d)), put_Str what (fd_name d),
      put_bool (fd_synthetic d)]"

definition domain_stmts :: "FailureDomain stmt list" where
  "domain_stmts =
     [assign get_U64 (\<lambda>v d. d\<lparr>fd_id := StrongId v\<rparr>),
      assign_enum (read_enum FailureDomainType_value FailureDomainType_table FailureDomainType_max) (\<lambda>v d. d\<lparr>fd_type := v\<rparr>),
      assign get_Str (\<lambda>v d. d\<lparr>fd_name := v\<rparr>),
      assign get_bool (\<lambda>v d. d\<lparr>fd_synthetic := v\<rparr>)]"

definition encode_resource :: "string \<Rightarrow> ((string \<times> double) list \<Rightarrow> encoding) \<Rightarrow> Resource \<Rightarrow> encoding" where
  "encode_resource what put_extra res = emit
     [put_U64 (Value (r_id res)), put_U64 (gen_Value (r_generation res)),
      put_U32 (ResourceClass_value (r_resource_class res)), put_U64 (Value (r_node_id res)),
      put_Str what (r_provider res), put_Str what (r_authority_owner res), put_bool (r_synthetic res),
      put_U32 (ResourceHealth_value (r_health res)), put_U32 (Readiness_value (r_readiness res)),
      put_U32 (Reachability_value (r_reachability res)),
      encode_capacity what put_extra (r_capacity res), encode_locality what (r_locality res),
      encode_domain what (r_failure_domain res), encode_evidence what (r_evidence res),
      put_vector (encode_capability what) (r_capabilities res),
      put_vector (encode_compatibility what) (r_compatibility res)]"

definition resource_stmts :: "Evidence stmt \<Rightarrow> Capability stmt \<Rightarrow> Compatibility stmt \<Rightarrow> Resource stmt list" where
  "resource_stmts dec_evidence dec_capability dec_compatibility =
     [assign get_U64 (\<lambda>v res. res\<lparr>r_id := StrongId v\<rparr>),
      assign get_U64 (\<lambda>v res. res\<lparr>r_generation := StrongGeneration v\<rparr>),
      assign_enum (read_enum ResourceClass_value ResourceClass_table ResourceClass_max) (\<lambda>v res. res\<lparr>r_resource_class := v\<rparr>),
      assign get_U64 (\<lambda>v res. res\<lparr>r_node_id := StrongId v\<rparr>),
      assign get_Str (\<lambda>v res. res\<lparr>r_provider := v\<rparr>),
      assign get_Str (\<lambda>v res. res\<lparr>r_authority_owner := v\<rparr>),
      assign get_bool (\<lambda>v res. res\<lparr>r_synthetic := v\<rparr>),
      assign_enum (read_enum ResourceHealth_value ResourceHealth_table ResourceHealth_max) (\<lambda>v res. res\<lparr>r_health := v\<rparr>),
      assign_enum (read_enum Readiness_value Readiness_table Readiness_max) (\<lambda>v res. res\<lparr>r_readiness := v\<rparr>),
      assign_enum (read_enum Reachability_value Reachability_table Reachability_max) (\<lambda>v res. res\<lparr>r_reachability := v\<rparr>),
      decode_field (run_stmts capacity_stmts) r_capacity (\<lambda>v res. res\<lparr>r_capacity := v\<rparr>),
      decode_field (run_stmts locality_stmts) r_locality (\<lambda>v res. res\<lparr>r_locality := v\<rparr>),
      decode_field (run_stmts domain_stmts) r_failure_domain (\<lambda>v res. res\<lparr>r_failure_domain := v\<rparr>),
      decode_field dec_evidence r_evidence (\<lambda>v res. res\<lparr>r_evidence := v\<rparr>),
      for_count (decode_element Capability_default dec_capability (push_back r_capabilities_update)),
      for_count (decode_element Compatibility_default dec_compatibility (push_back r_compatibility_update))]"

definition EncodeResource :: "Resource \<Rightarrow> encoding" where
  "EncodeResource = encode_resource wire_long (put_vector (put_entry wire_long))"

definition DecodeResource :: "Resource stmt" where
  "DecodeResource = run_stmts (resource_stmts DecodeEvidence DecodeCapability DecodeCompatibility @ [return_ok])"

definition encode_node :: "string \<Rightarrow> Node \<Rightarrow> encoding" where
  "encode_node what n = emit
     [put_U64 (Value (n_id n)), put_U64 (gen_Value (n_generation n)),
      put_Str what (n_hostname n), put_Str what (n_provider n), put_U32 (BackendKind_value (n_backend n)),
      put_vector (\<lambda>i. put_U64 (Value i)) (n_inventory n),
      encode_domain what (n_failure_domain n), encode_locality what (n_locality n),
      put_U32 (Reachability_value (n_reachability n)), put_U32 (ResourceHealth_value (n_health n)),
      put_Str what (n_worker_owner n), put_U64 (Value (n_worker_boot n)), put_U64 (n_evidence_freshness_ms n),
      put_U32 (NodeLifecycle_value (n_lifecycle n)), put_bool (n_synthetic n)]"

definition node_stmts :: "Node stmt list" where
  "node_stmts =
     [assign get_U64 (\<lambda>v n. n\<lparr>n_id := StrongId v\<rparr>),
      assign get_U64 (\<lambda>v n. n\<lparr>n_generation := StrongGeneration v\<rparr>),
      assign get_Str (\<lambda>v n. n\<lparr>n_hostname := v\<rparr>),
      assign get_Str (\<lambda>v n. n\<lparr>n_provider := v\<rparr>),
      assign_enum (read_enum BackendKind_value BackendKind_table BackendKind_max) (\<lambda>v n. n\<lparr>n_backend := v\<rparr>),
      for_count (assign get_U64 (\<lambda>v. push_back n_inventory_update (StrongId v))),
      decode_field (run_stmts domain_stmts) n_failure_domain (\<lambda>v n. n\<lparr>n_failure_domain := v\<rparr>),
      decode_field (run_stmts locality_stmts) n_locality (\<lambda>v n. n\<lparr>n_locality := v\<rparr>),
      assign_enum (read_enum Reachability_value Reachability_table Reachability_max) (\<lambda>v n. n\<lparr>n_reachability := v\<rparr>),
      assign_enum (read_enum ResourceHealth_value ResourceHealth_table ResourceHealth_max) (\<lambda>v n. n\<lparr>n_health := v\<rparr>),
      assign get_Str (\<lambda>v n. n\<lparr>n_worker_owner := v\<rparr>),
      assign get_U64 (\<lambda>v n. n\<lparr>n_worker_boot := StrongId v\<rparr>),
      assign get_U64 (\<lambda>v n. n\<lparr>n_evidence_freshness_ms := v\<rparr>),
      assign_enum (read_enum NodeLifecycle_value NodeLifecycle_table NodeLifecycle_max) (\<lambda>v n. n\<lparr>n_lifecycle := v\<rparr>),
      assign get_bool (\<lambda>v n. n\<lparr>n_synthetic := v\<rparr>)]"

definition EncodeNode :: "Node \<Rightarrow> encoding" where
  "EncodeNode = encode_node wire_long"

definition DecodeNode :: "Node stmt" where
  "DecodeNode = run_stmts (node_stmts @ [return_ok])"

section \<open>Paths, graphs, authority and requests\<close>

definition encode_path :: "string \<Rightarrow> PathEvidence \<Rightarrow> encoding" where
  "encode_path what p = emit
     [put_U64 (Value (pe_id p)), put_U64 (gen_Value (pe_generation p)),
      put_U64 (Value (pr_from (pe_requirement p))), put_U64 (Value (pr_to (pe_requirement p))),
      put_Dbl (pr_min_bandwidth_mbps (pe_requirement p)), put_Dbl (pr_max_latency_us (pe_requirement p)),
      put_bool (pr_required (pe_requirement p)), put_bool (pr_direct (pe_requirement p)),
      put_Str what (pr_protocol (pe_requirement p)),
      put_bool (pe_available p), put_Dbl (pe_bandwidth_mbps p), put_Dbl (pe_latency_us p), put_bool (pe_verified p),
      put_Str what (pe_provider p), put_Str what (pe_source p), encode_evidence what (pe_evidence p)]"

definition path_stmts :: "PathEvidence stmt list" where
  "path_stmts =
     [assign get_U64 (\<lambda>v p. p\<lparr>pe_id := StrongId v\<rparr>),
      assign get_U64 (\<lambda>v p. p\<lparr>pe_generation := StrongGeneration v\<rparr>),
      assign get_U64 (\<lambda>v p. p\<lparr>pe_requirement := (pe_requirement p)\<lparr>pr_from := StrongId v\<rparr>\<rparr>),
      assign get_U64 (\<lambda>v p. p\<lparr>pe_requirement := (pe_requirement p)\<lparr>pr_to := StrongId v\<rparr>\<rparr>),
      assign get_Dbl (\<lambda>v p. p\<lparr>pe_requirement := (pe_requirement p)\<lparr>pr_min_bandwidth_mbps := v\<rparr>\<rparr>),
      assign get_Dbl (\<lambda>v p. p\<lparr>pe_requirement := (pe_requirement p)\<lparr>pr_max_latency_us := v\<rparr>\<rparr>),
      assign get_bool (\<lambda>v p. p\<lparr>pe_requirement := (pe_requirement p)\<lparr>pr_required := v\<rparr>\<rparr>),
      assign get_bool (\<lambda>v p. p\<lparr>pe_requirement := (pe_requirement p)\<lparr>pr_direct := v\<rparr>\<rparr>),
      assign get_Str (\<lambda>v p. p\<lparr>pe_requirement := (pe_requirement p)\<lparr>pr_protocol := v\<rparr>\<rparr>),
      assign get_bool (\<lambda>v p. p\<lparr>pe_available := v\<rparr>),
      assign get_Dbl (\<lambda>v p. p\<lparr>pe_bandwidth_mbps := v\<rparr>),
      assign get_Dbl (\<lambda>v p. p\<lparr>pe_latency_us := v\<rparr>),
      assign get_bool (\<lambda>v p. p\<lparr>pe_verified := v\<rparr>),
      assign get_Str (\<lambda>v p. p\<lparr>pe_provider := v\<rparr>),
      assign get_Str (\<lambda>v p. p\<lparr>pe_source := v\<rparr>),
      decode_field DecodeEvidence pe_evidence (\<lambda>v p. p\<lparr>pe_evidence := v\<rparr>)]"

definition EncodePath :: "PathEvidence \<Rightarrow> encoding" where
  "EncodePath = encode_path wire_long"

definition DecodePath :: "PathEvidence stmt" where
  "DecodePath = run_stmts path_stmts"

definition encode_edge :: "string \<Rightarrow> GraphEdge \<Rightarrow> encoding" where
  "encode_edge what e = emit
     [put_U64 (Value (e_from e)), put_U64 (Value (e_to e)), put_U32 (GraphEdgeKind_value (e_kind e)),
      put_bool (e_required e), put_Dbl (e_min_bandwidth_mbps e), put_Dbl (e_max_latency_us e),
      put_Str what (e_protocol e), put_Str what (e_compat_facet e)]"

definition edge_stmts :: "GraphEdge stmt list" where
  "edge_stmts =
     [assign get_U64 (\<lambda>v e. e\<lparr>e_from := StrongId v\<rparr>), assign get_U64 (\<lambda>v e. e\<lparr>e_to := StrongId v\<rparr>),
      assign_enum (read_enum GraphEdgeKind_value GraphEdgeKind_table GraphEdgeKind_max) (\<lambda>v e. e\<lparr>e_kind := v\<rparr>),
      assign get_bool (\<lambda>v e. e\<lparr>e_required := v\<rparr>), assign get_Dbl (\<lambda>v e. e\<lparr>e_min_bandwidth_mbps := v\<rparr>),
      assign get_Dbl (\<lambda>v e. e\<lparr>e_max_latency_us := v\<rparr>), assign get_Str (\<lambda>v e. e\<lparr>e_protocol := v\<rparr>),
      assign get_Str (\<lambda>v e. e\<lparr>e_compat_facet := v\<rparr>)]"

definition encode_graph :: "string \<Rightarrow> ResourceGraph \<Rightarrow> encoding" where
  "encode_graph what g = emit
     [put_vector (\<lambda>i. put_U64 (Value i)) (g_vertices g), put_vector (encode_edge what) (g_edges g)]"

definition graph_stmts :: "ResourceGraph stmt list" where
  "graph_stmts =
     [for_count (assign get_U64 (\<lambda>v. push_back g_vertices_update (StrongId v))),
      for_count (decode_element GraphEdge_default (run_stmts edge_stmts) (push_back g_edges_update))]"

definition EncodeGraph :: "ResourceGraph \<Rightarrow> encoding" where
  "EncodeGraph = encode_graph wire_long"

definition DecodeGraph :: "ResourceGraph stmt" where
  "DecodeGraph = run_stmts (graph_stmts @ [return_ok])"

definition EncodeAuthority :: "AuthorityTuple \<Rightarrow> encoding" where
  "EncodeAuthority a = emit
     [put_U64 (gen_Value (au_coordinator_epoch a)),
      put_vector (\<lambda>v. put_U64 (Value v)) (au_worker_boots a),
      put_vector (\<lambda>v. put_U64 (gen_Value v)) (au_node_generations a),
      put_vector (\<lambda>v. put_U64 (gen_Value v)) (au_resource_generations a),
      put_vector (\<lambda>v. put_U64 (gen_Value v)) (au_path_generations a),
      put_vector (\<lambda>v. put_U64 (gen_Value v)) (au_capability_generations a),
      put_vector (\<lambda>v. put_U64 (gen_Value v)) (au_compatibility_generations a),
      put_U64 (gen_Value (au_policy_generation a)),
      put_vector (\<lambda>v. put_U64 (gen_Value v)) (au_evidence_generations a),
      put_vector (\<lambda>v. put_U64 (gen_Value v)) (au_reservation_generations a),
      put_U64 (gen_Value (au_composition_generation a))]"

definition authority_stmts :: "AuthorityTuple stmt list" where
  "authority_stmts =
     [assign get_U64 (\<lambda>v a. a\<lparr>au_coordinator_epoch := StrongGeneration v\<rparr>),
      for_count (assign get_U64 (\<lambda>v. push_back au_worker_boots_update (StrongId v))),
      for_count (assign get_U64 (\<lambda>v. push_back au_node_generations_update (StrongGeneration v))),
      for_count (assign get_U64 (\<lambda>v. push_back au_resource_generations_update (StrongGeneration v))),
      for_count (assign get_U64 (\<lambda>v. push_back au_path_generations_update (StrongGeneration v))),
      for_count (assign get_U64 (\<lambda>v. push_back au_capability_generations_update (StrongGeneration v))),
      for_count (assign get_U64 (\<lambda>v. push_back au_compatibility_generations_update (StrongGeneration v))),
      assign get_U64 (\<lambda>v a. a\<lparr>au_policy_generation := StrongGeneration v\<rparr>),
      for_count (assign get_U64 (\<lambda>v. push_back au_evidence_generations_update (StrongGeneration v))),
      for_count (assign get_U64 (\<lambda>v. push_back au_reservation_generations_update (StrongGeneration v))),
      assign get_U64 (\<lambda>v a. a\<lparr>au_composition_generation := StrongGeneration v\<rparr>)]"

definition DecodeAuthority :: "AuthorityTuple stmt" where
  "DecodeAuthority = run_stmts (authority_stmts @ [return_ok])"

definition encode_request :: "string \<Rightarrow> encoding list \<Rightarrow> CompositionRequest \<Rightarrow> encoding" where
  "encode_request what reach q = emit
     ([put_U64 (rq_compute_units q), put_U32 (rq_accelerator_count q),
       put_vector (put_Str what) (rq_accelerator_architectures q),
       put_Dbl (rq_accelerator_memory_bytes q), put_Dbl (rq_host_memory_bytes q), put_Dbl (rq_expanded_memory_bytes q),
       put_Dbl (rq_storage_bytes q), put_U32 (rq_network_endpoint_count q), put_Dbl (rq_min_bandwidth_mbps q),
       put_Dbl (rq_max_latency_us q),
       put_vector (\<lambda>c. put_U32 (ResourceClass_value c)) (sorted_list_of_set (rq_mandatory_classes q)),
       put_vector (\<lambda>c. put_U32 (ResourceClass_value c)) (sorted_list_of_set (rq_optional_classes q)),
       put_bool (rq_require_direct_path q), put_bool (rq_require_coherence q), put_bool (rq_require_persistence q),
       put_bool (rq_require_isolation q), put_bool (rq_staging_allowance q)] @ reach @
      [put_U64 (Value (rq_compatibility q)), put_U64 (Value (rq_policy q)), put_U64 (gen_Value (rq_policy_generation q)),
       put_U64 (Value (rq_consumer q)), put_U64 (gen_Value (rq_consumer_generation q))])"

definition request_stmts :: "CompositionRequest stmt list \<Rightarrow> CompositionRequest stmt list" where
  "request_stmts reach =
     [assign get_U64 (\<lambda>v q. q\<lparr>rq_compute_units := v\<rparr>),
      assign get_U32 (\<lambda>v q. q\<lparr>rq_accelerator_count := v\<rparr>),
      for_count (assign get_Str (\<lambda>v. push_back rq_accelerator_architectures_update v)),
      assign get_Dbl (\<lambda>v q. q\<lparr>rq_accelerator_memory_bytes := v\<rparr>),
      assign get_Dbl (\<lambda>v q. q\<lparr>rq_host_memory_bytes := v\<rparr>),
      assign get_Dbl (\<lambda>v q. q\<lparr>rq_expanded_memory_bytes := v\<rparr>),
      assign get_Dbl (\<lambda>v q. q\<lparr>rq_storage_bytes := v\<rparr>),
      assign get_U32 (\<lambda>v q. q\<lparr>rq_network_endpoint_count := v\<rparr>),
      assign get_Dbl (\<lambda>v q. q\<lparr>rq_min_bandwidth_mbps := v\<rparr>),
      assign get_Dbl (\<lambda>v q. q\<lparr>rq_max_latency_us := v\<rparr>),
      for_count (assign_enum (read_enum ResourceClass_value ResourceClass_table ResourceClass_max) (insert_into rq_mandatory_classes_update)),
      for_count (assign_enum (read_enum ResourceClass_value ResourceClass_table ResourceClass_max) (insert_into rq_optional_classes_update)),
      assign get_bool (\<lambda>v q. q\<lparr>rq_require_direct_path := v\<rparr>),
      assign get_bool (\<lambda>v q. q\<lparr>rq_require_coherence := v\<rparr>),
      assign get_bool (\<lambda>v q. q\<lparr>rq_require_persistence := v\<rparr>),
      assign get_bool (\<lambda>v q. q\<lparr>rq_require_isolation := v\<rparr>),
      assign get_bool (\<lambda>v q. q\<lparr>rq_staging_allowance := v\<rparr>)] @ reach @
     [assign get_U64 (\<lambda>v q. q\<lparr>rq_compatibility := StrongId v\<rparr>),
      assign get_U64 (\<lambda>v q. q\<lparr>rq_policy := StrongId v\<rparr>),
      assign get_U64 (\<lambda>v q. q\<lparr>rq_policy_generation := StrongGeneration v\<rparr>),
      assign get_U64 (\<lambda>v q. q\<lparr>rq_consumer := StrongId v\<rparr>),
      assign get_U64 (\<lambda>v q. q\<lparr>rq_consumer_generation := StrongGeneration v\<rparr>)]"

definition EncodeRequest :: "CompositionRequest \<Rightarrow> encoding" where
  "EncodeRequest q = encode_request wire_long [put_bool (rq_ignore_reachability q)] q"

definition DecodeRequest :: "CompositionRequest stmt" where
  "DecodeRequest = run_stmts (request_stmts [assign get_bool (\<lambda>v q. q\<lparr>rq_ignore_reachability := v\<rparr>)] @ [return_ok])"

section \<open>Plans, compositions and reservations\<close>

definition RankingFactor_default :: RankingFactor where
  "RankingFactor_default = \<lparr>rf_name = [], rf_weight = d_1, rf_value = 0, rf_detail = []\<rparr>"

definition encode_factor :: "RankingFactor \<Rightarrow> encoding" where
  "encode_factor f = emit
     [put_Str wire_long (rf_name f), put_Dbl (rf_weight f), put_Dbl (rf_value f), put_Str wire_long (rf_detail f)]"

definition factor_stmts :: "RankingFactor stmt list" where
  "factor_stmts =
     [assign get_Str (\<lambda>v f. f\<lparr>rf_name := v\<rparr>), assign get_Dbl (\<lambda>v f. f\<lparr>rf_weight := v\<rparr>),
      assign get_Dbl (\<lambda>v f. f\<lparr>rf_value := v\<rparr>), assign get_Str (\<lambda>v f. f\<lparr>rf_detail := v\<rparr>)]"

definition EncodePlan :: "CompositionPlan \<Rightarrow> encoding" where
  "EncodePlan p = emit
     [put_U64 (Value (pl_id p)), put_U64 (gen_Value (pl_generation p)), EncodeGraph (pl_graph p),
      put_vector (\<lambda>n. put_U64 (Value n)) (pl_nodes p), EncodeRequest (pl_request p),
      put_Dbl (rk_total (pl_rank p)), put_vector encode_factor (rk_factors (pl_rank p)),
      EncodeAuthority (pl_authority p), put_U32 (CompositionLifecycle_value (pl_lifecycle p)),
      put_vector EncodePath (pl_paths p)]"

definition plan_stmts :: "CompositionPlan stmt list" where
  "plan_stmts =
     [assign get_U64 (\<lambda>v p. p\<lparr>pl_id := StrongId v\<rparr>),
      assign get_U64 (\<lambda>v p. p\<lparr>pl_generation := StrongGeneration v\<rparr>),
      decode_field DecodeGraph pl_graph (\<lambda>v p. p\<lparr>pl_graph := v\<rparr>),
      for_count (assign get_U64 (\<lambda>v. push_back pl_nodes_update (StrongId v))),
      decode_field DecodeRequest pl_request (\<lambda>v p. p\<lparr>pl_request := v\<rparr>),
      assign get_Dbl (\<lambda>v p. p\<lparr>pl_rank := (pl_rank p)\<lparr>rk_total := v\<rparr>\<rparr>),
      for_count (decode_element RankingFactor_default (run_stmts factor_stmts)
        (push_back (\<lambda>f. pl_rank_update (rk_factors_update f)))),
      decode_field DecodeAuthority pl_authority (\<lambda>v p. p\<lparr>pl_authority := v\<rparr>),
      assign_enum (read_enum CompositionLifecycle_value CompositionLifecycle_table CompositionLifecycle_max)
        (\<lambda>v p. p\<lparr>pl_lifecycle := v\<rparr>),
      for_count (decode_element PathEvidence_default DecodePath (push_back pl_paths_update))]"

definition DecodePlan :: "CompositionPlan stmt" where
  "DecodePlan = run_stmts (plan_stmts @ [return_ok])"

definition encode_composition ::
    "string \<Rightarrow> (CompositionRequest \<Rightarrow> encoding) \<Rightarrow> encoding list \<Rightarrow> Composition \<Rightarrow> encoding" where
  "encode_composition what enc_request tail c = emit
     ([put_U64 (Value (c_id c)), put_U64 (gen_Value (c_generation c)),
       put_U64 (Value (c_resource_set_id c)), put_U64 (gen_Value (c_resource_set_generation c)),
       put_vector (\<lambda>n. put_U64 (Value n)) (c_nodes c),
       enc_request (c_request c), encode_graph what (c_graph c), EncodeAuthority (c_authority c),
       put_U32 (CompositionLifecycle_value (c_lifecycle c)), put_U64 (Value (c_reservation c)),
       put_U32 (CompositionOutcome_value (c_outcome c)), put_Dbl (rk_total (c_rank c)),
       put_vector (encode_path what) (c_paths c)] @ tail)"

definition composition_stmts :: "CompositionRequest stmt \<Rightarrow> Composition stmt list \<Rightarrow> Composition stmt list" where
  "composition_stmts dec_request tail =
     [assign get_U64 (\<lambda>v c. c\<lparr>c_id := StrongId v\<rparr>),
      assign get_U64 (\<lambda>v c. c\<lparr>c_generation := StrongGeneration v\<rparr>),
      assign get_U64 (\<lambda>v c. c\<lparr>c_resource_set_id := StrongId v\<rparr>),
      assign get_U64 (\<lambda>v c. c\<lparr>c_resource_set_generation := StrongGeneration v\<rparr>),
      for_count (assign get_U64 (\<lambda>v. push_back c_nodes_update (StrongId v))),
      decode_field dec_request c_request (\<lambda>v c. c\<lparr>c_request := v\<rparr>),
      decode_field DecodeGraph c_graph (\<lambda>v c. c\<lparr>c_graph := v\<rparr>),
      decode_field DecodeAuthority c_authority (\<lambda>v c. c\<lparr>c_authority := v\<rparr>),
      assign_enum (read_enum CompositionLifecycle_value CompositionLifecycle_table CompositionLifecycle_max)
        (\<lambda>v c. c\<lparr>c_lifecycle := v\<rparr>),
      assign get_U64 (\<lambda>v c. c\<lparr>c_reservation := StrongId v\<rparr>),
      assign_enum (read_enum CompositionOutcome_value CompositionOutcome_table CompositionOutcome_max)
        (\<lambda>v c. c\<lparr>c_outcome := v\<rparr>),
      assign get_Dbl (\<lambda>v c. c\<lparr>c_rank := (c_rank c)\<lparr>rk_total := v\<rparr>\<rparr>),
      for_count (decode_element PathEvidence_default DecodePath (push_back c_paths_update))] @ tail"

definition EncodeComposition :: "Composition \<Rightarrow> encoding" where
  "EncodeComposition c = encode_composition wire_long EncodeRequest [put_Str wire_long (c_explanation c)] c"

definition DecodeComposition :: "Composition stmt" where
  "DecodeComposition =
     run_stmts (composition_stmts DecodeRequest [assign get_Str (\<lambda>v c. c\<lparr>c_explanation := v\<rparr>)] @ [return_ok])"

definition ReservationItem_default :: ReservationItem where
  "ReservationItem_default = \<lparr>it_resource = StrongId 0, it_state = RS_NONE, it_reserved_amount = 0\<rparr>"

definition encode_item :: "ReservationItem \<Rightarrow> encoding" where
  "encode_item it = emit
     [put_U64 (Value (it_resource it)), put_U32 (ReservationState_value (it_state it)), put_Dbl (it_reserved_amount it)]"

definition item_stmts :: "ReservationItem stmt list" where
  "item_stmts =
     [assign get_U64 (\<lambda>v it. it\<lparr>it_resource := StrongId v\<rparr>),
      assign_enum (read_enum ReservationState_value ReservationState_table ReservationState_max) (\<lambda>v it. it\<lparr>it_state := v\<rparr>),
      assign get_Dbl (\<lambda>v it. it\<lparr>it_reserved_amount := v\<rparr>)]"

definition EncodeReservation :: "Reservation \<Rightarrow> encoding" where
  "EncodeReservation r = emit
     [put_U64 (Value (rv_id r)), put_U64 (gen_Value (rv_generation r)), put_U64 (Value (rv_composition r)),
      put_vector encode_item (rv_items r), put_U32 (ReservationState_value (rv_state r))]"

definition DecodeReservation :: "Reservation stmt" where
  "DecodeReservation = run_stmts
     [assign get_U64 (\<lambda>v r. r\<lparr>rv_id := StrongId v\<rparr>),
      assign get_U64 (\<lambda>v r. r\<lparr>rv_generation := StrongGeneration v\<rparr>),
      assign get_U64 (\<lambda>v r. r\<lparr>rv_composition := StrongId v\<rparr>),
      for_count (decode_element ReservationItem_default (run_stmts item_stmts) (push_back rv_items_update)),
      assign_enum (read_enum ReservationState_value ReservationState_table ReservationState_max) (\<lambda>v r. r\<lparr>rv_state := v\<rparr>),
      return_ok]"

section \<open>What fits the format\<close>

definition evidence_fits :: "Evidence \<Rightarrow> bool" where
  "evidence_fits e \<longleftrightarrow> ValidEnum EvidenceSource_max (EvidenceSource_value (ev_source e)) \<and>
     ValidEnum EvidenceState_max (EvidenceState_value (ev_state e)) \<and>
     length (ev_provenance e) \<le> 32768 \<and> length (ev_owner e) \<le> 32768"

definition capability_fits :: "Capability \<Rightarrow> bool" where
  "capability_fits c \<longleftrightarrow> ValidEnum CapabilityKind_max (CapabilityKind_value (cb_kind c)) \<and>
     ValidEnum CapabilityState_max (CapabilityState_value (cb_state c)) \<and> length (cb_detail c) \<le> 32768"

definition compatibility_fits :: "Compatibility \<Rightarrow> bool" where
  "compatibility_fits c \<longleftrightarrow> length (ct_pins c) \<le> 1048576 \<and>
     (\<forall>p \<in> set (ct_pins c). length (pin_name p) \<le> 32768 \<and> length (pin_value p) \<le> 32768)"

definition entries_fits :: "(string, double) omap \<Rightarrow> bool" where
  "entries_fits m \<longleftrightarrow> om_ok m \<and> length m \<le> 1048576 \<and> (\<forall>e \<in> set m. length (fst e) \<le> 32768)"

definition capacity_fits :: "Capacity \<Rightarrow> bool" where
  "capacity_fits c \<longleftrightarrow> entries_fits (cp_extra c)"

definition locality_fits :: "Locality \<Rightarrow> bool" where
  "locality_fits l \<longleftrightarrow> length (lo_coords l) \<le> 1048576 \<and> entries_fits (lo_tags l)"

definition domain_fits :: "FailureDomain \<Rightarrow> bool" where
  "domain_fits d \<longleftrightarrow> ValidEnum FailureDomainType_max (FailureDomainType_value (fd_type d)) \<and> length (fd_name d) \<le> 32768"

definition resource_fits :: "Resource \<Rightarrow> bool" where
  "resource_fits r \<longleftrightarrow>
     ValidEnum ResourceClass_max (ResourceClass_value (r_resource_class r)) \<and>
     ValidEnum ResourceHealth_max (ResourceHealth_value (r_health r)) \<and>
     ValidEnum Readiness_max (Readiness_value (r_readiness r)) \<and>
     ValidEnum Reachability_max (Reachability_value (r_reachability r)) \<and>
     length (r_provider r) \<le> 32768 \<and> length (r_authority_owner r) \<le> 32768 \<and>
     capacity_fits (r_capacity r) \<and> locality_fits (r_locality r) \<and> domain_fits (r_failure_domain r) \<and>
     evidence_fits (r_evidence r) \<and>
     length (r_capabilities r) \<le> 1048576 \<and> (\<forall>c \<in> set (r_capabilities r). capability_fits c) \<and>
     length (r_compatibility r) \<le> 1048576 \<and> (\<forall>c \<in> set (r_compatibility r). compatibility_fits c)"

definition node_fits :: "Node \<Rightarrow> bool" where
  "node_fits n \<longleftrightarrow>
     ValidEnum BackendKind_max (BackendKind_value (n_backend n)) \<and>
     ValidEnum Reachability_max (Reachability_value (n_reachability n)) \<and>
     ValidEnum ResourceHealth_max (ResourceHealth_value (n_health n)) \<and>
     ValidEnum NodeLifecycle_max (NodeLifecycle_value (n_lifecycle n)) \<and>
     length (n_hostname n) \<le> 32768 \<and> length (n_provider n) \<le> 32768 \<and> length (n_worker_owner n) \<le> 32768 \<and>
     length (n_inventory n) \<le> 1048576 \<and> domain_fits (n_failure_domain n) \<and> locality_fits (n_locality n)"

definition path_fits :: "PathEvidence \<Rightarrow> bool" where
  "path_fits p \<longleftrightarrow> length (pr_protocol (pe_requirement p)) \<le> 32768 \<and> length (pe_provider p) \<le> 32768 \<and>
     length (pe_source p) \<le> 32768 \<and> evidence_fits (pe_evidence p)"

definition graph_fits :: "ResourceGraph \<Rightarrow> bool" where
  "graph_fits g \<longleftrightarrow> length (g_vertices g) \<le> 1048576 \<and> length (g_edges g) \<le> 1048576 \<and>
     (\<forall>e \<in> set (g_edges g). length (e_protocol e) \<le> 32768 \<and> length (e_compat_facet e) \<le> 32768)"

definition authority_fits :: "AuthorityTuple \<Rightarrow> bool" where
  "authority_fits a \<longleftrightarrow> length (au_worker_boots a) \<le> 1048576 \<and> length (au_node_generations a) \<le> 1048576 \<and>
     length (au_resource_generations a) \<le> 1048576 \<and> length (au_path_generations a) \<le> 1048576 \<and>
     length (au_capability_generations a) \<le> 1048576 \<and> length (au_compatibility_generations a) \<le> 1048576 \<and>
     length (au_evidence_generations a) \<le> 1048576 \<and> length (au_reservation_generations a) \<le> 1048576"

definition request_fits :: "CompositionRequest \<Rightarrow> bool" where
  "request_fits q \<longleftrightarrow> length (rq_accelerator_architectures q) \<le> 1048576 \<and>
     (\<forall>a \<in> set (rq_accelerator_architectures q). length a \<le> 32768) \<and>
     RC_UNKNOWN \<notin> rq_mandatory_classes q \<and> RC_UNKNOWN \<notin> rq_optional_classes q"

definition plan_fits :: "CompositionPlan \<Rightarrow> bool" where
  "plan_fits p \<longleftrightarrow> graph_fits (pl_graph p) \<and> length (pl_nodes p) \<le> 1048576 \<and> request_fits (pl_request p) \<and>
     length (rk_factors (pl_rank p)) \<le> 1048576 \<and>
     (\<forall>f \<in> set (rk_factors (pl_rank p)). length (rf_name f) \<le> 32768 \<and> length (rf_detail f) \<le> 32768) \<and>
     authority_fits (pl_authority p) \<and> length (pl_paths p) \<le> 1048576 \<and> (\<forall>x \<in> set (pl_paths p). path_fits x)"

definition composition_fits :: "Composition \<Rightarrow> bool" where
  "composition_fits c \<longleftrightarrow> length (c_nodes c) \<le> 1048576 \<and> request_fits (c_request c) \<and> graph_fits (c_graph c) \<and>
     authority_fits (c_authority c) \<and> length (c_paths c) \<le> 1048576 \<and> (\<forall>x \<in> set (c_paths c). path_fits x)"

definition reservation_fits :: "Reservation \<Rightarrow> bool" where
  "reservation_fits r \<longleftrightarrow> rv_state r \<noteq> RS_NONE \<and> length (rv_items r) \<le> 1048576 \<and>
     (\<forall>it \<in> set (rv_items r). it_state it \<noteq> RS_NONE)"

lemmas enum_reads =
  ResourceClass_enum.read_value CapabilityKind_enum.read_value CapabilityState_enum.read_value
  ResourceHealth_enum.read_value Readiness_enum.read_value Reachability_enum.read_value
  EvidenceState_enum.read_value EvidenceSource_enum.read_value NodeLifecycle_enum.read_value
  FailureDomainType_enum.read_value BackendKind_enum.read_value CompositionLifecycle_enum.read_value
  CompositionOutcome_enum.read_value ReservationState_enum.read_value GraphEdgeKind_enum.read_value

lemmas codes_intros =
  codes_Cons codes_assign codes_enum gets_U8 gets_U32 gets_U64 gets_Dbl gets_Str gets_bool

lemma codes_evidence:
  assumes "evidence_fits e"
  shows "codes (encode_evidence what e) (run_stmts evidence_stmts) (\<lambda>_. e)"
  unfolding encode_evidence_def evidence_stmts_def
  by (rule codes_conv, (rule codes_intros codes_Nil | use assms in \<open>simp add: evidence_fits_def enum_reads; fail\<close>)+)


lemma codes_capability:
  assumes "capability_fits c"
  shows "codes (encode_capability what c) (run_stmts capability_stmts) (\<lambda>_. c)"
  unfolding encode_capability_def capability_stmts_def
  by (rule codes_conv, (rule codes_intros codes_Nil | use assms in \<open>simp add: capability_fits_def enum_reads; fail\<close>)+)

lemma codes_pin:
  assumes "length (pin_name p) \<le> 32768" "length (pin_value p) \<le> 32768"
  shows "codes (encode_pin what p) (run_stmts pin_stmts) (\<lambda>_. p)"
  unfolding encode_pin_def pin_stmts_def
  by (rule codes_conv, (rule codes_intros codes_Nil | use assms in \<open>simp; fail\<close>)+)

lemma codes_compatibility:
  assumes "compatibility_fits c"
  shows "codes (encode_compatibility what c) (run_stmts compatibility_stmts)
    (\<lambda>x. c\<lparr>ct_pins := ct_pins x @ ct_pins c\<rparr>)"
  unfolding encode_compatibility_def compatibility_stmts_def
  by (rule codes_conv, (rule codes_intros codes_Nil codes_push_element codes_pin |
      use assms in \<open>simp add: compatibility_fits_def updater_def; fail\<close>)+)

section \<open>Round trips\<close>

lemma codes_capacity:
  assumes "capacity_fits c"
  shows "codes (encode_capacity what (put_vector (put_entry what)) c) (run_stmts capacity_stmts)
    (\<lambda>x. c\<lparr>cp_extra := fold (\<lambda>e. om_put (fst e) (snd e)) (cp_extra c) (cp_extra x)\<rparr>)"
  unfolding encode_capacity_def capacity_stmts_def
  by (rule codes_conv, (rule codes_intros codes_Nil codes_entries |
      use assms in \<open>simp add: capacity_fits_def entries_fits_def updater_def; fail\<close>)+)

lemma codes_locality:
  assumes "locality_fits l"
  shows "codes (encode_locality what l) (run_stmts locality_stmts)
    (\<lambda>x. \<lparr>lo_coords = lo_coords x @ lo_coords l, lo_tags = fold (\<lambda>e. om_put (fst e) (snd e)) (lo_tags l) (lo_tags x)\<rparr>)"
  unfolding encode_locality_def locality_stmts_def
  by (rule codes_conv, (rule codes_intros codes_Nil codes_entries codes_push |
      use assms in \<open>simp add: locality_fits_def entries_fits_def updater_def; fail\<close>)+)

lemma codes_domain:
  assumes "domain_fits d"
  shows "codes (encode_domain what d) (run_stmts domain_stmts) (\<lambda>x. d\<lparr>fd_locality_coords := fd_locality_coords x\<rparr>)"
  unfolding encode_domain_def domain_stmts_def
  by (rule codes_conv, (rule codes_intros codes_Nil | use assms in \<open>simp add: domain_fits_def enum_reads; fail\<close>)+)

definition resource_read :: "Resource \<Rightarrow> Resource" where
  "resource_read r = r\<lparr>r_failure_domain := (r_failure_domain r)\<lparr>fd_locality_coords := []\<rparr>\<rparr>"

lemma codes_resource:
  assumes "resource_fits r"
    and "codes (encode_evidence what (r_evidence r)) dec_evidence (\<lambda>_. r_evidence r)"
    and "\<And>c. capability_fits c \<Longrightarrow> codes (encode_capability what c) dec_capability (\<lambda>_. c)"
    and "\<And>c. compatibility_fits c \<Longrightarrow>
      codes (encode_compatibility what c) dec_compatibility (\<lambda>x. c\<lparr>ct_pins := ct_pins x @ ct_pins c\<rparr>)"
  shows "\<exists>u. codes (encode_resource what (put_vector (put_entry what)) r)
     (run_stmts (resource_stmts dec_evidence dec_capability dec_compatibility)) u \<and> u Resource_default = resource_read r"
  unfolding encode_resource_def resource_stmts_def
  by (intro exI conjI, (rule codes_intros codes_Nil codes_field codes_capacity codes_locality codes_domain assms(2-)
        codes_push_element | use assms(1) in \<open>simp add: resource_fits_def enum_reads updater_def; fail\<close>)+,
      use assms(1) in \<open>simp add: Resource_default_def Capacity_default_def Locality_default_def FailureDomain_default_def
        Compatibility_default_def resource_read_def resource_fits_def capacity_fits_def locality_fits_def entries_fits_def\<close>)

definition node_read :: "Node \<Rightarrow> Node" where
  "node_read n = n\<lparr>n_failure_domain := (n_failure_domain n)\<lparr>fd_locality_coords := []\<rparr>\<rparr>"

lemma codes_node:
  assumes "node_fits n"
  shows "\<exists>u. codes (encode_node what n) (run_stmts node_stmts) u \<and> u Node_default = node_read n"
  unfolding encode_node_def node_stmts_def
  by (intro exI conjI, (rule codes_intros codes_Nil codes_field codes_locality codes_domain codes_push |
        use assms in \<open>simp add: node_fits_def enum_reads updater_def; fail\<close>)+,
      use assms in \<open>simp add: Node_default_def Locality_default_def FailureDomain_default_def
        node_read_def node_fits_def locality_fits_def entries_fits_def\<close>)

lemma codes_path:
  assumes "path_fits p"
  shows "codes (encode_path what p) DecodePath (\<lambda>_. p)"
  unfolding encode_path_def DecodePath_def path_stmts_def DecodeEvidence_def
  by (rule codes_conv, (rule codes_intros codes_Nil codes_field codes_returning codes_evidence |
      use assms in \<open>simp add: path_fits_def; fail\<close>)+)

lemma codes_edge:
  assumes "length (e_protocol e) \<le> 32768" "length (e_compat_facet e) \<le> 32768"
  shows "codes (encode_edge what e) (run_stmts edge_stmts) (\<lambda>_. e)"
proof -
  have "ValidEnum GraphEdgeKind_max (GraphEdgeKind_value (e_kind e))"
    by (cases "e_kind e") (simp_all add: ValidEnum_def GraphEdgeKind_max_def)
  then show ?thesis unfolding encode_edge_def edge_stmts_def
    by - (rule codes_conv, (rule codes_intros codes_Nil | use assms in \<open>simp add: enum_reads; fail\<close>)+)
qed

lemma codes_graph:
  assumes "graph_fits g"
  shows "codes (encode_graph what g) (run_stmts graph_stmts)
    (\<lambda>x. \<lparr>g_vertices = g_vertices x @ g_vertices g, g_edges = g_edges x @ g_edges g\<rparr>)"
  unfolding encode_graph_def graph_stmts_def
  by (rule codes_conv, (rule codes_intros codes_Nil codes_push codes_push_element codes_edge |
      use assms in \<open>simp add: graph_fits_def updater_def; fail\<close>)+)

lemma codes_authority:
  assumes "authority_fits a"
  shows "\<exists>u. codes (EncodeAuthority a) DecodeAuthority u \<and> u AuthorityTuple_default = a"
  unfolding EncodeAuthority_def DecodeAuthority_def authority_stmts_def
  by (intro exI conjI, (rule codes_returning codes_intros codes_Nil codes_push |
        use assms in \<open>simp add: authority_fits_def updater_def; fail\<close>)+,
      simp add: AuthorityTuple_default_def)

definition request_read :: "CompositionRequest \<Rightarrow> CompositionRequest" where
  "request_read q = q\<lparr>rq_failure_domain := FailureDomainConstraint_default, rq_constraints := []\<rparr>"

lemma known_class: "c \<noteq> RC_UNKNOWN \<Longrightarrow> ValidEnum ResourceClass_max (ResourceClass_value c)"
  by (cases c) (simp_all add: ValidEnum_def ResourceClass_max_def)

lemma finite_classes [simp]: "finite (A :: ResourceClass set)"
  by (rule finite_subset [of _ "set ResourceClass_table"]) auto

lemma few_classes: "card (A :: ResourceClass set) \<le> 1048576"
proof -
  have "card A \<le> card (set ResourceClass_table)" by (rule card_mono) auto
  also have "\<dots> \<le> length ResourceClass_table" by (rule card_length)
  also have "\<dots> \<le> 1048576" by (simp add: ResourceClass_table_def)
  finally show ?thesis .
qed

lemma codes_classes:
  assumes "RC_UNKNOWN \<notin> A" "updater field"
  shows "codes (put_vector (\<lambda>c. put_U32 (ResourceClass_value c)) (sorted_list_of_set A))
    (for_count (assign_enum (read_enum ResourceClass_value ResourceClass_table ResourceClass_max) (insert_into field)))
    (field (\<lambda>s. A \<union> s))"
proof -
  have "read_enum ResourceClass_value ResourceClass_table ResourceClass_max (ResourceClass_value c) = Some c"
    if "c \<in> set (sorted_list_of_set A)" for c
    using that assms(1) known_class [of c] by (auto simp: enum_reads)
  then show ?thesis
    using codes_insert [of "sorted_list_of_set A" _ ResourceClass_value, OF _ _ assms(2)] few_classes [of A] by simp
qed

lemma codes_request:
  assumes "request_fits q"
  shows "\<exists>u. codes (EncodeRequest q) DecodeRequest u \<and> u CompositionRequest_default = request_read q"
  unfolding EncodeRequest_def DecodeRequest_def encode_request_def request_stmts_def append.simps append_assoc
  by (intro exI conjI, (rule codes_intros codes_return codes_push codes_classes |
        use assms in \<open>simp add: request_fits_def updater_def; fail\<close>)+,
      simp add: CompositionRequest_default_def request_read_def FailureDomainConstraint_default_def)

lemma codes_factor:
  assumes "length (rf_name f) \<le> 32768" "length (rf_detail f) \<le> 32768"
  shows "codes (encode_factor f) (run_stmts factor_stmts) (\<lambda>_. f)"
  unfolding encode_factor_def factor_stmts_def
  by (rule codes_conv, (rule codes_intros codes_Nil | use assms in \<open>simp; fail\<close>)+)

definition plan_read :: "CompositionPlan \<Rightarrow> CompositionPlan" where
  "plan_read p = p\<lparr>pl_request := request_read (pl_request p)\<rparr>"

lemma known_lifecycle: "ValidEnum CompositionLifecycle_max (CompositionLifecycle_value l)"
  by (cases l) (simp_all add: ValidEnum_def CompositionLifecycle_max_def)

lemma known_outcome: "ValidEnum CompositionOutcome_max (CompositionOutcome_value l)"
  by (cases l) (simp_all add: ValidEnum_def CompositionOutcome_max_def)

lemma codes_plan:
  assumes "plan_fits p"
  shows "\<exists>u. codes (EncodePlan p) DecodePlan u \<and> u CompositionPlan_default = plan_read p"
proof -
  obtain uq where uq: "codes (EncodeRequest (pl_request p)) DecodeRequest uq"
      "uq CompositionRequest_default = request_read (pl_request p)"
    using codes_request [of "pl_request p"] assms by (auto simp: plan_fits_def)
  obtain ua where ua: "codes (EncodeAuthority (pl_authority p)) DecodeAuthority ua" "ua AuthorityTuple_default = pl_authority p"
    using codes_authority [of "pl_authority p"] assms by (auto simp: plan_fits_def)
  show ?thesis
    unfolding EncodePlan_def DecodePlan_def plan_stmts_def EncodeGraph_def DecodeGraph_def EncodePath_def append.simps
    by (intro exI conjI, (rule codes_intros codes_return codes_field codes_push codes_push_element uq(1) ua(1)
          codes_returning [OF codes_graph] codes_factor codes_path |
          use assms in \<open>simp add: plan_fits_def updater_def enum_reads known_lifecycle; fail\<close>)+,
        simp add: CompositionPlan_default_def plan_read_def uq(2) ua(2) ResourceGraph_default_def RankScore_default_def)
qed

definition composition_read :: "Composition \<Rightarrow> Composition" where
  "composition_read c = c\<lparr>c_request := request_read (c_request c), c_rank := (c_rank c)\<lparr>rk_factors := []\<rparr>\<rparr>"

lemma codes_composition:
  assumes "composition_fits c"
    and uq: "codes (enc_request (c_request c)) dec_request uq" "uq CompositionRequest_default = q"
    and tail: "codes (emit es) (run_stmts tail) ut"
  shows "\<exists>u. codes (encode_composition what enc_request es c) (run_stmts (composition_stmts dec_request tail)) u \<and>
    u Composition_default = ut (c\<lparr>c_request := q, c_rank := (c_rank c)\<lparr>rk_factors := []\<rparr>, c_explanation := []\<rparr>)"
proof -
  obtain ua where ua: "codes (EncodeAuthority (c_authority c)) DecodeAuthority ua" "ua AuthorityTuple_default = c_authority c"
    using codes_authority [of "c_authority c"] assms(1) by (auto simp: composition_fits_def)
  show ?thesis
    unfolding encode_composition_def composition_stmts_def DecodeGraph_def append.simps
    by (intro exI conjI, (rule codes_intros tail codes_field codes_push codes_push_element uq(1) ua(1)
          codes_returning [OF codes_graph] codes_path |
          use assms(1) in \<open>simp add: composition_fits_def updater_def enum_reads known_lifecycle known_outcome; fail\<close>)+,
        simp add: Composition_default_def uq(2) ua(2) ResourceGraph_default_def RankScore_default_def,
        rule arg_cong [where f = ut], simp)
qed

lemma codes_item: "it_state it \<noteq> RS_NONE \<Longrightarrow> codes (encode_item it) (run_stmts item_stmts) (\<lambda>_. it)"
proof -
  assume "it_state it \<noteq> RS_NONE"
  then have "ValidEnum ReservationState_max (ReservationState_value (it_state it))"
    by (cases "it_state it") (simp_all add: ValidEnum_def ReservationState_max_def)
  then show ?thesis unfolding encode_item_def item_stmts_def
    by - (rule codes_conv, (rule codes_intros codes_Nil | simp add: enum_reads; fail)+)
qed

lemma codes_reservation:
  assumes "reservation_fits r"
  shows "\<exists>u. codes (EncodeReservation r) DecodeReservation u \<and> u Reservation_default = r"
proof -
  have "ValidEnum ReservationState_max (ReservationState_value (rv_state r))"
    using assms by (cases "rv_state r") (simp_all add: ValidEnum_def ReservationState_max_def reservation_fits_def)
  then show ?thesis
    unfolding EncodeReservation_def DecodeReservation_def
    by - (intro exI conjI, (rule codes_intros codes_return codes_push_element codes_item |
          use assms in \<open>simp add: reservation_fits_def updater_def enum_reads; fail\<close>)+,
        simp add: Reservation_default_def)
qed

section \<open>Correctness of the codec\<close>

lemma wire_resource:
  assumes "resource_fits r"
  shows "\<exists>u. codes (EncodeResource r) DecodeResource u \<and> u Resource_default = resource_read r"
proof -
  have "codes (encode_evidence wire_long (r_evidence r)) DecodeEvidence (\<lambda>_. r_evidence r)"
    using assms unfolding DecodeEvidence_def by (intro codes_returning codes_evidence) (simp add: resource_fits_def)
  moreover have "codes (encode_capability wire_long c) DecodeCapability (\<lambda>_. c)" if "capability_fits c" for c
    using that unfolding DecodeCapability_def by (intro codes_returning codes_capability)
  moreover have "codes (encode_compatibility wire_long c) DecodeCompatibility (\<lambda>x. c\<lparr>ct_pins := ct_pins x @ ct_pins c\<rparr>)"
    if "compatibility_fits c" for c
    using that unfolding DecodeCompatibility_def by (intro codes_returning codes_compatibility)
  ultimately have "\<exists>u. codes (EncodeResource r)
      (run_stmts (resource_stmts DecodeEvidence DecodeCapability DecodeCompatibility)) u \<and> u Resource_default = resource_read r"
    unfolding EncodeResource_def by (intro codes_resource [OF assms])
  then show ?thesis unfolding DecodeResource_def by (blast intro: codes_returning)
qed

lemma wire_node:
  assumes "node_fits n"
  shows "\<exists>u. codes (EncodeNode n) DecodeNode u \<and> u Node_default = node_read n"
  using codes_node [OF assms, of wire_long] unfolding EncodeNode_def DecodeNode_def by (blast intro: codes_returning)

lemma wire_composition:
  assumes "composition_fits c" "length (c_explanation c) \<le> 32768"
  shows "\<exists>u. codes (EncodeComposition c) DecodeComposition u \<and> u Composition_default = composition_read c"
proof -
  obtain uq where uq: "codes (EncodeRequest (c_request c)) DecodeRequest uq"
      "uq CompositionRequest_default = request_read (c_request c)"
    using codes_request [of "c_request c"] assms(1) by (auto simp: composition_fits_def)
  have "codes (emit [put_Str wire_long (c_explanation c)]) (run_stmts [assign get_Str (\<lambda>v c. c\<lparr>c_explanation := v\<rparr>)])
      (\<lambda>x. x\<lparr>c_explanation := c_explanation c\<rparr>)"
    by (rule codes_last [OF codes_assign [OF gets_Str [OF assms(2)]]])
  from codes_composition [where enc_request = EncodeRequest, OF assms(1) uq this, of wire_long]
  obtain u where "codes (EncodeComposition c)
      (run_stmts (composition_stmts DecodeRequest [assign get_Str (\<lambda>v c. c\<lparr>c_explanation := v\<rparr>)])) u"
      "u Composition_default = composition_read c"
    unfolding EncodeComposition_def composition_read_def by auto
  then show ?thesis unfolding DecodeComposition_def by (blast intro: codes_returning)
qed

lemma decoders_check_end:
  "checks_end DecodeResource" "checks_end DecodeNode" "checks_end DecodeRequest" "checks_end DecodePlan"
  "checks_end DecodeComposition" "checks_end DecodeReservation"
  unfolding DecodeResource_def DecodeNode_def DecodeRequest_def DecodePlan_def DecodeComposition_def DecodeReservation_def
  by (rule checks_end_run; simp)+

interpretation resource_wire: wire_format EncodeResource DecodeResource Resource_default resource_fits resource_read
  by unfold_locales (simp_all add: wire_resource decoders_check_end)

interpretation node_wire: wire_format EncodeNode DecodeNode Node_default node_fits node_read
  by unfold_locales (simp_all add: wire_node decoders_check_end)

interpretation plan_wire: wire_format EncodePlan DecodePlan CompositionPlan_default plan_fits plan_read
  by unfold_locales (simp_all add: codes_plan decoders_check_end)

interpretation composition_wire: wire_format EncodeComposition DecodeComposition Composition_default
  "\<lambda>c. composition_fits c \<and> length (c_explanation c) \<le> 32768" composition_read
  by unfold_locales (simp_all add: wire_composition decoders_check_end)

interpretation reservation_wire: wire_format EncodeReservation DecodeReservation Reservation_default reservation_fits "\<lambda>v. v"
  using codes_reservation by unfold_locales (auto simp: decoders_check_end)

definition ex_wire_resource :: Resource where
  "ex_wire_resource = (ex_resource 1 RC_ACCELERATOR)
     \<lparr>r_failure_domain := FailureDomain_default\<lparr>fd_id := StrongId 5, fd_type := FD_HOST, fd_name := ''host-1''\<rparr>,
      r_capabilities := [\<lparr>cb_kind = CK_ARCH_GENERATION, cb_state = CS_SUPPORTED, cb_generation = StrongGeneration 1,
        cb_evidence = StrongId 1, cb_detail = ''12.0''\<rparr>],
      r_locality := \<lparr>lo_coords = [d_1, d_10], lo_tags = [(''numa'', d_1)]\<rparr>\<rparr>"

definition ex_wire_node :: Node where
  "ex_wire_node = ex_node\<lparr>n_backend := BK_SYNTHETIC, n_reachability := RB_REACHABLE, n_health := RH_HEALTHY,
     n_lifecycle := NL_VALIDATED, n_failure_domain := r_failure_domain ex_wire_resource, n_inventory := [StrongId 1]\<rparr>"

definition ex_wire_composition :: Composition where
  "ex_wire_composition = Composition_default\<lparr>c_id := StrongId 1, c_graph := pl_graph ex_plan,
     c_request := pl_request ex_plan, c_lifecycle := CL_ACTIVE, c_explanation := ''ok''\<rparr>"

definition ex_wire_reservation :: Reservation where
  "ex_wire_reservation = \<lparr>rv_id = StrongId 1, rv_generation = StrongGeneration 1, rv_composition = StrongId 1,
     rv_items = [\<lparr>it_resource = StrongId 1, it_state = RS_PROVISIONAL, it_reserved_amount = d_1\<rparr>], rv_state = RS_PROVISIONAL\<rparr>"

text \<open>
  C14. The messages of the fabric survive the wire: a resource, a node, a plan, a composition and a
  reservation within the format's limits are read back as they were written, except for the
  fields the encoders leave out (the coordinates of a failure domain; the topology constraint and the
  numeric constraints of a request; the rank factors of a composition), which get their defaults.
  No truncated encoding of them is accepted.
\<close>

theorem wire_round_trip:
  assumes "resource_fits r" "node_fits n" "plan_fits p" "composition_fits c" "length (c_explanation c) \<le> 32768"
    "reservation_fits v"
  shows "round_trips (EncodeResource r) DecodeResource Resource_default (resource_read r) \<and>
    round_trips (EncodeNode n) DecodeNode Node_default (node_read n) \<and>
    round_trips (EncodePlan p) DecodePlan CompositionPlan_default (plan_read p) \<and>
    round_trips (EncodeComposition c) DecodeComposition Composition_default (composition_read c) \<and>
    round_trips (EncodeReservation v) DecodeReservation Reservation_default v"
  using assms by (intro conjI resource_wire.round_trip node_wire.round_trip plan_wire.round_trip composition_wire.round_trip
      reservation_wire.round_trip)

lemmas format_limits = resource_fits_def node_fits_def plan_fits_def composition_fits_def reservation_fits_def capacity_fits_def
  locality_fits_def domain_fits_def evidence_fits_def capability_fits_def compatibility_fits_def entries_fits_def graph_fits_def
  authority_fits_def request_fits_def path_fits_def om_ok_def ValidEnum_def

lemmas model_defaults = Resource_default_def Node_default_def Capacity_default_def Locality_default_def
  FailureDomain_default_def Evidence_default_def CompositionRequest_default_def AuthorityTuple_default_def
  CompositionPlan_default_def Composition_default_def RankScore_default_def ResourceGraph_default_def

lemmas enum_maxima = ResourceClass_max_def CapabilityKind_max_def CapabilityState_max_def ResourceHealth_max_def
  Readiness_max_def Reachability_max_def EvidenceState_max_def EvidenceSource_max_def NodeLifecycle_max_def
  FailureDomainType_max_def BackendKind_max_def

theorem wire_round_trip_witness:
  "round_trips (EncodeResource ex_wire_resource) DecodeResource Resource_default (resource_read ex_wire_resource) \<and>
    round_trips (EncodeNode ex_wire_node) DecodeNode Node_default (node_read ex_wire_node) \<and>
    round_trips (EncodePlan ex_plan) DecodePlan CompositionPlan_default (plan_read ex_plan) \<and>
    round_trips (EncodeComposition ex_wire_composition) DecodeComposition Composition_default (composition_read ex_wire_composition) \<and>
    round_trips (EncodeReservation ex_wire_reservation) DecodeReservation Reservation_default ex_wire_reservation"
  by (rule wire_round_trip) (simp_all add: format_limits model_defaults enum_maxima ex_wire_resource_def ex_wire_node_def
      ex_wire_composition_def ex_wire_reservation_def ex_plan_def ex_resource_def ex_node_def ex_evidence_def)

text \<open>
  C32. No decoder reads outside its payload: whatever the bytes and whatever the object it fills, it only
  moves forward in the data it was given, and never past their end.
\<close>

theorem decoders_stay_inside:
  "confined DecodeResource \<and> confined DecodeNode \<and> confined DecodePath \<and> confined DecodeGraph \<and>
   confined DecodeAuthority \<and> confined DecodeRequest \<and> confined DecodePlan \<and> confined DecodeComposition \<and>
   confined DecodeReservation"
  unfolding DecodeResource_def DecodeNode_def DecodePath_def DecodeGraph_def DecodeAuthority_def DecodeRequest_def
    DecodePlan_def DecodeComposition_def DecodeReservation_def DecodeEvidence_def DecodeCapability_def DecodeCompatibility_def
    evidence_stmts_def capability_stmts_def compatibility_stmts_def pin_stmts_def resource_stmts_def capacity_stmts_def
    locality_stmts_def domain_stmts_def node_stmts_def path_stmts_def graph_stmts_def edge_stmts_def authority_stmts_def
    request_stmts_def plan_stmts_def factor_stmts_def composition_stmts_def item_stmts_def
  by (intro conjI confined_intros)

end
