(* ===== verification/Fabric_Eligibility.thy ===== *)
theory Fabric_Eligibility
  imports Fabric_Examples
begin

text \<open>
  \<open>src/dfabric/engine.cpp\<close>, lines 18--142 and 401--411: the class demands of a request,
  capacities by dimension, hard eligibility of one resource, the per-class score and the
  amount a reservation holds of a resource.  A check returns its verdict with the typed
  reasons and the notes it pushed, in order.
\<close>

section \<open>Demands and capacities\<close>

record ClassDemand =
  cd_cls :: ResourceClass
  cd_mandatory :: bool
  cd_amount_based :: bool
  cd_amount :: double
  cd_count :: u32
  cd_dimension :: string

definition PathKey :: "NodeId \<Rightarrow> NodeId \<Rightarrow> string" where
  "PathKey a b = id_ToString a @ ''->'' @ id_ToString b"

fun ClassCapabilityKinds :: "ResourceClass \<Rightarrow> CapabilityKind list" where
  "ClassCapabilityKinds RC_COMPUTE = [CK_CPU_EXECUTION]"
| "ClassCapabilityKinds RC_ACCELERATOR = [CK_CUDA_EXECUTION, CK_ROCM_EXECUTION, CK_CPU_EXECUTION]"
| "ClassCapabilityKinds RC_HOST_MEMORY = [CK_HOST_MEMORY_ACCESS]"
| "ClassCapabilityKinds RC_EXPANDED_MEMORY = [CK_EXPANDED_MEMORY_ACCESS]"
| "ClassCapabilityKinds RC_STORAGE = [CK_PERSISTENT_STORAGE]"
| "ClassCapabilityKinds RC_NETWORK_ENDPOINT = [CK_DIRECT_NETWORK_ACCESS, CK_NETWORK_PROTOCOL]"
| "ClassCapabilityKinds RC_NIC = [CK_DIRECT_NETWORK_ACCESS, CK_NETWORK_PROTOCOL]"
| "ClassCapabilityKinds RC_FABRIC_ENDPOINT = [CK_NETWORK_PROTOCOL, CK_RDMA_CAPABLE]"
| "ClassCapabilityKinds RC_DPU = [CK_CPU_EXECUTION, CK_DIRECT_NETWORK_ACCESS]"
| "ClassCapabilityKinds RC_SERVICE_ENDPOINT = [CK_CPU_EXECUTION, CK_NETWORK_PROTOCOL]"
| "ClassCapabilityKinds RC_CONTROL_PROCESS = [CK_CPU_EXECUTION, CK_NETWORK_PROTOCOL]"
| "ClassCapabilityKinds RC_OTHER_REGISTERED = [CK_CPU_EXECUTION, CK_NETWORK_PROTOCOL]"
| "ClassCapabilityKinds RC_UNKNOWN = []"

definition FindCapability :: "Resource \<Rightarrow> CapabilityKind \<Rightarrow> Capability option" where
  "FindCapability r kind = List.find (\<lambda>c. cb_kind c = kind) (r_capabilities r)"

definition CapabilitySupported :: "Resource \<Rightarrow> CapabilityKind \<Rightarrow> bool" where
  "CapabilitySupported r kind =
     (case FindCapability r kind of None \<Rightarrow> False | Some c \<Rightarrow> cb_state c = CS_SUPPORTED)"

definition CapacityForDimension :: "Resource \<Rightarrow> string \<Rightarrow> double" where
  "CapacityForDimension r dim =
     (if dim = ''compute_units'' then cp_compute_units (r_capacity r)
      else if dim = ''accelerator_memory_bytes'' then cp_accelerator_memory_bytes (r_capacity r)
      else if dim = ''host_memory_bytes'' then cp_host_memory_bytes (r_capacity r)
      else if dim = ''expanded_memory_bytes'' then cp_expanded_memory_bytes (r_capacity r)
      else if dim = ''storage_bytes'' then cp_storage_bytes (r_capacity r)
      else if dim = ''network_bandwidth_mbps'' then cp_network_bandwidth_mbps (r_capacity r)
      else case map_of (cp_extra (r_capacity r)) dim of None \<Rightarrow> 0 | Some v \<Rightarrow> v)"

section \<open>Hard eligibility\<close>

type_synonym verdict = "bool \<times> RejectionReason list \<times> string list"

definition accepted :: verdict where
  "accepted = (True, [], [])"

definition rejected :: "RejectionReason \<Rightarrow> string \<Rightarrow> verdict" where
  "rejected reason note = (False, [reason], [note])"

text \<open>The loop over the class capabilities: \<open>any_ok\<close>, \<open>any_claim\<close>, \<open>any_unknown\<close>.\<close>

definition scan_capabilities ::
  "Resource \<Rightarrow> CapabilityKind list \<Rightarrow> bool \<times> bool \<times> bool \<Rightarrow> bool \<times> bool \<times> bool" where
  "scan_capabilities res kinds flags =
     foldl (\<lambda>(any_ok, any_claim, any_unknown) kind.
        case FindCapability res kind of
          None \<Rightarrow> (any_ok, any_claim, any_unknown)
        | Some c \<Rightarrow> (any_ok \<or> cb_state c = CS_SUPPORTED, True, any_unknown \<or> cb_state c = CS_UNKNOWN))
       flags kinds"

definition arch_matched :: "Resource \<Rightarrow> string list \<Rightarrow> bool" where
  "arch_matched res archs =
     (case FindCapability res CK_ARCH_GENERATION of
        None \<Rightarrow> False
      | Some arch \<Rightarrow> cb_detail arch \<noteq> [] \<and> (\<exists>a \<in> set archs. cb_detail arch = a))"

definition ResourceEligible :: "Resource \<Rightarrow> CompositionRequest \<Rightarrow> verdict" where
  "ResourceEligible res req =
     (let rid = id_ToString (r_id res) in
      if \<not> IsValid (r_id res) then rejected RR_RESOURCE_OFFLINE ''zero resource id''
      else if r_health res = RH_OFFLINE then rejected RR_RESOURCE_OFFLINE (''offline '' @ rid)
      else if r_health res = RH_DEGRADED \<or> r_health res = RH_UNKNOWN
        then rejected RR_RESOURCE_DEGRADED
               (''health '' @ ResourceHealth_ToString (r_health res) @ '' ('' @ rid @ '')'')
      else if \<not> rq_ignore_reachability req \<and> r_reachability res \<noteq> RB_REACHABLE
        then rejected RR_RESOURCE_UNREACHABLE (''unreachable '' @ rid)
      else if r_readiness res = RD_NOT_READY \<or> r_readiness res = RD_UNKNOWN
        then rejected RR_RESOURCE_DEGRADED (''not ready '' @ rid)
      else if \<not> IsCurrent (r_evidence res) then rejected RR_STALE_EVIDENCE (''stale evidence '' @ rid)
      else let (any_ok, any_claim, any_unknown) =
                 scan_capabilities res (ClassCapabilityKinds (r_resource_class res)) (False, False, False)
           in if any_claim \<and> any_unknown \<and> \<not> any_ok
                then rejected RR_CAPABILITY_UNKNOWN (''capability unknown '' @ rid)
              else if r_resource_class res = RC_ACCELERATOR \<and> rq_accelerator_architectures req \<noteq> []
                      \<and> \<not> arch_matched res (rq_accelerator_architectures req)
                then rejected RR_COMPATIBILITY_MISMATCH (''arch mismatch '' @ rid)
              else accepted)"

abbreviation eligible :: "Resource \<Rightarrow> CompositionRequest \<Rightarrow> bool" where
  "eligible res req \<equiv> fst (ResourceEligible res req)"

section \<open>Scores, demands and held amounts\<close>

definition SuppliesCapacity :: "Resource \<Rightarrow> ClassDemand \<Rightarrow> bool" where
  "SuppliesCapacity res d =
     (if \<not> cd_amount_based d then
        (if cd_cls d = RC_COMPUTE then d_gt (cp_compute_units (r_capacity res)) 0 else True)
      else d_ge (CapacityForDimension res (cd_dimension d)) 0)"

definition ClassScore :: "Resource \<Rightarrow> ClassDemand \<Rightarrow> double" where
  "ClassScore res d =
     (let s0 = (if cd_amount_based d then d_max 0 (CapacityForDimension res (cd_dimension d))
                else if cd_cls d = RC_COMPUTE then d_max 0 (cp_compute_units (r_capacity res))
                else d_1);
          s1 = (if r_health res = RH_HEALTHY then d_add s0 d_1000 else s0);
          s2 = (if r_readiness res = RD_READY then d_add s1 d_100 else s1)
      in if r_reachability res = RB_REACHABLE then d_add s2 d_10 else s2)"

definition add_demand :: "ResourceClass \<Rightarrow> bool \<Rightarrow> double \<Rightarrow> u32 \<Rightarrow> string \<Rightarrow> ClassDemand" where
  "add_demand cls amount_based amount cnt dim =
     \<lparr>cd_cls = cls, cd_mandatory = False, cd_amount_based = amount_based, cd_amount = amount,
      cd_count = cnt, cd_dimension = dim\<rparr>"

definition close_demand :: "CompositionRequest \<Rightarrow> ClassDemand \<Rightarrow> ClassDemand" where
  "close_demand req d =
     (let nonzero = (cd_amount_based d \<and> d_gt (cd_amount d) 0) \<or> (\<not> cd_amount_based d \<and> 0 < cd_count d);
          listed = cd_cls d \<in> rq_mandatory_classes req;
          d1 = (if nonzero \<or> listed then d\<lparr>cd_mandatory := True\<rparr> else d)
      in if cd_cls d = RC_NETWORK_ENDPOINT \<and> listed \<and> rq_network_endpoint_count req = 0
         then d1\<lparr>cd_count := 1\<rparr> else d1)"

definition ComputeDemands :: "CompositionRequest \<Rightarrow> ClassDemand list" where
  "ComputeDemands req =
     map (close_demand req)
       [add_demand RC_COMPUTE True (d_of_u64 (rq_compute_units req)) 0 ''compute_units'',
        add_demand RC_ACCELERATOR False (rq_accelerator_memory_bytes req) (rq_accelerator_count req)
          ''accelerator_memory_bytes'',
        add_demand RC_HOST_MEMORY True (rq_host_memory_bytes req) 0 ''host_memory_bytes'',
        add_demand RC_EXPANDED_MEMORY True (rq_expanded_memory_bytes req) 0 ''expanded_memory_bytes'',
        add_demand RC_STORAGE True (rq_storage_bytes req) 0 ''storage_bytes'',
        add_demand RC_NETWORK_ENDPOINT False (rq_min_bandwidth_mbps req) (rq_network_endpoint_count req)
          ''network_bandwidth_mbps'']"

definition HoldAmountForResource :: "Resource \<Rightarrow> CompositionRequest \<Rightarrow> double" where
  "HoldAmountForResource r req =
     (case List.find (\<lambda>d. cd_cls d = r_resource_class r) (ComputeDemands req) of
        None \<Rightarrow> d_1
      | Some d \<Rightarrow> if cd_amount_based d then CapacityForDimension r (cd_dimension d) else d_1)"

section \<open>Paths have slots of their own\<close>

lemma PathKey_inject [simp]: "PathKey a b = PathKey c d \<longleftrightarrow> a = c \<and> b = d"
proof
  assume "PathKey a b = PathKey c d"
  then have "id_ToString a @ CHR ''-'' # (''>'' @ id_ToString b)
      = id_ToString c @ CHR ''-'' # (''>'' @ id_ToString d)"
    by (simp add: PathKey_def)
  then have "id_ToString a = id_ToString c \<and> ''>'' @ id_ToString b = ''>'' @ id_ToString d"
    by (rule append_sep_inject [OF id_ToString_digits id_ToString_digits, rotated]) simp
  then show "a = c \<and> b = d" by simp
qed simp

section \<open>The eligibility verdict\<close>

definition class_claims :: "Resource \<Rightarrow> Capability list" where
  "class_claims res =
     List.map_filter (FindCapability res) (ClassCapabilityKinds (r_resource_class res))"

lemma scan_capabilities_flags:
  "scan_capabilities res kinds (a, b, c) =
     (let cs = List.map_filter (FindCapability res) kinds
      in (a \<or> (\<exists>x \<in> set cs. cb_state x = CS_SUPPORTED), b \<or> cs \<noteq> [],
          c \<or> (\<exists>x \<in> set cs. cb_state x = CS_UNKNOWN)))"
  by (induction kinds arbitrary: a b c)
    (auto simp: scan_capabilities_def List.map_filter_def Let_def split: option.splits)

definition capability_unknown :: "Resource \<Rightarrow> bool" where
  "capability_unknown res \<longleftrightarrow>
     (\<exists>c \<in> set (class_claims res). cb_state c = CS_UNKNOWN) \<and>
     (\<forall>c \<in> set (class_claims res). cb_state c \<noteq> CS_SUPPORTED)"

definition eligible_spec :: "Resource \<Rightarrow> CompositionRequest \<Rightarrow> bool" where
  "eligible_spec res req \<longleftrightarrow>
     IsValid (r_id res) \<and> r_health res = RH_HEALTHY \<and> r_readiness res = RD_READY \<and>
     (rq_ignore_reachability req \<or> r_reachability res = RB_REACHABLE) \<and>
     IsCurrent (r_evidence res) \<and> \<not> capability_unknown res \<and>
     (r_resource_class res = RC_ACCELERATOR \<and> rq_accelerator_architectures req \<noteq> [] \<longrightarrow>
        arch_matched res (rq_accelerator_architectures req))"

lemma scan_class_capabilities:
  "scan_capabilities res (ClassCapabilityKinds (r_resource_class res)) (False, False, False) =
     ((\<exists>c \<in> set (class_claims res). cb_state c = CS_SUPPORTED), class_claims res \<noteq> [],
      (\<exists>c \<in> set (class_claims res). cb_state c = CS_UNKNOWN))"
  by (simp add: scan_capabilities_flags class_claims_def Let_def)

lemma health_iff: "h = RH_HEALTHY \<longleftrightarrow> h \<noteq> RH_OFFLINE \<and> \<not> (h = RH_DEGRADED \<or> h = RH_UNKNOWN)"
  by (cases h) auto

lemma readiness_iff: "h = RD_READY \<longleftrightarrow> \<not> (h = RD_NOT_READY \<or> h = RD_UNKNOWN)"
  by (cases h) auto

lemma accepted_rejected [simp]:
  "fst accepted" "\<not> fst (rejected reason note)" "rejected reason note \<noteq> accepted"
  by (simp_all add: accepted_def rejected_def)

lemma fst_rejected_if [simp]: "fst (if c then rejected reason note else v) \<longleftrightarrow> \<not> c \<and> fst v"
  by simp

lemma claims_empty_no_unknown:
  "(class_claims res \<noteq> [] \<and> (\<exists>c \<in> set (class_claims res). cb_state c = CS_UNKNOWN) \<and>
      \<not> (\<exists>c \<in> set (class_claims res). cb_state c = CS_SUPPORTED)) \<longleftrightarrow> capability_unknown res"
  by (auto simp: capability_unknown_def)

lemma eligible_iff: "eligible res req \<longleftrightarrow> eligible_spec res req"
  unfolding ResourceEligible_def eligible_spec_def Let_def scan_class_capabilities prod.case
    claims_empty_no_unknown health_iff readiness_iff fst_rejected_if
  by (simp only: accepted_rejected) blast

lemma ResourceEligible_shape:
  "ResourceEligible res req = accepted \<or>
     (\<exists>reason note. ResourceEligible res req = rejected reason note)"
  unfolding ResourceEligible_def Let_def scan_class_capabilities prod.case by (simp split: if_split) blast

lemma eligible_accepted: "eligible res req \<longleftrightarrow> ResourceEligible res req = accepted"
  using ResourceEligible_shape [of res req] by auto

section \<open>Scores are ordered values\<close>

lemma ClassScore_nonneg: "d_nonneg (ClassScore res d)"
  by (simp add: ClassScore_def Let_def d_max_zero_nonneg d_add_nonneg)

lemma ClassScore_not_nan [simp]: "\<not> d_is_nan (ClassScore res d)"
  using ClassScore_nonneg [of res d] by (simp add: d_nonneg_def)

section \<open>Shape of the demands\<close>

lemma close_demand_fields [simp]:
  "cd_cls (close_demand req d) = cd_cls d"
  "cd_amount_based (close_demand req d) = cd_amount_based d"
  "cd_amount (close_demand req d) = cd_amount d"
  "cd_dimension (close_demand req d) = cd_dimension d"
  by (simp_all add: close_demand_def Let_def)

lemma ComputeDemands_classes:
  "map cd_cls (ComputeDemands req) =
     [RC_COMPUTE, RC_ACCELERATOR, RC_HOST_MEMORY, RC_EXPANDED_MEMORY, RC_STORAGE, RC_NETWORK_ENDPOINT]"
  by (simp add: ComputeDemands_def add_demand_def)

lemma ComputeDemands_distinct: "distinct (map cd_cls (ComputeDemands req))"
  unfolding ComputeDemands_classes by simp

text \<open>What a reservation holds of a resource depends on the resource alone.\<close>

fun hold_amount :: "Resource \<Rightarrow> double" where
  "hold_amount r =
     (case r_resource_class r of
        RC_COMPUTE \<Rightarrow> cp_compute_units (r_capacity r)
      | RC_HOST_MEMORY \<Rightarrow> cp_host_memory_bytes (r_capacity r)
      | RC_EXPANDED_MEMORY \<Rightarrow> cp_expanded_memory_bytes (r_capacity r)
      | RC_STORAGE \<Rightarrow> cp_storage_bytes (r_capacity r)
      | _ \<Rightarrow> d_1)"

lemma HoldAmountForResource_eq: "HoldAmountForResource r req = hold_amount r"
  by (cases "r_resource_class r")
    (simp_all add: HoldAmountForResource_def ComputeDemands_def add_demand_def CapacityForDimension_def)

section \<open>Correctness of eligibility\<close>

text \<open>
  A resource is eligible exactly when its id is valid, it is healthy, ready and, unless
  the request waives it, reachable, its evidence is current, its class capabilities are not
  merely unknown, and an accelerator matches a requested architecture.
\<close>

theorem eligibility_exact: "eligible res req \<longleftrightarrow> eligible_spec res req"
  by (rule eligible_iff)

text \<open>
  An eligibility check either accepts without any reason or note, or rejects with exactly
  one typed reason and one note.
\<close>

theorem eligibility_typed:
  "ResourceEligible res req = accepted \<or> (\<exists>reason msg. ResourceEligible res req = rejected reason msg)"
  by (rule ResourceEligible_shape)

text \<open>
  Paths between different ordered pairs of nodes never share an entry of the path table:
  the textual key determines both nodes.
\<close>

theorem path_key_unique: "PathKey a b = PathKey c d \<longleftrightarrow> a = c \<and> b = d"
  by (rule PathKey_inject)

text \<open>
  A resource whose class capability is present but \<open>UNSUPPORTED\<close> is still eligible: only
  \<open>UNKNOWN\<close> without a supported alternative is refused.
\<close>

lemma unsupported_capability_eligible:
  "eligible ((ex_resource 1 RC_COMPUTE)\<lparr>r_capabilities :=
     [Capability_default\<lparr>cb_kind := CK_CPU_EXECUTION, cb_state := CS_UNSUPPORTED\<rparr>]\<rparr>) ex_request"
  by code_simp

end
