(* ===== verification/Fabric_Graph.thy ===== *)
theory Fabric_Graph
  imports Fabric_Eligibility
begin

text \<open>
  \<open>src/dfabric/engine.cpp\<close>, lines 144--333: the composition graph of a resource set, its
  validation against resources and path evidence, the failure-domain constraints, the
  authority tuple a composition is bound to, revalidation, and the ranking score.
\<close>

type_synonym ResourceMap = "(ResourceId, Resource) umap"
type_synonym NodeMap = "(NodeId, Node) umap"
type_synonym PathMap = "(string, PathEvidence) omap"

section \<open>Building the graph\<close>

definition edge_of :: "CompositionRequest \<Rightarrow> Resource \<Rightarrow> Resource \<Rightarrow> GraphEdgeKind \<Rightarrow> GraphEdge" where
  "edge_of req a b kind =
     GraphEdge_default\<lparr>e_from := r_id a, e_to := r_id b, e_kind := kind, e_required := True,
       e_min_bandwidth_mbps := rq_min_bandwidth_mbps req, e_max_latency_us := rq_max_latency_us req\<rparr>"

definition addEdge :: "CompositionRequest \<Rightarrow> GraphEdgeKind \<Rightarrow> Resource \<times> Resource \<Rightarrow> ResourceGraph \<Rightarrow> ResourceGraph" where
  "addEdge req kind = (\<lambda>(a, b) g. if r_id a = r_id b then g else AddEdge g (edge_of req a b kind))"

text \<open>The nested loops: first element by class, then second element by class, ids apart.\<close>

definition class_pairs :: "ResourceClass set \<Rightarrow> ResourceClass set \<Rightarrow> Resource list \<Rightarrow> (Resource \<times> Resource) list" where
  "class_pairs A B members =
     concat (map (\<lambda>a. map (Pair a)
       (filter (\<lambda>b. r_resource_class b \<in> B \<and> r_id b \<noteq> r_id a) members))
       (filter (\<lambda>a. r_resource_class a \<in> A) members))"

definition add_edges :: "CompositionRequest \<Rightarrow> GraphEdgeKind list \<Rightarrow> (Resource \<times> Resource) list \<Rightarrow> ResourceGraph \<Rightarrow> ResourceGraph" where
  "add_edges req kinds pairs g = foldl (\<lambda>g p. foldl (\<lambda>g kind. addEdge req kind p g) g kinds) g pairs"

definition BuildGraph :: "CompositionRequest \<Rightarrow> Resource list \<Rightarrow> ResourceGraph" where
  "BuildGraph req members =
     (let g0 = foldl (\<lambda>g r. AddVertex g (r_id r)) ResourceGraph_default members;
          g1 = add_edges req [GE_REACHABILITY, GE_COMPATIBILITY]
                 (class_pairs {RC_COMPUTE} {RC_ACCELERATOR} members) g0;
          g2 = add_edges req [GE_REACHABILITY, GE_BANDWIDTH_BOUND, GE_LATENCY_BOUND]
                 (class_pairs {RC_ACCELERATOR} {RC_HOST_MEMORY, RC_EXPANDED_MEMORY} members) g1;
          g3 = add_edges req [GE_REACHABILITY, GE_BANDWIDTH_BOUND]
                 (class_pairs {RC_ACCELERATOR} {RC_NIC, RC_NETWORK_ENDPOINT} members) g2
      in add_edges req [GE_REACHABILITY, GE_BANDWIDTH_BOUND]
           (class_pairs {RC_COMPUTE} {RC_STORAGE} members) g3)"

section \<open>Validating the graph\<close>

definition check_bounds :: "GraphEdge \<Rightarrow> Resource \<Rightarrow> Resource \<Rightarrow> double \<Rightarrow> double \<Rightarrow> verdict" where
  "check_bounds e from to bw lat =
     (let ends = id_ToString (r_id from) @ ''-'' @ id_ToString (r_id to) in
      if e_kind e = GE_BANDWIDTH_BOUND \<and> d_gt (e_min_bandwidth_mbps e) 0 \<and> d_lt bw (e_min_bandwidth_mbps e)
        then rejected RR_BANDWIDTH_INSUFFICIENT (''bw edge '' @ ends)
      else if e_kind e = GE_LATENCY_BOUND \<and> d_gt (e_max_latency_us e) 0 \<and> d_gt lat (e_max_latency_us e)
        then rejected RR_LATENCY_LIMIT_EXCEEDED (''latency edge '' @ ends)
      else accepted)"

definition check_edge :: "ResourceMap \<Rightarrow> PathMap \<Rightarrow> GraphEdge \<Rightarrow> verdict" where
  "check_edge resources paths e =
     (case map_of resources (e_from e) of
        None \<Rightarrow> rejected RR_RESOURCE_OFFLINE ''edge endpoint missing''
      | Some from \<Rightarrow>
        (case map_of resources (e_to e) of
           None \<Rightarrow> rejected RR_RESOURCE_OFFLINE ''edge endpoint missing''
         | Some to \<Rightarrow>
           (if r_node_id from = r_node_id to then check_bounds e from to d_1e12 0
            else let key = PathKey (r_node_id from) (r_node_id to) in
              (case map_of paths key of
                 None \<Rightarrow> rejected RR_PATH_UNAVAILABLE (''no verified path '' @ key)
               | Some p \<Rightarrow>
                 (if \<not> pe_verified p \<or> \<not> pe_available p
                    then rejected RR_PATH_UNAVAILABLE (''no verified path '' @ key)
                  else if ev_state (pe_evidence p) = ES_STALE \<or> \<not> IsCurrent (pe_evidence p)
                    then rejected RR_PATH_STALE (''stale path '' @ key)
                  else check_bounds e from to (pe_bandwidth_mbps p) (pe_latency_us p))))))"

fun check_edges :: "ResourceMap \<Rightarrow> PathMap \<Rightarrow> GraphEdge list \<Rightarrow> verdict" where
  "check_edges resources paths [] = accepted"
| "check_edges resources paths (e # es) =
     (let v = check_edge resources paths e in if fst v then check_edges resources paths es else v)"

definition ValidateGraph :: "ResourceGraph \<Rightarrow> ResourceMap \<Rightarrow> PathMap \<Rightarrow> verdict" where
  "ValidateGraph g resources paths = check_edges resources paths (g_edges g)"

section \<open>Failure domains\<close>

definition domain_key :: "Resource \<Rightarrow> string" where
  "domain_key r = id_ToString (r_node_id r) @ '':'' @ fd_name (r_failure_domain r)"

definition max_domain_count :: "Resource list \<Rightarrow> nat" where
  "max_domain_count members =
     (let names = map (\<lambda>r. fd_name (r_failure_domain r)) members
      in foldl max 0 (map (count_list names) (remdups names)))"

definition ValidateFailureDomains :: "Resource list \<Rightarrow> CompositionRequest \<Rightarrow> verdict" where
  "ValidateFailureDomains members req =
     (let fc = rq_failure_domain req; t = fc_topology fc;
          domains = set (map domain_key members);
          node_keys = set (map (\<lambda>r. id_ToString (r_node_id r)) members) in
      if t = TC_NONE then accepted
      else if t = TC_DISTINCT_FAILURE_DOMAINS \<and> card domains < 2
        then rejected RR_FAILURE_DOMAIN_CONFLICT ''distinct domains required''
      else if t = TC_MAX_SHARED_RISK \<and> 0 < fc_max_shared_risk fc
              \<and> fc_max_shared_risk fc < word_of_nat (max_domain_count members)
        then rejected RR_FAILURE_DOMAIN_CONFLICT ''max shared risk exceeded''
      else if t = TC_COLOCATE \<and> 1 < card node_keys
        then rejected RR_FAILURE_DOMAIN_CONFLICT ''colocate required''
      else if t = TC_SPREAD \<and> card node_keys < 2
        then rejected RR_FAILURE_DOMAIN_CONFLICT ''spread required''
      else accepted)"

section \<open>Authority and revalidation\<close>

definition MakeAuthority ::
  "CompositionGeneration \<Rightarrow> CompositionRequest \<Rightarrow> Resource list \<Rightarrow> NodeMap \<Rightarrow> PathMap \<Rightarrow> CoordinatorEpoch
     \<Rightarrow> AuthorityTuple" where
  "MakeAuthority gen req members nodes paths epoch =
     (let hosts = List.map_filter (\<lambda>r. map_of nodes (r_node_id r)) members in
      AuthorityTuple_default\<lparr>
        au_coordinator_epoch := epoch,
        au_policy_generation := rq_policy_generation req,
        au_composition_generation := gen,
        au_resource_generations := map r_generation members,
        au_evidence_generations := map (\<lambda>r. ev_generation (r_evidence r)) members,
        au_capability_generations := concat (map (\<lambda>r. map cb_generation (r_capabilities r)) members),
        au_compatibility_generations := concat (map (\<lambda>r. map ct_generation (r_compatibility r)) members),
        au_node_generations := map n_generation hosts,
        au_worker_boots := filter IsValid (map n_worker_boot hosts),
        au_path_generations := map (\<lambda>(_, p). pe_generation p) paths\<rparr>)"

text \<open>
  The loop over the vertices of \<open>RevalidationHolds\<close>; the recorded generations are walked
  in step, and a vertex beyond their end is not compared.
\<close>

fun revalidate_members :: "ResourceMap \<Rightarrow> ResourceGeneration list \<Rightarrow> ResourceId list \<Rightarrow> verdict" where
  "revalidate_members resources gens [] = accepted"
| "revalidate_members resources gens (rid # rids) =
     (case map_of resources rid of
        None \<Rightarrow> rejected RR_RESOURCE_OFFLINE (''resource missing '' @ id_ToString rid)
      | Some r \<Rightarrow>
        (if \<not> IsValid (r_id r)
           then rejected RR_RESOURCE_OFFLINE (''resource missing '' @ id_ToString rid)
         else if (case gens of [] \<Rightarrow> False | gen # _ \<Rightarrow> gen \<noteq> r_generation r)
           then rejected RR_WRONG_RESOURCE_GENERATION (''resource gen changed '' @ id_ToString rid)
         else if \<not> IsCurrent (r_evidence r)
           then rejected RR_STALE_EVIDENCE (''evidence stale '' @ id_ToString rid)
         else revalidate_members resources (tl gens) rids))"

definition RevalidationHolds :: "Composition \<Rightarrow> ResourceMap \<Rightarrow> CoordinatorEpoch \<Rightarrow> verdict" where
  "RevalidationHolds c resources epoch =
     (if au_coordinator_epoch (c_authority c) \<noteq> epoch then rejected RR_WRONG_EPOCH ''epoch mismatch''
      else revalidate_members resources (au_resource_generations (c_authority c)) (g_vertices (c_graph c)))"

section \<open>Ranking\<close>

record rank_sums =
  rs_capacity :: double
  rs_health :: double
  rs_headroom :: double

definition rank_member :: "rank_sums \<Rightarrow> Resource \<Rightarrow> rank_sums" where
  "rank_member s r =
     \<lparr>rs_capacity = d_add (rs_capacity s)
        (d_add (CapacityForDimension r ''compute_units'')
               (d_mul (CapacityForDimension r ''host_memory_bytes'') d_1em6)),
      rs_health = (if r_health r = RH_HEALTHY then d_add (rs_health s) d_10 else rs_health s),
      rs_headroom = d_add (rs_headroom s)
        (d_add (if d_gt (cp_compute_units (r_capacity r)) 0 then d_1 else 0)
               (if d_gt (cp_storage_bytes (r_capacity r)) 0 then d_1 else 0))\<rparr>"

definition Rank :: "Resource list \<Rightarrow> RankScore" where
  "Rank members =
     (let s = foldl rank_member \<lparr>rs_capacity = 0, rs_health = 0, rs_headroom = 0\<rparr> members;
          diversity = d_of_nat (card (set (map (\<lambda>r. id_ToString (r_node_id r)) members)));
          factors =
            [\<lparr>rf_name = ''health'', rf_weight = d_1, rf_value = rs_health s,
              rf_detail = ''aggregate member health''\<rparr>,
             \<lparr>rf_name = ''capacity'', rf_weight = d_1, rf_value = d_min d_1 (d_mul (rs_capacity s) d_tenth),
              rf_detail = ''aggregate capacity''\<rparr>,
             \<lparr>rf_name = ''failure_domain_diversity'', rf_weight = d_1, rf_value = diversity,
              rf_detail = ''distinct nodes''\<rparr>,
             \<lparr>rf_name = ''headroom'', rf_weight = d_1, rf_value = d_min d_1 (d_mul (rs_headroom s) d_tenth),
              rf_detail = ''spare capacity''\<rparr>]
      in \<lparr>rk_total = foldl (\<lambda>t f. d_add t (d_mul (rf_weight f) (rf_value f))) 0 factors,
          rk_factors = factors\<rparr>)"

definition CanonicalKey :: "Resource list \<Rightarrow> string" where
  "CanonicalKey members = concat (map (\<lambda>i. id_ToString i @ '','') (std_sort (<) (map r_id members)))"

section \<open>Vertices and edges of a built graph\<close>

lemma add_vertices:
  "distinct (map r_id members) \<Longrightarrow> set (map r_id members) \<inter> set (g_vertices g) = {} \<Longrightarrow>
     foldl (\<lambda>g r. AddVertex g (r_id r)) g members = g\<lparr>g_vertices := g_vertices g @ map r_id members\<rparr>"
proof (induction members arbitrary: g)
  case (Cons r members)
  have "foldl (\<lambda>g r. AddVertex g (r_id r)) (AddVertex g (r_id r)) members
      = (AddVertex g (r_id r))\<lparr>g_vertices := g_vertices (AddVertex g (r_id r)) @ map r_id members\<rparr>"
    by (rule Cons.IH) (use Cons.prems in auto)
  moreover have "AddVertex g (r_id r) = g\<lparr>g_vertices := g_vertices g @ [r_id r]\<rparr>"
    using Cons.prems by (simp add: AddVertex_def HasVertex_def)
  ultimately show ?case by simp
qed simp

lemma addEdge_kinds:
  "foldl (\<lambda>g kind. addEdge req kind (a, b) g) g kinds =
     (if r_id a = r_id b then g else g\<lparr>g_edges := g_edges g @ map (edge_of req a b) kinds\<rparr>)"
  by (induction kinds arbitrary: g) (auto simp: addEdge_def AddEdge_def)

lemma add_edges_eq:
  "(\<forall>(a, b) \<in> set pairs. r_id a \<noteq> r_id b) \<Longrightarrow>
     add_edges req kinds pairs g =
       g\<lparr>g_edges := g_edges g @ concat (map (\<lambda>(a, b). map (edge_of req a b) kinds) pairs)\<rparr>"
  by (induction pairs arbitrary: g) (auto simp: add_edges_def addEdge_kinds)

lemma class_pairs_set:
  "(a, b) \<in> set (class_pairs A B members) \<longleftrightarrow>
     a \<in> set members \<and> b \<in> set members \<and> r_resource_class a \<in> A \<and> r_resource_class b \<in> B \<and> r_id a \<noteq> r_id b"
  by (auto simp: class_pairs_def)

lemma class_pairs_ids: "\<forall>(a, b) \<in> set (class_pairs A B members). r_id a \<noteq> r_id b"
  by (auto simp: class_pairs_set)

lemmas add_class_edges = add_edges_eq [OF class_pairs_ids]

lemma BuildGraph_vertices:
  "distinct (map r_id members) \<Longrightarrow> g_vertices (BuildGraph req members) = map r_id members"
  by (simp add: BuildGraph_def Let_def add_class_edges add_vertices ResourceGraph_default_def)

lemma add_vertices_set:
  "set (g_vertices (foldl (\<lambda>g r. AddVertex g (r_id r)) g members)) = set (g_vertices g) \<union> r_id ` set members"
  by (induction members arbitrary: g) auto

lemma add_vertices_distinct:
  "distinct (g_vertices g) \<Longrightarrow> distinct (g_vertices (foldl (\<lambda>g r. AddVertex g (r_id r)) g members))"
  by (induction members arbitrary: g) (auto simp: AddVertex_distinct)

lemma BuildGraph_distinct: "distinct (g_vertices (BuildGraph req members))"
  by (simp add: BuildGraph_def Let_def add_class_edges add_vertices_distinct ResourceGraph_default_def)

lemma add_vertices_edges: "g_edges (foldl (\<lambda>g r. AddVertex g (r_id r)) g members) = g_edges g"
  by (induction members arbitrary: g) auto

definition edge_kinds_between :: "ResourceClass \<Rightarrow> ResourceClass \<Rightarrow> GraphEdgeKind set" where
  "edge_kinds_between x y =
     (if x = RC_COMPUTE \<and> y = RC_ACCELERATOR then {GE_REACHABILITY, GE_COMPATIBILITY}
      else if x = RC_ACCELERATOR \<and> y \<in> {RC_HOST_MEMORY, RC_EXPANDED_MEMORY}
        then {GE_REACHABILITY, GE_BANDWIDTH_BOUND, GE_LATENCY_BOUND}
      else if x = RC_ACCELERATOR \<and> y \<in> {RC_NIC, RC_NETWORK_ENDPOINT} then {GE_REACHABILITY, GE_BANDWIDTH_BOUND}
      else if x = RC_COMPUTE \<and> y = RC_STORAGE then {GE_REACHABILITY, GE_BANDWIDTH_BOUND}
      else {})"

lemma edge_kinds_between_iff:
  "kind \<in> edge_kinds_between x y \<longleftrightarrow>
     x = RC_COMPUTE \<and> y = RC_ACCELERATOR \<and> kind \<in> {GE_REACHABILITY, GE_COMPATIBILITY} \<or>
     x = RC_ACCELERATOR \<and> y \<in> {RC_HOST_MEMORY, RC_EXPANDED_MEMORY} \<and>
       kind \<in> {GE_REACHABILITY, GE_BANDWIDTH_BOUND, GE_LATENCY_BOUND} \<or>
     x = RC_ACCELERATOR \<and> y \<in> {RC_NIC, RC_NETWORK_ENDPOINT} \<and> kind \<in> {GE_REACHABILITY, GE_BANDWIDTH_BOUND} \<or>
     x = RC_COMPUTE \<and> y = RC_STORAGE \<and> kind \<in> {GE_REACHABILITY, GE_BANDWIDTH_BOUND}"
  by (auto simp: edge_kinds_between_def)

lemma class_edges_set:
  "e \<in> set (concat (map (\<lambda>(a, b). map (edge_of req a b) kinds) (class_pairs A B members))) \<longleftrightarrow>
     (\<exists>a \<in> set members. \<exists>b \<in> set members. r_id a \<noteq> r_id b \<and> r_resource_class a \<in> A \<and> r_resource_class b \<in> B \<and>
        (\<exists>kind \<in> set kinds. e = edge_of req a b kind))"
proof -
  have "e \<in> set (concat (map (\<lambda>(a, b). map (edge_of req a b) kinds) ps)) \<longleftrightarrow>
      (\<exists>a b. (a, b) \<in> set ps \<and> (\<exists>kind \<in> set kinds. e = edge_of req a b kind))" for ps
    by fastforce
  then show ?thesis by (auto simp: class_pairs_set)
qed

lemma BuildGraph_edges:
  "e \<in> set (g_edges (BuildGraph req members)) \<longleftrightarrow>
     (\<exists>a \<in> set members. \<exists>b \<in> set members. r_id a \<noteq> r_id b \<and>
        (\<exists>kind \<in> edge_kinds_between (r_resource_class a) (r_resource_class b). e = edge_of req a b kind))"
proof -
  let ?es = "\<lambda>kinds A B. concat (map (\<lambda>(a, b). map (edge_of req a b) kinds) (class_pairs A B members))"
  have "g_edges (BuildGraph req members) =
      ?es [GE_REACHABILITY, GE_COMPATIBILITY] {RC_COMPUTE} {RC_ACCELERATOR} @
      ?es [GE_REACHABILITY, GE_BANDWIDTH_BOUND, GE_LATENCY_BOUND] {RC_ACCELERATOR} {RC_HOST_MEMORY, RC_EXPANDED_MEMORY} @
      ?es [GE_REACHABILITY, GE_BANDWIDTH_BOUND] {RC_ACCELERATOR} {RC_NIC, RC_NETWORK_ENDPOINT} @
      ?es [GE_REACHABILITY, GE_BANDWIDTH_BOUND] {RC_COMPUTE} {RC_STORAGE}"
    by (simp add: BuildGraph_def Let_def add_class_edges add_vertices_edges ResourceGraph_default_def)
  then have "e \<in> set (g_edges (BuildGraph req members)) \<longleftrightarrow>
      (\<exists>(kinds, A, B) \<in>
        {([GE_REACHABILITY, GE_COMPATIBILITY], {RC_COMPUTE}, {RC_ACCELERATOR}),
         ([GE_REACHABILITY, GE_BANDWIDTH_BOUND, GE_LATENCY_BOUND], {RC_ACCELERATOR}, {RC_HOST_MEMORY, RC_EXPANDED_MEMORY}),
         ([GE_REACHABILITY, GE_BANDWIDTH_BOUND], {RC_ACCELERATOR}, {RC_NIC, RC_NETWORK_ENDPOINT}),
         ([GE_REACHABILITY, GE_BANDWIDTH_BOUND], {RC_COMPUTE}, {RC_STORAGE})}. e \<in> set (?es kinds A B))"
    by (simp only: set_append Un_iff) simp
  also have "\<dots> \<longleftrightarrow> (\<exists>a \<in> set members. \<exists>b \<in> set members. r_id a \<noteq> r_id b \<and>
      (\<exists>kind \<in> edge_kinds_between (r_resource_class a) (r_resource_class b). e = edge_of req a b kind))"
    (is "?L \<longleftrightarrow> ?R")
  proof
    assume ?L
    then obtain kinds A B where row: "(kinds, A, B) \<in>
        {([GE_REACHABILITY, GE_COMPATIBILITY], {RC_COMPUTE}, {RC_ACCELERATOR}),
         ([GE_REACHABILITY, GE_BANDWIDTH_BOUND, GE_LATENCY_BOUND], {RC_ACCELERATOR}, {RC_HOST_MEMORY, RC_EXPANDED_MEMORY}),
         ([GE_REACHABILITY, GE_BANDWIDTH_BOUND], {RC_ACCELERATOR}, {RC_NIC, RC_NETWORK_ENDPOINT}),
         ([GE_REACHABILITY, GE_BANDWIDTH_BOUND], {RC_COMPUTE}, {RC_STORAGE})}" and e: "e \<in> set (?es kinds A B)"
      by blast
    have "set kinds \<subseteq> edge_kinds_between x y" if "x \<in> A" "y \<in> B" for x y
      using row that by (auto simp: edge_kinds_between_def)
    with e show ?R unfolding class_edges_set by blast
  next
    assume ?R
    then obtain a b kind where ab: "a \<in> set members" "b \<in> set members" "r_id a \<noteq> r_id b"
      and kind: "kind \<in> edge_kinds_between (r_resource_class a) (r_resource_class b)"
      and e: "e = edge_of req a b kind" by blast
    define M where "M kinds A B \<longleftrightarrow> e \<in> set (?es kinds A B)" for kinds A B
    have "M kinds A B" if "r_resource_class a \<in> A" "r_resource_class b \<in> B" "kind \<in> set kinds" for kinds A B
      unfolding M_def class_edges_set using ab e that by blast
    with kind show ?L unfolding edge_kinds_between_iff M_def [symmetric] by (elim disjE) simp_all
  qed
  finally show ?thesis .
qed

section \<open>What a validated graph guarantees\<close>

definition bounds_ok :: "GraphEdge \<Rightarrow> double \<Rightarrow> double \<Rightarrow> bool" where
  "bounds_ok e bw lat \<longleftrightarrow>
     (e_kind e = GE_BANDWIDTH_BOUND \<and> d_gt (e_min_bandwidth_mbps e) 0 \<longrightarrow> \<not> d_lt bw (e_min_bandwidth_mbps e)) \<and>
     (e_kind e = GE_LATENCY_BOUND \<and> d_gt (e_max_latency_us e) 0 \<longrightarrow> \<not> d_gt lat (e_max_latency_us e))"

definition path_ok :: "PathMap \<Rightarrow> NodeId \<Rightarrow> NodeId \<Rightarrow> GraphEdge \<Rightarrow> bool" where
  "path_ok paths a b e \<longleftrightarrow>
     (\<exists>p. map_of paths (PathKey a b) = Some p \<and> pe_verified p \<and> pe_available p \<and>
        IsCurrent (pe_evidence p) \<and> bounds_ok e (pe_bandwidth_mbps p) (pe_latency_us p))"

definition edge_ok :: "ResourceMap \<Rightarrow> PathMap \<Rightarrow> GraphEdge \<Rightarrow> bool" where
  "edge_ok resources paths e \<longleftrightarrow>
     (\<exists>from to. map_of resources (e_from e) = Some from \<and> map_of resources (e_to e) = Some to \<and>
        (if r_node_id from = r_node_id to then bounds_ok e d_1e12 0
         else path_ok paths (r_node_id from) (r_node_id to) e))"

lemma check_bounds_iff: "fst (check_bounds e from to bw lat) \<longleftrightarrow> bounds_ok e bw lat"
  by (auto simp: check_bounds_def bounds_ok_def Let_def)

lemma check_edge_iff: "fst (check_edge resources paths e) \<longleftrightarrow> edge_ok resources paths e"
  by (auto simp: check_edge_def edge_ok_def path_ok_def check_bounds_iff Let_def IsCurrent_iff
      split: option.splits)

lemma check_edges_iff: "fst (check_edges resources paths es) \<longleftrightarrow> (\<forall>e \<in> set es. edge_ok resources paths e)"
  by (induction es) (auto simp: Let_def check_edge_iff)

lemma ValidateGraph_iff:
  "fst (ValidateGraph g resources paths) \<longleftrightarrow> (\<forall>e \<in> set (g_edges g). edge_ok resources paths e)"
  by (simp add: ValidateGraph_def check_edges_iff)

lemma check_bounds_shape:
  "check_bounds e from to bw lat = accepted \<or> (\<exists>reason note. check_bounds e from to bw lat = rejected reason note)"
  by (auto simp: check_bounds_def Let_def)

lemma check_edge_shape:
  "check_edge resources paths e = accepted \<or> (\<exists>reason note. check_edge resources paths e = rejected reason note)"
  using check_bounds_shape by (auto simp: check_edge_def Let_def split: option.splits)

lemma check_edges_shape:
  "check_edges resources paths es = accepted \<or> (\<exists>reason note. check_edges resources paths es = rejected reason note)"
  using check_edge_shape by (induction es) (auto simp: Let_def)

section \<open>What the failure-domain constraints guarantee\<close>

lemma domain_key_inject:
  "domain_key r = domain_key s \<longleftrightarrow>
     r_node_id r = r_node_id s \<and> fd_name (r_failure_domain r) = fd_name (r_failure_domain s)"
proof
  assume "domain_key r = domain_key s"
  then have "id_ToString (r_node_id r) @ CHR '':'' # fd_name (r_failure_domain r)
      = id_ToString (r_node_id s) @ CHR '':'' # fd_name (r_failure_domain s)"
    by (simp add: domain_key_def)
  then have "id_ToString (r_node_id r) = id_ToString (r_node_id s) \<and>
      fd_name (r_failure_domain r) = fd_name (r_failure_domain s)"
    by (rule append_sep_inject [OF id_ToString_digits id_ToString_digits, rotated]) simp
  then show "r_node_id r = r_node_id s \<and> fd_name (r_failure_domain r) = fd_name (r_failure_domain s)"
    by simp
qed (simp add: domain_key_def)

lemma card_less_2_iff: "finite A \<Longrightarrow> card A < 2 \<longleftrightarrow> (\<forall>x \<in> A. \<forall>y \<in> A. x = y)"
proof -
  assume fin: "finite A"
  have "card A < 2 \<longleftrightarrow> card A \<le> Suc 0" by auto
  also have "\<dots> \<longleftrightarrow> (\<forall>x \<in> A. \<forall>y \<in> A. x = y)" by (rule card_le_Suc0_iff_eq [OF fin])
  finally show ?thesis .
qed

lemma foldl_max_le_iff: "foldl max (m :: nat) xs \<le> n \<longleftrightarrow> m \<le> n \<and> (\<forall>x \<in> set xs. x \<le> n)"
  by (induction xs arbitrary: m) auto

lemma max_domain_count_le_iff:
  "max_domain_count members \<le> n \<longleftrightarrow>
     (\<forall>r \<in> set members. length (filter (\<lambda>s. fd_name (r_failure_domain s) = fd_name (r_failure_domain r)) members) \<le> n)"
proof -
  have "count_list (map f xs) y = length (filter (\<lambda>x. f x = y) xs)" for f :: "Resource \<Rightarrow> string" and xs y
    by (induction xs) auto
  then show ?thesis by (auto simp: max_domain_count_def Let_def foldl_max_le_iff)
qed

definition topology_ok :: "Resource list \<Rightarrow> CompositionRequest \<Rightarrow> bool" where
  "topology_ok members req \<longleftrightarrow>
     (case fc_topology (rq_failure_domain req) of
        TC_NONE \<Rightarrow> True
      | TC_COLOCATE \<Rightarrow> (\<forall>r \<in> set members. \<forall>s \<in> set members. r_node_id r = r_node_id s)
      | TC_SPREAD \<Rightarrow> (\<exists>r \<in> set members. \<exists>s \<in> set members. r_node_id r \<noteq> r_node_id s)
      | TC_DISTINCT_FAILURE_DOMAINS \<Rightarrow>
          (\<exists>r \<in> set members. \<exists>s \<in> set members. r_node_id r \<noteq> r_node_id s \<or>
             fd_name (r_failure_domain r) \<noteq> fd_name (r_failure_domain s))
      | TC_MAX_SHARED_RISK \<Rightarrow>
          fc_max_shared_risk (rq_failure_domain req) = 0 \<or>
          \<not> fc_max_shared_risk (rq_failure_domain req) < word_of_nat (max_domain_count members))"

lemma ValidateFailureDomains_iff: "fst (ValidateFailureDomains members req) \<longleftrightarrow> topology_ok members req"
proof -
  have nodes: "card (set (map (\<lambda>r. id_ToString (r_node_id r)) members)) < 2 \<longleftrightarrow>
      (\<forall>r \<in> set members. \<forall>s \<in> set members. r_node_id r = r_node_id s)"
    by (subst card_less_2_iff) auto
  have domains: "card (set (map domain_key members)) < 2 \<longleftrightarrow>
      (\<forall>r \<in> set members. \<forall>s \<in> set members. r_node_id r = r_node_id s \<and>
         fd_name (r_failure_domain r) = fd_name (r_failure_domain s))"
    by (subst card_less_2_iff) (auto simp: domain_key_inject)
  have one: "1 < card A \<longleftrightarrow> \<not> card A < 2" for A :: "string set" by auto
  show ?thesis
    unfolding ValidateFailureDomains_def Let_def one nodes domains topology_ok_def
    by (cases "fc_topology (rq_failure_domain req)") (auto simp: word_neq_0_conv)
qed

section \<open>Revalidation\<close>

lemma revalidate_members_iff:
  "fst (revalidate_members resources gens rids) \<longleftrightarrow>
     (\<forall>i < length rids. \<exists>r. map_of resources (rids ! i) = Some r \<and> IsValid (r_id r) \<and>
        IsCurrent (r_evidence r) \<and> (i < length gens \<longrightarrow> gens ! i = r_generation r))"
proof (induction resources gens rids rule: revalidate_members.induct)
  case (2 resources gens rid rids)
  have split: "(\<forall>i < length (rid # rids). P i) \<longleftrightarrow> P 0 \<and> (\<forall>i < length rids. P (Suc i))" for P
    by (auto simp: less_Suc_eq_0_disj)
  show ?case
  proof (cases "map_of resources rid")
    case None
    then show ?thesis by (subst split) simp
  next
    case (Some r)
    have head: "(case gens of [] \<Rightarrow> False | gen # _ \<Rightarrow> gen \<noteq> r_generation r) \<longleftrightarrow>
        \<not> (0 < length gens \<longrightarrow> gens ! 0 = r_generation r)" by (cases gens) auto
    have tails: "(i < length (tl gens) \<longrightarrow> tl gens ! i = g) \<longleftrightarrow> (Suc i < length gens \<longrightarrow> gens ! Suc i = g)" for i g
      by (cases gens) auto
    show ?thesis
      using 2 [OF Some] Some head by (subst split) (auto simp: tails simp del: length_tl)
  qed
qed simp

lemma RevalidationHolds_iff:
  "fst (RevalidationHolds c resources epoch) \<longleftrightarrow>
     au_coordinator_epoch (c_authority c) = epoch \<and>
     (\<forall>i < length (g_vertices (c_graph c)). \<exists>r. map_of resources (g_vertices (c_graph c) ! i) = Some r \<and>
        IsValid (r_id r) \<and> IsCurrent (r_evidence r) \<and>
        (i < length (au_resource_generations (c_authority c)) \<longrightarrow>
           au_resource_generations (c_authority c) ! i = r_generation r))"
  by (simp add: RevalidationHolds_def revalidate_members_iff)

lemma MakeAuthority_fields [simp]:
  "au_coordinator_epoch (MakeAuthority gen req members nodes paths epoch) = epoch"
  "au_resource_generations (MakeAuthority gen req members nodes paths epoch) = map r_generation members"
  "au_composition_generation (MakeAuthority gen req members nodes paths epoch) = gen"
  "au_policy_generation (MakeAuthority gen req members nodes paths epoch) = rq_policy_generation req"
  by (simp_all add: MakeAuthority_def Let_def)

section \<open>Ranks of sound capacities are at least zero\<close>

definition capacity_ok :: "Resource \<Rightarrow> bool" where
  "capacity_ok r \<longleftrightarrow>
     d_amount (cp_compute_units (r_capacity r)) \<and> d_amount (cp_host_memory_bytes (r_capacity r)) \<and>
     d_amount (cp_expanded_memory_bytes (r_capacity r)) \<and> d_amount (cp_storage_bytes (r_capacity r))"

lemma rank_member_nonneg:
  assumes "d_nonneg (rs_capacity s)" "d_nonneg (rs_health s)" "d_nonneg (rs_headroom s)" "capacity_ok r"
  shows "d_nonneg (rs_capacity (rank_member s r))" "d_nonneg (rs_health (rank_member s r))"
    "d_nonneg (rs_headroom (rank_member s r))"
  using assms
  by (auto simp: rank_member_def capacity_ok_def d_amount_def CapacityForDimension_def
      intro!: d_add_nonneg d_mul_nonneg)

lemma rank_sums_nonneg:
  assumes "\<forall>r \<in> set members. capacity_ok r"
    and "d_nonneg (rs_capacity s)" "d_nonneg (rs_health s)" "d_nonneg (rs_headroom s)"
  shows "d_nonneg (rs_capacity (foldl rank_member s members))"
    "d_nonneg (rs_health (foldl rank_member s members))"
    "d_nonneg (rs_headroom (foldl rank_member s members))"
  using assms by (induction members arbitrary: s) (auto simp: rank_member_nonneg)

lemma d_mul_1_nonneg: "d_nonneg x \<Longrightarrow> d_nonneg (d_mul d_1 x)"
  using d_mul_nonneg [of x d_1] d_mul_commute [of d_1 x] by simp

lemma Rank_nonneg: "\<forall>r \<in> set members. capacity_ok r \<Longrightarrow> d_nonneg (rk_total (Rank members))"
  using rank_sums_nonneg [of members "\<lparr>rs_capacity = 0, rs_health = 0, rs_headroom = 0\<rparr>"]
  by (simp add: Rank_def Let_def d_add_nonneg d_mul_1_nonneg d_min_nonneg d_mul_nonneg)

section \<open>Correctness of graphs, domains and revalidation\<close>

definition prescribed_edge :: "CompositionRequest \<Rightarrow> Resource list \<Rightarrow> GraphEdge \<Rightarrow> bool" where
  "prescribed_edge req members e \<longleftrightarrow>
     (\<exists>a \<in> set members. \<exists>b \<in> set members. r_id a \<noteq> r_id b \<and>
        (\<exists>kind \<in> edge_kinds_between (r_resource_class a) (r_resource_class b). e = edge_of req a b kind))"

definition graph_ok :: "ResourceGraph \<Rightarrow> ResourceMap \<Rightarrow> PathMap \<Rightarrow> bool" where
  "graph_ok g resources paths \<longleftrightarrow> (\<forall>e \<in> set (g_edges g). edge_ok resources paths e)"

text \<open>The recorded authority agrees with the present registry and epoch.\<close>

definition authority_current :: "Composition \<Rightarrow> ResourceMap \<Rightarrow> CoordinatorEpoch \<Rightarrow> bool" where
  "authority_current c resources epoch \<longleftrightarrow>
     au_coordinator_epoch (c_authority c) = epoch \<and>
     (\<forall>i < length (g_vertices (c_graph c)). \<exists>r. map_of resources (g_vertices (c_graph c) ! i) = Some r \<and>
        IsValid (r_id r) \<and> IsCurrent (r_evidence r) \<and>
        (i < length (au_resource_generations (c_authority c)) \<longrightarrow>
           au_resource_generations (c_authority c) ! i = r_generation r))"

text \<open>
  The graph of a resource set has exactly the prescribed edges: between different
  resources, of the kinds the two classes call for, with the request's bandwidth and latency
  bounds on each.
\<close>

theorem built_edges_exact: "e \<in> set (g_edges (BuildGraph req members)) \<longleftrightarrow> prescribed_edge req members e"
  unfolding prescribed_edge_def by (rule BuildGraph_edges)

text \<open>
  A graph validates exactly when each of its edges has both endpoints registered and is
  either local or carried by a verified, available and current path within the edge's bounds.
\<close>

theorem validation_exact: "fst (ValidateGraph g resources paths) \<longleftrightarrow> graph_ok g resources paths"
  unfolding graph_ok_def by (rule ValidateGraph_iff)

text \<open>
  The failure-domain check accepts exactly the member sets that satisfy the requested
  topology: one node for colocation, two nodes for spreading, two domains for distinctness,
  and no domain name used more often than the shared-risk bound.
\<close>

theorem topology_exact: "fst (ValidateFailureDomains members req) \<longleftrightarrow> topology_ok members req"
  by (rule ValidateFailureDomains_iff)

text \<open>
  Revalidation holds exactly when the composition's epoch is the current one and every
  member is registered with a valid id, current evidence and the generation on record.
\<close>

theorem revalidation_exact: "fst (RevalidationHolds c resources epoch) \<longleftrightarrow> authority_current c resources epoch"
  unfolding authority_current_def by (rule RevalidationHolds_iff)

end
