(* ===== verification/Fabric_Engine.thy ===== *)
theory Fabric_Engine
  imports Fabric_Graph
begin

text \<open>
  The engine's state and its registry: \<open>src/dfabric/engine.cpp\<close>, lines 337--351, 412--591
  and 917--967, and the structs of \<open>include/dfabric/engine.hpp\<close>.  \<open>FabricEngine::Impl\<close> is
  the record \<open>Impl\<close>; a public member function that holds the engine's mutex for its whole
  body is one function from state to state.

  Operations that invalidate compositions do so by mapping a function over the composition
  table that only takes authority away.  The locale \<open>demotion\<close> states that contract, and
  every such function of the engine is an instance.
\<close>

section \<open>State\<close>

record EngineConfig =
  cf_coordinator :: CoordinatorId
  cf_epoch :: CoordinatorEpoch
  cf_node_authority :: string
  cf_persist_authority_only :: bool

record Impl =
  im_config :: EngineConfig
  im_resources :: ResourceMap
  im_nodes :: NodeMap
  im_backends :: "Backend list"
  im_paths :: PathMap
  im_compositions :: "(CompositionId, Composition) umap"
  im_reservations :: "(ReservationId, Reservation) umap"
  im_reserved_amount :: "(ResourceId, double) omap"
  im_policies :: "(PolicyId, PolicyGeneration) omap"
  im_draining :: "CompositionId set"
  im_fenced :: "CompositionId set"
  im_next_comp :: u64
  im_next_res :: u64
  im_next_rs :: u64
  im_next_resv :: u64

abbreviation im_epoch :: "Impl \<Rightarrow> CoordinatorEpoch" where
  "im_epoch s \<equiv> cf_epoch (im_config s)"

definition FabricEngine :: "EngineConfig \<Rightarrow> Impl" where
  "FabricEngine cfg =
     \<lparr>im_config = cfg
        \<lparr>cf_coordinator := (if IsValid (cf_coordinator cfg) then cf_coordinator cfg else StrongId 1),
         cf_epoch := (if gen_IsValid (cf_epoch cfg) then cf_epoch cfg else StrongGeneration 1)\<rparr>,
      im_resources = [], im_nodes = [], im_backends = [], im_paths = [], im_compositions = [],
      im_reservations = [], im_reserved_amount = [], im_policies = [], im_draining = {},
      im_fenced = {}, im_next_comp = 1, im_next_res = 1, im_next_rs = 1, im_next_resv = 1\<rparr>"

definition AddBackend :: "Backend option \<Rightarrow> Impl \<Rightarrow> Impl" where
  "AddBackend b s = (case b of None \<Rightarrow> s | Some b \<Rightarrow> s\<lparr>im_backends := im_backends s @ [b]\<rparr>)"

section \<open>Ingestion\<close>

definition generation_demote :: "Composition \<Rightarrow> Composition" where
  "generation_demote c =
     (if c_lifecycle c = CL_ACTIVE then c\<lparr>c_lifecycle := CL_RECOMPOSITION_REQUIRED\<rparr>
      else if c_lifecycle c = CL_COMMITTED \<or> c_lifecycle c = CL_RESERVED
        then c\<lparr>c_lifecycle := CL_REVALIDATION_REQUIRED\<rparr>
      else c)"

definition is_member :: "ResourceId \<Rightarrow> Composition \<Rightarrow> bool" where
  "is_member rid c \<longleftrightarrow> rid \<in> set (g_vertices (c_graph c))"

definition member_demote :: "ResourceId \<Rightarrow> Composition \<Rightarrow> Composition" where
  "member_demote rid c = (if is_member rid c then generation_demote c else c)"

definition IngestNodeLocked :: "Node \<Rightarrow> Impl \<Rightarrow> Impl" where
  "IngestNodeLocked n s =
     (if \<not> IsValid (n_id n) then s
      else let s1 = (case map_of (im_nodes s) (n_id n) of
                       None \<Rightarrow> s
                     | Some old \<Rightarrow>
                         if n_generation old \<noteq> n_generation n
                         then s\<lparr>im_compositions := um_map_values generation_demote (im_compositions s)\<rparr>
                         else s)
           in s1\<lparr>im_nodes := um_put (n_id n) n (im_nodes s1)\<rparr>)"

definition IngestResourceLocked :: "Resource \<Rightarrow> Impl \<Rightarrow> Impl" where
  "IngestResourceLocked r s =
     (if \<not> IsValid (r_id r) then s
      else let s1 = (case map_of (im_resources s) (r_id r) of
                       None \<Rightarrow> s
                     | Some old \<Rightarrow>
                         if r_generation old \<noteq> r_generation r
                         then s\<lparr>im_compositions := um_map_values (member_demote (r_id r)) (im_compositions s)\<rparr>
                         else s)
           in s1\<lparr>im_resources := um_put (r_id r) r (im_resources s1)\<rparr>)"

definition RegisterNode :: "Node \<Rightarrow> Impl \<Rightarrow> bool \<times> Impl" where
  "RegisterNode n s = (if \<not> IsValid (n_id n) then (False, s) else (True, IngestNodeLocked n s))"

definition RegisterResource :: "Resource \<Rightarrow> Impl \<Rightarrow> bool \<times> Impl" where
  "RegisterResource r s = (if \<not> IsValid (r_id r) then (False, s) else (True, IngestResourceLocked r s))"

section \<open>Discovery\<close>

record DiscoveryResult =
  dr_nodes :: "Node list"
  dr_resources :: "Resource list"

definition discover_node :: "DiscoveryResult \<times> Impl \<Rightarrow> Node \<Rightarrow> DiscoveryResult \<times> Impl" where
  "discover_node = (\<lambda>(out, s) n. (out\<lparr>dr_nodes := dr_nodes out @ [n]\<rparr>, IngestNodeLocked n s))"

definition discover_resource :: "DiscoveryResult \<times> Impl \<Rightarrow> Resource \<Rightarrow> DiscoveryResult \<times> Impl" where
  "discover_resource = (\<lambda>(out, s) r.
     let rr = (case map_of (im_nodes s) (r_node_id r) of
                 None \<Rightarrow> r | Some n \<Rightarrow> r\<lparr>r_synthetic := n_synthetic n\<rparr>)
     in (out\<lparr>dr_resources := dr_resources out @ [rr]\<rparr>, IngestResourceLocked rr s))"

definition discover_backend :: "DiscoveryResult \<times> Impl \<Rightarrow> Backend \<Rightarrow> DiscoveryResult \<times> Impl" where
  "discover_backend acc b =
     foldl discover_resource (foldl discover_node acc (bk_DiscoverNodes b)) (bk_DiscoverResources b)"

text \<open>The first backend that answers a path requirement.\<close>

fun resolve_path :: "Backend list \<Rightarrow> PathRequirement \<Rightarrow> PathEvidence option" where
  "resolve_path [] pr = None"
| "resolve_path (b # bs) pr = (case bk_ResolvePath b pr of Some pe \<Rightarrow> Some pe | None \<Rightarrow> resolve_path bs pr)"

definition discover_path :: "Impl \<Rightarrow> NodeId \<times> NodeId \<Rightarrow> Impl" where
  "discover_path s = (\<lambda>(a, b).
     if a = b then s
     else (case resolve_path (im_backends s)
             (PathRequirement_default\<lparr>pr_from := a, pr_to := b, pr_required := True\<rparr>) of
             None \<Rightarrow> s
           | Some pe \<Rightarrow> s\<lparr>im_paths := om_put (PathKey a b) pe (im_paths s)\<rparr>))"

definition Discover :: "Impl \<Rightarrow> DiscoveryResult \<times> Impl" where
  "Discover s =
     (let (out, s1) = foldl discover_backend (\<lparr>dr_nodes = [], dr_resources = []\<rparr>, s) (im_backends s);
          ids = map fst (im_nodes s1)
      in (out, foldl discover_path s1 (List.product ids ids)))"

section \<open>Withdrawal, worker death and epochs\<close>

definition active_demote :: "(Composition \<Rightarrow> bool) \<Rightarrow> CompositionLifecycle \<Rightarrow> Composition \<Rightarrow> Composition" where
  "active_demote P target c =
     (if c_lifecycle c = CL_ACTIVE \<and> P c then c\<lparr>c_lifecycle := target\<rparr> else c)"

definition InvalidateNode :: "ResourceId \<Rightarrow> Impl \<Rightarrow> Impl" where
  "InvalidateNode rid s =
     (case map_of (im_resources s) rid of
        None \<Rightarrow> s
      | Some r \<Rightarrow> s\<lparr>im_resources := um_put rid
          (r\<lparr>r_evidence := (r_evidence r)\<lparr>ev_state := ES_REVALIDATION_REQUIRED, ev_max_age_ms := 0\<rparr>\<rparr>)
          (im_resources s)\<rparr>)"

definition WithdrawResource :: "ResourceId \<Rightarrow> Impl \<Rightarrow> Impl" where
  "WithdrawResource rid s =
     (case map_of (im_resources s) rid of
        None \<Rightarrow> s
      | Some r \<Rightarrow> s\<lparr>im_resources := um_put rid
            (r\<lparr>r_health := RH_OFFLINE, r_readiness := RD_NOT_READY, r_reachability := RB_UNREACHABLE,
               r_evidence := (r_evidence r)\<lparr>ev_state := ES_REVALIDATION_REQUIRED\<rparr>\<rparr>)
            (im_resources s),
          im_compositions := um_map_values (active_demote (is_member rid) CL_RECOMPOSITION_REQUIRED)
            (im_compositions s)\<rparr>)"

definition owned_by :: "string \<Rightarrow> Resource \<Rightarrow> bool" where
  "owned_by owner r \<longleftrightarrow> ev_owner (r_evidence r) = owner \<or> ev_provenance (r_evidence r) = owner"

definition mark_revalidation :: "string \<Rightarrow> Resource \<Rightarrow> Resource" where
  "mark_revalidation owner r =
     (if owned_by owner r
      then r\<lparr>r_evidence := (r_evidence r)\<lparr>ev_state := ES_REVALIDATION_REQUIRED, ev_max_age_ms := 0\<rparr>,
             r_health := RH_UNKNOWN\<rparr>
      else r)"

definition has_owned_member :: "string \<Rightarrow> ResourceMap \<Rightarrow> Composition \<Rightarrow> bool" where
  "has_owned_member owner resources c \<longleftrightarrow>
     (\<exists>v \<in> set (g_vertices (c_graph c)).
        case map_of resources v of None \<Rightarrow> False | Some r \<Rightarrow> owned_by owner r)"

definition MarkEvidenceRevalidationRequired :: "WorkerBootId \<Rightarrow> Impl \<Rightarrow> Impl" where
  "MarkEvidenceRevalidationRequired owner s =
     (let ownerStr = id_ToString owner;
          resources1 = um_map_values (mark_revalidation ownerStr) (im_resources s)
      in s\<lparr>im_resources := resources1,
           im_compositions := um_map_values
             (active_demote (has_owned_member ownerStr resources1) CL_RECOMPOSITION_REQUIRED) (im_compositions s)\<rparr>)"

definition expire_evidence :: "Resource \<Rightarrow> Resource" where
  "expire_evidence r =
     (if ev_durable (r_evidence r) then r
      else r\<lparr>r_evidence := (r_evidence r)\<lparr>ev_state := ES_REVALIDATION_REQUIRED, ev_max_age_ms := 0\<rparr>\<rparr>)"

definition AdvanceEpoch :: "CoordinatorEpoch \<Rightarrow> Impl \<Rightarrow> Impl" where
  "AdvanceEpoch next_epoch s =
     (if \<not> gen_IsValid next_epoch then s
      else s\<lparr>im_config := (im_config s)\<lparr>cf_epoch := next_epoch\<rparr>,
             im_resources := um_map_values expire_evidence (im_resources s),
             im_compositions := um_map_values (active_demote (\<lambda>_. True) CL_REVALIDATION_REQUIRED)
               (im_compositions s)\<rparr>)"

section \<open>Update notifications\<close>

definition OnResourceUpdate :: "Resource \<Rightarrow> Impl \<Rightarrow> Impl" where
  "OnResourceUpdate updated s = IngestResourceLocked updated s"

definition OnNodeUpdate :: "Node \<Rightarrow> Impl \<Rightarrow> Impl" where
  "OnNodeUpdate updated s = IngestNodeLocked updated s"

definition policy_demote :: "PolicyGeneration \<Rightarrow> Composition \<Rightarrow> Composition" where
  "policy_demote gen c =
     (if c_lifecycle c = CL_ACTIVE \<or> c_lifecycle c = CL_COMMITTED then
        (if au_policy_generation (c_authority c) \<noteq> gen then
           (if c_lifecycle c = CL_ACTIVE then c\<lparr>c_lifecycle := CL_RECOMPOSITION_REQUIRED\<rparr>
            else c\<lparr>c_lifecycle := CL_REVALIDATION_REQUIRED\<rparr>)
         else c)
      else c)"

definition OnPolicyUpdate :: "PolicyId \<Rightarrow> PolicyGeneration \<Rightarrow> Impl \<Rightarrow> Impl" where
  "OnPolicyUpdate policy gen s =
     s\<lparr>im_policies := om_put policy gen (im_policies s),
       im_compositions := um_map_values (policy_demote gen) (im_compositions s)\<rparr>"

definition uses_changed_path :: "PathEvidence \<Rightarrow> Composition \<Rightarrow> bool" where
  "uses_changed_path pe c \<longleftrightarrow>
     (\<exists>p \<in> set (c_paths c).
        pr_from (pe_requirement p) = pr_from (pe_requirement pe) \<and>
        pr_to (pe_requirement p) = pr_to (pe_requirement pe) \<and> pe_generation p \<noteq> pe_generation pe)"

definition OnPathUpdate :: "PathEvidence \<Rightarrow> Impl \<Rightarrow> Impl" where
  "OnPathUpdate pe s =
     s\<lparr>im_paths := om_put (PathKey (pr_from (pe_requirement pe)) (pr_to (pe_requirement pe))) pe (im_paths s),
       im_compositions := um_map_values (active_demote (uses_changed_path pe) CL_RECOMPOSITION_REQUIRED)
         (im_compositions s)\<rparr>"

definition failure_demote :: "ResourceId \<Rightarrow> Composition \<Rightarrow> Composition" where
  "failure_demote rid c =
     (if is_member rid c \<and> c_lifecycle c = CL_ACTIVE then c\<lparr>c_lifecycle := CL_RECOMPOSITION_REQUIRED\<rparr>
      else if is_member rid c \<and> c_lifecycle c = CL_COMMITTED then c\<lparr>c_lifecycle := CL_REVALIDATION_REQUIRED\<rparr>
      else c)"

definition OnResourceFailure :: "ResourceId \<Rightarrow> Impl \<Rightarrow> Impl" where
  "OnResourceFailure rid s =
     (let s1 = (case map_of (im_resources s) rid of
                  None \<Rightarrow> s
                | Some r \<Rightarrow> s\<lparr>im_resources := um_put rid
                    (r\<lparr>r_health := RH_OFFLINE, r_readiness := RD_NOT_READY,
                       r_evidence := (r_evidence r)\<lparr>ev_state := ES_REVALIDATION_REQUIRED\<rparr>\<rparr>)
                    (im_resources s)\<rparr>)
      in s1\<lparr>im_compositions := um_map_values (failure_demote rid) (im_compositions s1)\<rparr>)"

section \<open>Queries\<close>

definition NodeCount :: "Impl \<Rightarrow> nat" where
  "NodeCount s = length (im_nodes s)"

definition ResourceCount :: "Impl \<Rightarrow> nat" where
  "ResourceCount s = length (im_resources s)"

definition CompositionCount :: "Impl \<Rightarrow> nat" where
  "CompositionCount s = length (im_compositions s)"

definition GetResource :: "Impl \<Rightarrow> ResourceId \<Rightarrow> Resource option" where
  "GetResource s = map_of (im_resources s)"

definition GetNode :: "Impl \<Rightarrow> NodeId \<Rightarrow> Node option" where
  "GetNode s = map_of (im_nodes s)"

definition GetComposition :: "Impl \<Rightarrow> CompositionId \<Rightarrow> Composition option" where
  "GetComposition s = map_of (im_compositions s)"

definition GetReservation :: "Impl \<Rightarrow> ReservationId \<Rightarrow> Reservation option" where
  "GetReservation s = map_of (im_reservations s)"

record RegistrySnapshot =
  sn_nodes :: "Node list"
  sn_resources :: "Resource list"
  sn_compositions :: "Composition list"
  sn_reservations :: "Reservation list"
  sn_epoch :: CoordinatorEpoch

definition Snapshot :: "Impl \<Rightarrow> RegistrySnapshot" where
  "Snapshot s =
     \<lparr>sn_nodes = map snd (im_nodes s), sn_resources = map snd (im_resources s),
      sn_compositions = map snd (im_compositions s), sn_reservations = map snd (im_reservations s),
      sn_epoch = im_epoch s\<rparr>"

record EligibilityDetail =
  el_eligible :: bool
  el_reasons :: "RejectionReason list"
  el_notes :: "string list"

definition CheckEligibility :: "Impl \<Rightarrow> ResourceId \<Rightarrow> CompositionRequest \<Rightarrow> EligibilityDetail" where
  "CheckEligibility s i req =
     (case map_of (im_resources s) i of
        None \<Rightarrow> \<lparr>el_eligible = False, el_reasons = [RR_RESOURCE_OFFLINE], el_notes = [''resource not registered'']\<rparr>
      | Some r \<Rightarrow> (let (ok, reasons, notes) = ResourceEligible r req
                   in \<lparr>el_eligible = ok, el_reasons = reasons, el_notes = notes\<rparr>))"

definition ExplainEligibility :: "Impl \<Rightarrow> ResourceId \<Rightarrow> CompositionRequest \<Rightarrow> string" where
  "ExplainEligibility s i req =
     (let d = CheckEligibility s i req in
      if el_eligible d then ''ELIGIBLE '' @ id_ToString i
      else ''REJECTED '' @ id_ToString i @ concat (map (\<lambda>r. '' '' @ RejectionReason_ToString r) (el_reasons d)))"

section \<open>Well-formed tables\<close>

definition keys_ok :: "Impl \<Rightarrow> bool" where
  "keys_ok s \<longleftrightarrow>
     keyed r_id (im_resources s) \<and> keyed n_id (im_nodes s) \<and> keyed c_id (im_compositions s) \<and>
     keyed rv_id (im_reservations s) \<and> om_ok (im_paths s) \<and> om_ok (im_reserved_amount s) \<and>
     om_ok (im_policies s)"

lemma keys_okI:
  assumes "keyed r_id (im_resources s)" "keyed n_id (im_nodes s)" "keyed c_id (im_compositions s)"
    "keyed rv_id (im_reservations s)" "om_ok (im_paths s)" "om_ok (im_reserved_amount s)" "om_ok (im_policies s)"
  shows "keys_ok s"
  using assms by (simp add: keys_ok_def)

lemma keys_okD:
  assumes "keys_ok s"
  shows "keyed r_id (im_resources s)" "keyed n_id (im_nodes s)" "keyed c_id (im_compositions s)"
    "keyed rv_id (im_reservations s)" "om_ok (im_paths s)" "om_ok (im_reserved_amount s)" "om_ok (im_policies s)"
  using assms by (simp_all add: keys_ok_def)

lemma keys_ok_init: "keys_ok (FabricEngine cfg)"
  by (simp add: keys_ok_def FabricEngine_def)

section \<open>Authority of active compositions\<close>

text \<open>
  An \<open>ACTIVE\<close> composition is bound to the present: its authority carries the current
  coordinator epoch, it is not fenced, and every recorded member generation is the
  generation the registry holds.
\<close>

definition generations_hold :: "ResourceMap \<Rightarrow> Composition \<Rightarrow> bool" where
  "generations_hold resources c \<longleftrightarrow>
     (\<forall>(v, g) \<in> set (zip (g_vertices (c_graph c)) (au_resource_generations (c_authority c))).
        \<exists>r. map_of resources v = Some r \<and> r_generation r = g)"

definition bound_to :: "Impl \<Rightarrow> Composition \<Rightarrow> bool" where
  "bound_to s c \<longleftrightarrow>
     au_coordinator_epoch (c_authority c) = im_epoch s \<and> c_id c \<notin> im_fenced s \<and>
     generations_hold (im_resources s) c"

definition authority_inv :: "Impl \<Rightarrow> bool" where
  "authority_inv s \<longleftrightarrow>
     (\<forall>k c. map_of (im_compositions s) k = Some c \<and> c_lifecycle c = CL_ACTIVE \<longrightarrow> bound_to s c)"

lemma authority_invD:
  "authority_inv s \<Longrightarrow> map_of (im_compositions s) k = Some c \<Longrightarrow> c_lifecycle c = CL_ACTIVE \<Longrightarrow> bound_to s c"
  by (auto simp: authority_inv_def)

lemma authority_inv_init: "authority_inv (FabricEngine cfg)"
  by (simp add: authority_inv_def FabricEngine_def)

definition keeps_generations :: "ResourceMap \<Rightarrow> ResourceMap \<Rightarrow> bool" where
  "keeps_generations m m' \<longleftrightarrow>
     (\<forall>k r. map_of m k = Some r \<longrightarrow> (\<exists>r'. map_of m' k = Some r' \<and> r_generation r' = r_generation r))"

lemma keeps_generations_refl [simp]: "keeps_generations m m"
  by (simp add: keeps_generations_def)

lemma keeps_generations_put:
  "map_of m k = Some r \<Longrightarrow> r_generation r' = r_generation r \<Longrightarrow> keeps_generations m (um_put k r' m)"
  by (auto simp: keeps_generations_def update_conv)

lemma keeps_generations_new: "map_of m k = None \<Longrightarrow> keeps_generations m (um_put k r m)"
  by (auto simp: keeps_generations_def update_conv)

lemma keeps_generations_map:
  "(\<And>r. r_generation (f r) = r_generation r) \<Longrightarrow> keeps_generations m (um_map_values f m)"
  by (auto simp: keeps_generations_def)

lemma generations_hold_keep: "generations_hold m c \<Longrightarrow> keeps_generations m m' \<Longrightarrow> generations_hold m' c"
  unfolding generations_hold_def keeps_generations_def by fastforce

section \<open>Operations that take authority away\<close>

definition demotes_to :: "CompositionLifecycle \<Rightarrow> CompositionLifecycle \<Rightarrow> bool" where
  "demotes_to l l' \<longleftrightarrow>
     l' = l \<or> l = CL_ACTIVE \<and> l' \<in> {CL_RECOMPOSITION_REQUIRED, CL_REVALIDATION_REQUIRED} \<or>
     l \<in> {CL_COMMITTED, CL_RESERVED} \<and> l' = CL_REVALIDATION_REQUIRED"

locale demotion =
  fixes f :: "Composition \<Rightarrow> Composition"
  assumes only_lifecycle: "f c = c\<lparr>c_lifecycle := c_lifecycle (f c)\<rparr>"
    and demotes: "demotes_to (c_lifecycle c) (c_lifecycle (f c))"
begin

lemma keeps [simp]:
  "c_id (f c) = c_id c" "c_graph (f c) = c_graph c" "c_authority (f c) = c_authority c"
  "c_request (f c) = c_request c" "c_reservation (f c) = c_reservation c"
  "c_generation (f c) = c_generation c" "c_paths (f c) = c_paths c"
  by (simp_all add: arg_cong [OF only_lifecycle, of c_id] arg_cong [OF only_lifecycle, of c_graph]
      arg_cong [OF only_lifecycle, of c_authority] arg_cong [OF only_lifecycle, of c_request]
      arg_cong [OF only_lifecycle, of c_reservation] arg_cong [OF only_lifecycle, of c_generation]
      arg_cong [OF only_lifecycle, of c_paths])

lemma active_only_if_active: "c_lifecycle (f c) = CL_ACTIVE \<Longrightarrow> c_lifecycle c = CL_ACTIVE"
  using demotes [of c] by (auto simp: demotes_to_def)

lemma same_if_same_lifecycle: "c_lifecycle (f c) = c_lifecycle c \<Longrightarrow> f c = c"
  using only_lifecycle [of c] by simp

lemma active_fixed: "c_lifecycle (f c) = CL_ACTIVE \<Longrightarrow> f c = c"
  by (rule same_if_same_lifecycle) (simp only: active_only_if_active [of c])

lemma table_active:
  "map_of (um_map_values f m) k = Some c \<Longrightarrow> c_lifecycle c = CL_ACTIVE \<Longrightarrow> map_of m k = Some c"
  using active_fixed by fastforce

lemma table_keyed: "keyed c_id m \<Longrightarrow> keyed c_id (um_map_values f m)"
  by (rule keyed_map_values) simp_all

lemma authority_step:
  assumes inv: "authority_inv s"
    and table: "im_compositions s' = um_map_values f (im_compositions s)"
    and bound: "\<And>k c. map_of (im_compositions s) k = Some c \<Longrightarrow> c_lifecycle (f c) = CL_ACTIVE \<Longrightarrow>
      bound_to s c \<Longrightarrow> bound_to s' c"
  shows "authority_inv s'"
  unfolding authority_inv_def
proof (intro allI impI, elim conjE)
  fix k c assume k: "map_of (im_compositions s') k = Some c" and act: "c_lifecycle c = CL_ACTIVE"
  then obtain c0 where c0: "map_of (im_compositions s) k = Some c0" "c = f c0" by (auto simp: table)
  then have same: "c = c0" using act active_fixed by simp
  show "bound_to s' c"
    using bound [of k c0] authority_invD [OF inv c0(1)] c0 act same by simp
qed

end

interpretation generation_demotion: demotion generation_demote
  by unfold_locales (auto simp: generation_demote_def demotes_to_def)

interpretation member_demotion: demotion "member_demote rid" for rid
  by unfold_locales (auto simp: member_demote_def generation_demote_def demotes_to_def)

interpretation recompose_demotion: demotion "active_demote P CL_RECOMPOSITION_REQUIRED" for P
  by unfold_locales (auto simp: active_demote_def demotes_to_def)

interpretation revalidate_demotion: demotion "active_demote P CL_REVALIDATION_REQUIRED" for P
  by unfold_locales (auto simp: active_demote_def demotes_to_def)

interpretation policy_demotion: demotion "policy_demote gen" for gen
  by unfold_locales (auto simp: policy_demote_def demotes_to_def)

interpretation failure_demotion: demotion "failure_demote rid" for rid
  by unfold_locales (auto simp: failure_demote_def demotes_to_def)

section \<open>Registry operations keep the tables and the authority\<close>

lemma bound_to_mono:
  assumes "bound_to s c" "im_epoch s' = im_epoch s" "im_fenced s' = im_fenced s"
    "keeps_generations (im_resources s) (im_resources s')"
  shows "bound_to s' c"
  using assms by (auto simp: bound_to_def elim: generations_hold_keep)

lemma authority_inv_mono:
  assumes "authority_inv s" "im_compositions s' = im_compositions s" "im_epoch s' = im_epoch s"
    "im_fenced s' = im_fenced s" "keeps_generations (im_resources s) (im_resources s')"
  shows "authority_inv s'"
  using assms bound_to_mono unfolding authority_inv_def by metis

lemma keys_ok_IngestNode [inv_intros]: "keys_ok s \<Longrightarrow> keys_ok (IngestNodeLocked n s)"
  by (auto simp: IngestNodeLocked_def keys_ok_def Let_def keyed_put generation_demotion.table_keyed
      split: option.split)

lemma keys_ok_IngestResource [inv_intros]: "keys_ok s \<Longrightarrow> keys_ok (IngestResourceLocked r s)"
  by (auto simp: IngestResourceLocked_def keys_ok_def Let_def keyed_put member_demotion.table_keyed
      split: option.split)

lemma IngestNode_frame [frame_simps, simp]:
  "im_resources (IngestNodeLocked n s) = im_resources s"
  "im_config (IngestNodeLocked n s) = im_config s"
  "im_fenced (IngestNodeLocked n s) = im_fenced s"
  "im_paths (IngestNodeLocked n s) = im_paths s"
  "im_backends (IngestNodeLocked n s) = im_backends s"
  "im_reservations (IngestNodeLocked n s) = im_reservations s"
  "im_reserved_amount (IngestNodeLocked n s) = im_reserved_amount s"
  "im_next_comp (IngestNodeLocked n s) = im_next_comp s"
  "im_next_resv (IngestNodeLocked n s) = im_next_resv s"
  by (simp_all add: IngestNodeLocked_def Let_def split: option.split)

lemma IngestResource_frame [frame_simps, simp]:
  "im_nodes (IngestResourceLocked r s) = im_nodes s"
  "im_config (IngestResourceLocked r s) = im_config s"
  "im_fenced (IngestResourceLocked r s) = im_fenced s"
  "im_paths (IngestResourceLocked r s) = im_paths s"
  "im_backends (IngestResourceLocked r s) = im_backends s"
  "im_reservations (IngestResourceLocked r s) = im_reservations s"
  "im_reserved_amount (IngestResourceLocked r s) = im_reserved_amount s"
  "im_next_comp (IngestResourceLocked r s) = im_next_comp s"
  "im_next_resv (IngestResourceLocked r s) = im_next_resv s"
  by (simp_all add: IngestResourceLocked_def Let_def split: option.split)

lemma IngestNode_compositions:
  "im_compositions (IngestNodeLocked n s) = im_compositions s \<or>
   im_compositions (IngestNodeLocked n s) = um_map_values generation_demote (im_compositions s)"
  by (simp add: IngestNodeLocked_def Let_def split: option.split)

lemma IngestResource_compositions:
  "im_compositions (IngestResourceLocked r s) = im_compositions s \<or>
   im_compositions (IngestResourceLocked r s) = um_map_values (member_demote (r_id r)) (im_compositions s)"
  by (simp add: IngestResourceLocked_def Let_def split: option.split)

lemma authority_inv_IngestNode [inv_intros]:
  assumes inv: "authority_inv s"
  shows "authority_inv (IngestNodeLocked n s)"
  using IngestNode_compositions [of n s]
proof
  assume "im_compositions (IngestNodeLocked n s) = im_compositions s"
  from authority_inv_mono [OF inv this] show ?thesis by simp
next
  assume "im_compositions (IngestNodeLocked n s) = um_map_values generation_demote (im_compositions s)"
  from generation_demotion.authority_step [OF inv this] show ?thesis by (simp add: bound_to_def)
qed

lemma generations_hold_put_other:
  "generations_hold m c \<Longrightarrow> k \<notin> set (g_vertices (c_graph c)) \<Longrightarrow> generations_hold (um_put k r m) c"
  unfolding generations_hold_def by (auto simp: update_conv dest: set_zip_leftD)

lemma authority_inv_IngestResource [inv_intros]:
  assumes inv: "authority_inv s"
  shows "authority_inv (IngestResourceLocked r s)"
proof -
  let ?s' = "IngestResourceLocked r s"
  consider (invalid) "\<not> IsValid (r_id r)"
    | (new) "IsValid (r_id r)" "map_of (im_resources s) (r_id r) = None"
    | (same) old where "IsValid (r_id r)" "map_of (im_resources s) (r_id r) = Some old" "r_generation old = r_generation r"
    | (changed) old where "IsValid (r_id r)" "map_of (im_resources s) (r_id r) = Some old" "r_generation old \<noteq> r_generation r"
    by fastforce
  then show ?thesis
  proof cases
    case invalid
    with inv show ?thesis by (simp add: IngestResourceLocked_def)
  next
    case new
    show ?thesis
      by (rule authority_inv_mono [OF inv]) (use new keeps_generations_new in \<open>simp_all add: IngestResourceLocked_def\<close>)
  next
    case same
    show ?thesis
      by (rule authority_inv_mono [OF inv])
        (use same keeps_generations_put in \<open>simp_all add: IngestResourceLocked_def\<close>)
  next
    case changed
    then have s': "?s' = s\<lparr>im_compositions := um_map_values (member_demote (r_id r)) (im_compositions s),
        im_resources := um_put (r_id r) r (im_resources s)\<rparr>"
      by (simp add: IngestResourceLocked_def)
    show ?thesis
    proof (rule member_demotion.authority_step [OF inv, where rid = "r_id r"])
      show "im_compositions ?s' = um_map_values (member_demote (r_id r)) (im_compositions s)" by (simp add: s')
      fix k c assume act: "c_lifecycle (member_demote (r_id r) c) = CL_ACTIVE" and b: "bound_to s c"
      from act have "r_id r \<notin> set (g_vertices (c_graph c))"
        by (auto simp: member_demote_def generation_demote_def is_member_def split: if_splits)
      with b show "bound_to ?s' c" by (simp add: s' bound_to_def generations_hold_put_other)
    qed
  qed
qed

lemma keys_ok_RegisterNode [inv_intros]: "keys_ok s \<Longrightarrow> keys_ok (snd (RegisterNode n s))"
  by (simp add: RegisterNode_def keys_ok_IngestNode)

lemma authority_inv_RegisterNode [inv_intros]: "authority_inv s \<Longrightarrow> authority_inv (snd (RegisterNode n s))"
  by (simp add: RegisterNode_def authority_inv_IngestNode)

lemma keys_ok_RegisterResource [inv_intros]: "keys_ok s \<Longrightarrow> keys_ok (snd (RegisterResource r s))"
  by (simp add: RegisterResource_def keys_ok_IngestResource)

lemma authority_inv_RegisterResource [inv_intros]:
  "authority_inv s \<Longrightarrow> authority_inv (snd (RegisterResource r s))"
  by (simp add: RegisterResource_def authority_inv_IngestResource)

lemma keys_ok_AddBackend [inv_intros]: "keys_ok s \<Longrightarrow> keys_ok (AddBackend b s)"
  by (simp add: AddBackend_def keys_ok_def split: option.split)

lemma authority_inv_AddBackend [inv_intros]: "authority_inv s \<Longrightarrow> authority_inv (AddBackend b s)"
  by (rule authority_inv_mono [of s]) (simp_all add: AddBackend_def split: option.split)

text \<open>
  Discovery is a sequence of ingestions followed by writes to the path table, so whatever
  those two keep, it keeps.
\<close>

lemma Discover_keeps:
  assumes node: "\<And>n s. P s \<Longrightarrow> P (IngestNodeLocked n s)"
    and resource: "\<And>r s. P s \<Longrightarrow> P (IngestResourceLocked r s)"
    and path: "\<And>a b pe s. P s \<Longrightarrow> P (s\<lparr>im_paths := om_put (PathKey a b) pe (im_paths s)\<rparr>)"
    and "P s"
  shows "P (snd (Discover s))"
proof -
  have nodes: "P (snd (foldl discover_node acc ns))" if "P (snd acc)" for acc ns
    using that by (induction ns arbitrary: acc) (auto simp: discover_node_def node split: prod.splits)
  have resources: "P (snd (foldl discover_resource acc rs))" if "P (snd acc)" for acc rs
    using that by (induction rs arbitrary: acc)
      (auto simp: discover_resource_def resource Let_def split: prod.splits)
  have "P (snd (foldl discover_backend acc bs))" if "P (snd acc)" for acc bs
    using that by (induction bs arbitrary: acc) (auto simp: discover_backend_def nodes resources)
  moreover have "P (foldl discover_path t ps)" if "P t" for t ps
    using that by (induction ps arbitrary: t) (auto simp: discover_path_def path split: prod.splits option.splits)
  ultimately show ?thesis using \<open>P s\<close> by (simp add: Discover_def Let_def split: prod.splits)
      (metis snd_conv)
qed

lemma keys_ok_Discover [inv_intros]: "keys_ok s \<Longrightarrow> keys_ok (snd (Discover s))"
  by (erule Discover_keeps [where P = keys_ok, rotated 3])
    (simp_all add: keys_ok_IngestNode keys_ok_IngestResource, simp add: keys_ok_def om_ok_put)

lemma authority_inv_Discover [inv_intros]: "authority_inv s \<Longrightarrow> authority_inv (snd (Discover s))"
  by (erule Discover_keeps [where P = authority_inv, rotated 3])
    (simp_all add: authority_inv_IngestNode authority_inv_IngestResource, simp add: authority_inv_def bound_to_def)

lemma keys_ok_InvalidateNode [inv_intros]: "keys_ok s \<Longrightarrow> keys_ok (InvalidateNode rid s)"
  by (auto simp: InvalidateNode_def keys_ok_def split: option.split intro!: keyed_put dest: keyed_lookup)

lemma authority_inv_InvalidateNode [inv_intros]: "authority_inv s \<Longrightarrow> authority_inv (InvalidateNode rid s)"
  by (rule authority_inv_mono [of s])
    (simp_all add: InvalidateNode_def keeps_generations_put split: option.split)

lemma keys_ok_WithdrawResource [inv_intros]: "keys_ok s \<Longrightarrow> keys_ok (WithdrawResource rid s)"
  by (auto simp: WithdrawResource_def keys_ok_def recompose_demotion.table_keyed split: option.split
      intro!: keyed_put dest: keyed_lookup)

lemma keys_ok_MarkEvidence [inv_intros]: "keys_ok s \<Longrightarrow> keys_ok (MarkEvidenceRevalidationRequired owner s)"
  by (auto simp: MarkEvidenceRevalidationRequired_def keys_ok_def Let_def recompose_demotion.table_keyed
      mark_revalidation_def intro!: keyed_map_values)

lemma keys_ok_AdvanceEpoch [inv_intros]: "keys_ok s \<Longrightarrow> keys_ok (AdvanceEpoch e s)"
  by (auto simp: AdvanceEpoch_def keys_ok_def revalidate_demotion.table_keyed expire_evidence_def
      intro!: keyed_map_values)

lemma keys_ok_OnPolicyUpdate [inv_intros]: "keys_ok s \<Longrightarrow> keys_ok (OnPolicyUpdate policy gen s)"
  by (simp add: OnPolicyUpdate_def keys_ok_def policy_demotion.table_keyed om_ok_put)

lemma keys_ok_OnPathUpdate [inv_intros]: "keys_ok s \<Longrightarrow> keys_ok (OnPathUpdate pe s)"
  by (simp add: OnPathUpdate_def keys_ok_def recompose_demotion.table_keyed om_ok_put)

lemma keys_ok_OnResourceFailure [inv_intros]: "keys_ok s \<Longrightarrow> keys_ok (OnResourceFailure rid s)"
  by (auto simp: OnResourceFailure_def keys_ok_def Let_def failure_demotion.table_keyed split: option.split
      intro!: keyed_put dest: keyed_lookup)

lemma authority_inv_WithdrawResource [inv_intros]:
  assumes inv: "authority_inv s"
  shows "authority_inv (WithdrawResource rid s)"
proof (cases "map_of (im_resources s) rid")
  case None
  with inv show ?thesis by (simp add: WithdrawResource_def)
next
  case (Some r)
  show ?thesis
    by (rule recompose_demotion.authority_step [OF inv, where P = "is_member rid"])
      (use Some in \<open>auto simp: WithdrawResource_def intro!: keeps_generations_put elim!: bound_to_mono\<close>)
qed

lemma authority_inv_MarkEvidence [inv_intros]:
  assumes inv: "authority_inv s"
  shows "authority_inv (MarkEvidenceRevalidationRequired owner s)"
  by (rule recompose_demotion.authority_step [OF inv]) 
    (auto simp: MarkEvidenceRevalidationRequired_def Let_def mark_revalidation_def
      intro!: keeps_generations_map elim!: bound_to_mono)

lemma active_demote_all: "target \<noteq> CL_ACTIVE \<Longrightarrow> c_lifecycle (active_demote (\<lambda>_. True) target c) \<noteq> CL_ACTIVE"
  by (simp add: active_demote_def)

lemma AdvanceEpoch_no_active:
  "gen_IsValid e \<Longrightarrow> map_of (im_compositions (AdvanceEpoch e s)) k = Some c \<Longrightarrow> c_lifecycle c \<noteq> CL_ACTIVE"
  by (auto simp: AdvanceEpoch_def active_demote_all)

lemma authority_inv_AdvanceEpoch [inv_intros]: "authority_inv s \<Longrightarrow> authority_inv (AdvanceEpoch e s)"
  using AdvanceEpoch_no_active [of e s]
  by (cases "gen_IsValid e") (blast intro: authority_inv_def [THEN iffD2], simp add: AdvanceEpoch_def)

lemma authority_inv_OnPolicyUpdate [inv_intros]:
  assumes inv: "authority_inv s"
  shows "authority_inv (OnPolicyUpdate policy gen s)"
  by (rule policy_demotion.authority_step [OF inv]) (auto simp: OnPolicyUpdate_def elim!: bound_to_mono)

lemma authority_inv_OnPathUpdate [inv_intros]:
  assumes inv: "authority_inv s"
  shows "authority_inv (OnPathUpdate pe s)"
  by (rule recompose_demotion.authority_step [OF inv]) (auto simp: OnPathUpdate_def elim!: bound_to_mono)

lemma authority_inv_OnResourceFailure [inv_intros]:
  assumes inv: "authority_inv s"
  shows "authority_inv (OnResourceFailure rid s)"
  by (rule failure_demotion.authority_step [OF inv])
    (auto simp: OnResourceFailure_def Let_def intro!: keeps_generations_put elim!: bound_to_mono split: option.split)

section \<open>What an invalidation guarantees\<close>

lemma expire_not_current [simp]:
  "\<not> IsCurrent (e\<lparr>ev_state := ES_REVALIDATION_REQUIRED\<rparr>)"
  "\<not> IsCurrent (e\<lparr>ev_state := ES_REVALIDATION_REQUIRED, ev_max_age_ms := 0\<rparr>)"
  by (simp_all add: IsCurrent_iff)

lemma expire_evidence_not_current:
  "\<not> ev_durable (r_evidence (expire_evidence r)) \<Longrightarrow> \<not> IsCurrent (r_evidence (expire_evidence r))"
  by (simp add: expire_evidence_def split: if_splits)

lemma not_current_ineligible: "\<not> IsCurrent (r_evidence r) \<Longrightarrow> \<not> eligible r req"
  by (simp add: eligible_iff eligible_spec_def)

lemma mark_revalidation_owner [simp]: "owned_by owner (mark_revalidation owner' r) = owned_by owner r"
  by (simp add: mark_revalidation_def owned_by_def)

lemma mark_not_current: "owned_by owner r \<Longrightarrow> \<not> IsCurrent (r_evidence (mark_revalidation owner r))"
  by (simp add: mark_revalidation_def)

lemma active_demote_active:
  "target \<noteq> CL_ACTIVE \<Longrightarrow> c_lifecycle (active_demote P target c) = CL_ACTIVE \<Longrightarrow> \<not> P c"
  by (auto simp: active_demote_def split: if_splits)

lemma worker_death_resources:
  "map_of (im_resources (MarkEvidenceRevalidationRequired w s)) k = Some r \<Longrightarrow> owned_by (id_ToString w) r \<Longrightarrow>
     \<not> eligible r req"
  by (rule not_current_ineligible)
    (auto simp: MarkEvidenceRevalidationRequired_def Let_def mark_not_current)

lemma worker_death_compositions:
  assumes "map_of (im_compositions (MarkEvidenceRevalidationRequired w s)) k = Some c" "c_lifecycle c = CL_ACTIVE"
  shows "\<not> has_owned_member (id_ToString w) (im_resources (MarkEvidenceRevalidationRequired w s)) c"
  using assms by (auto simp: MarkEvidenceRevalidationRequired_def Let_def has_owned_member_def
      dest: active_demote_active [rotated])

lemma failure_demote_member:
  "is_member rid c \<Longrightarrow> c_lifecycle (failure_demote rid c) \<notin> {CL_ACTIVE, CL_COMMITTED}"
  by (auto simp: failure_demote_def)

lemma policy_demote_bound:
  "c_lifecycle (policy_demote gen c) \<in> {CL_ACTIVE, CL_COMMITTED} \<Longrightarrow> au_policy_generation (c_authority c) = gen"
  by (auto simp: policy_demote_def split: if_splits)

text \<open>What registration files is what a lookup returns.\<close>

lemma GetResource_RegisterResource:
  "IsValid (r_id r) \<Longrightarrow>
     GetResource (snd (RegisterResource r s)) i = (if i = r_id r then Some r else GetResource s i)"
  by (simp add: RegisterResource_def IngestResourceLocked_def GetResource_def Let_def update_conv split: option.split)

lemma GetNode_RegisterNode:
  "IsValid (n_id n) \<Longrightarrow> GetNode (snd (RegisterNode n s)) i = (if i = n_id n then Some n else GetNode s i)"
  by (simp add: RegisterNode_def IngestNodeLocked_def GetNode_def Let_def update_conv split: option.split)

section \<open>Correctness of registration and invalidation\<close>

definition worker_revoked :: "string \<Rightarrow> Impl \<Rightarrow> bool" where
  "worker_revoked owner s \<longleftrightarrow>
     (\<forall>k r req. map_of (im_resources s) k = Some r \<and> owned_by owner r \<longrightarrow> \<not> eligible r req) \<and>
     (\<forall>k c. map_of (im_compositions s) k = Some c \<and> c_lifecycle c = CL_ACTIVE \<longrightarrow>
        \<not> has_owned_member owner (im_resources s) c)"

definition resource_out :: "ResourceId \<Rightarrow> Impl \<Rightarrow> bool" where
  "resource_out rid s \<longleftrightarrow>
     (\<forall>r req. map_of (im_resources s) rid = Some r \<longrightarrow> \<not> eligible r req) \<and>
     (\<forall>k c. map_of (im_compositions s) k = Some c \<and> is_member rid c \<longrightarrow> c_lifecycle c \<notin> {CL_ACTIVE, CL_COMMITTED})"

definition policy_bound :: "PolicyGeneration \<Rightarrow> Impl \<Rightarrow> bool" where
  "policy_bound gen s \<longleftrightarrow>
     (\<forall>k c. map_of (im_compositions s) k = Some c \<and> c_lifecycle c \<in> {CL_ACTIVE, CL_COMMITTED} \<longrightarrow>
        au_policy_generation (c_authority c) = gen)"

definition epoch_fresh :: "CoordinatorEpoch \<Rightarrow> Impl \<Rightarrow> bool" where
  "epoch_fresh e s \<longleftrightarrow>
     im_epoch s = e \<and>
     (\<forall>k c. map_of (im_compositions s) k = Some c \<longrightarrow> c_lifecycle c \<noteq> CL_ACTIVE) \<and>
     (\<forall>k r req. map_of (im_resources s) k = Some r \<and> \<not> ev_durable (r_evidence r) \<longrightarrow> \<not> eligible r req)"

text \<open>
  When a worker dies, no resource it vouched for is eligible for any request, and no
  composition that contains such a resource is still active.
\<close>

theorem worker_death_revokes: "worker_revoked (id_ToString w) (MarkEvidenceRevalidationRequired w s)"
  unfolding worker_revoked_def using worker_death_resources worker_death_compositions by blast

text \<open>
  C27. A reported resource failure makes the resource ineligible for every request and leaves
  no active or committed composition that contains it.
\<close>

theorem resource_failure_takes_out: "resource_out rid (OnResourceFailure rid s)"
proof -
  have "\<not> eligible r req" if "map_of (im_resources (OnResourceFailure rid s)) rid = Some r" for r req
    using that by (intro not_current_ineligible) (auto simp: OnResourceFailure_def Let_def update_conv split: option.splits)
  moreover have "c_lifecycle c \<notin> {CL_ACTIVE, CL_COMMITTED}"
    if k: "map_of (im_compositions (OnResourceFailure rid s)) k = Some c" "is_member rid c" for k c
  proof -
    from k obtain c0 where "c = failure_demote rid c0" by (auto simp: OnResourceFailure_def Let_def split: option.splits)
    moreover have "is_member rid c0" using k(2) calculation by (simp add: is_member_def)
    ultimately show ?thesis using failure_demote_member by simp
  qed
  ultimately show ?thesis unfolding resource_out_def by blast
qed

text \<open>
  After a policy update every composition that is still active or committed is bound to
  exactly the new policy generation.
\<close>

theorem policy_update_binds: "policy_bound gen (OnPolicyUpdate policy gen s)"
proof -
  have "au_policy_generation (c_authority c) = gen"
    if "map_of (im_compositions (OnPolicyUpdate policy gen s)) k = Some c" "c_lifecycle c \<in> {CL_ACTIVE, CL_COMMITTED}" for k c
    using that policy_demote_bound by (auto simp: OnPolicyUpdate_def)
  then show ?thesis unfolding policy_bound_def by blast
qed

text \<open>
  Advancing to a valid epoch leaves nothing active, and no resource without durable
  evidence is eligible until its evidence is published again.
\<close>

theorem epoch_advance_resets: "gen_IsValid e \<Longrightarrow> epoch_fresh e (AdvanceEpoch e s)"
proof -
  assume e: "gen_IsValid e"
  have "\<not> eligible r req" if "map_of (im_resources (AdvanceEpoch e s)) k = Some r" "\<not> ev_durable (r_evidence r)" for k r req
    using that e by (intro not_current_ineligible) (auto simp: AdvanceEpoch_def dest: expire_evidence_not_current)
  moreover have "im_epoch (AdvanceEpoch e s) = e" using e by (simp add: AdvanceEpoch_def)
  ultimately show ?thesis unfolding epoch_fresh_def using AdvanceEpoch_no_active [OF e] by blast
qed

definition ex_config :: EngineConfig where
  "ex_config = \<lparr>cf_coordinator = StrongId 1, cf_epoch = StrongGeneration 1, cf_node_authority = ''host'',
     cf_persist_authority_only = True\<rparr>"

definition ex_registry :: Impl where
  "ex_registry = snd (RegisterResource (ex_resource 1 RC_COMPUTE) (snd (RegisterNode ex_node (FabricEngine ex_config))))"

theorem epoch_advance_resets_witness:
  "gen_IsValid (StrongGeneration 2 :: CoordinatorEpoch) \<and> epoch_fresh (StrongGeneration 2) (AdvanceEpoch (StrongGeneration 2) ex_registry)"
  using epoch_advance_resets [of "StrongGeneration 2" ex_registry] by (simp add: gen_IsValid_def)

text \<open>
  A registration with a valid id is what lookups return from then on, and it changes no
  other entry.
\<close>

theorem registration_lookup:
  "IsValid (r_id r) \<Longrightarrow> IsValid (n_id n) \<Longrightarrow>
     GetResource (snd (RegisterResource r s)) i = (if i = r_id r then Some r else GetResource s i) \<and>
     GetNode (snd (RegisterNode n s)) j = (if j = n_id n then Some n else GetNode s j)"
  by (simp add: GetResource_RegisterResource GetNode_RegisterNode)

theorem registration_lookup_witness:
  "IsValid (r_id (ex_resource 1 RC_COMPUTE)) \<and> IsValid (n_id ex_node) \<and>
   GetResource (snd (RegisterResource (ex_resource 1 RC_COMPUTE) ex_registry)) (StrongId 1) = Some (ex_resource 1 RC_COMPUTE)"
  using registration_lookup [of "ex_resource 1 RC_COMPUTE" ex_node ex_registry "StrongId 1" "StrongId 1"]
  by (simp add: ex_resource_def ex_node_def IsValid_def)

end
