(* ===== verification/Fabric_Planner.thy ===== *)
theory Fabric_Planner
  imports Fabric_Engine "HOL-Library.Sublist" "HOL-Library.Product_Lexorder"
begin

text \<open>
  \<open>src/dfabric/engine.cpp\<close>, lines 354--399 and 592--773: the bounded deterministic planner.
  \<open>EnumerateSelections\<close> lists candidate selections of one class, the Cartesian product joins
  the classes under a cap, and the evaluation loop keeps the best feasible combination.  The
  loops are written with their early exits, and then proved equal to closed forms.
\<close>

section \<open>Selections of one class\<close>

definition MeetsDemand :: "Resource list \<Rightarrow> ClassDemand \<Rightarrow> bool" where
  "MeetsDemand sel d =
     (if sel = [] then False
      else if cd_amount_based d
        then d_ge (foldl (\<lambda>s r. d_add s (CapacityForDimension r (cd_dimension d))) 0 sel) (cd_amount d)
      else cd_count d \<le> word_of_nat (length sel))"

text \<open>
  The recursive lambda \<open>combine\<close> and its inner loop: \<open>cur\<close> is the prefix under
  construction, \<open>out\<close> the selections so far.
\<close>

function (sequential) combine ::
    "Resource list \<Rightarrow> nat \<Rightarrow> nat \<Rightarrow> ResourceId list \<Rightarrow> nat \<Rightarrow> nat \<Rightarrow> ResourceId list list \<Rightarrow> ResourceId list list"
  and combine_loop ::
    "Resource list \<Rightarrow> nat \<Rightarrow> nat \<Rightarrow> ResourceId list \<Rightarrow> nat \<Rightarrow> nat \<Rightarrow> ResourceId list list \<Rightarrow> ResourceId list list" where
  "combine items k cap cur start need out =
     (if cap \<le> length out then out
      else if need = 0 then out @ [cur]
      else combine_loop items k cap cur start need out)"
| "combine_loop items k cap cur i need out =
     (if 0 < need \<and> i \<le> k - need then
        let out1 = combine items k cap (cur @ [r_id (items ! i)]) (i + 1) (need - 1) out
        in if cap \<le> length out1 then out1 else combine_loop items k cap cur (i + 1) need out1
      else out)"
  by pat_completeness auto
termination
  by (relation "measures
      [\<lambda>x. case x of Inl (_, _, _, _, _, need, _) \<Rightarrow> need | Inr (_, _, _, _, _, need, _) \<Rightarrow> need,
       \<lambda>x. case x of Inl _ \<Rightarrow> 1 | Inr _ \<Rightarrow> 0,
       \<lambda>x. case x of Inl _ \<Rightarrow> 0 | Inr (_, k, _, _, i, _, _) \<Rightarrow> Suc k - i]") auto

declare combine.simps [simp del] combine_loop.simps [simp del]

definition push_capped :: "nat \<Rightarrow> 'a list \<Rightarrow> 'a \<Rightarrow> 'a list" where
  "push_capped cap out x = (if length out < cap then out @ [x] else out)"

definition index_pairs :: "'a list \<Rightarrow> ('a \<times> 'a) list" where
  "index_pairs xs =
     concat (map (\<lambda>i. map (\<lambda>j. (xs ! i, xs ! j)) [i + 1..<length xs]) [0..<length xs])"

definition pair_supplies :: "ClassDemand \<Rightarrow> Resource \<times> Resource \<Rightarrow> bool" where
  "pair_supplies d = (\<lambda>(a, b).
     d_ge (d_add (CapacityForDimension a (cd_dimension d)) (CapacityForDimension b (cd_dimension d))) (cd_amount d))"

definition EnumerateSelections :: "Resource list \<Rightarrow> ClassDemand \<Rightarrow> nat \<Rightarrow> ResourceId list list" where
  "EnumerateSelections items d cap =
     (if items = [] then []
      else let want = (if cd_count d \<noteq> 0 then unat (cd_count d) else 1);
               k = min 8 (length items)
           in if k < want then []
              else if \<not> cd_amount_based d then combine items k cap [] 0 want []
              else let singles = foldl (push_capped cap) [] (map (\<lambda>r. [r_id r]) (take k items))
                   in if d_gt (cd_amount d) 0 \<and> 2 \<le> k
                      then foldl (\<lambda>out p. if pair_supplies d p
                                          then push_capped cap out [r_id (fst p), r_id (snd p)] else out)
                             singles (index_pairs (take k items))
                      else singles)"

section \<open>Candidates and the bounded product\<close>

text \<open>The entries of \<open>byClass\<close> for one class, in the iteration order of the registry.\<close>

definition candidates :: "CompositionRequest \<Rightarrow> ResourceMap \<Rightarrow> ResourceClass \<Rightarrow> Resource list" where
  "candidates req resources cls =
     filter (\<lambda>r. r_resource_class r = cls) (filter (\<lambda>r. eligible r req) (map snd resources))"

definition candidate_before :: "ClassDemand \<Rightarrow> Resource \<Rightarrow> Resource \<Rightarrow> bool" where
  "candidate_before d a b =
     (let sa = ClassScore a d; sb = ClassScore b d in
      if \<not> d_eq sa sb then d_gt sa sb else r_id a < r_id b)"

record ComposeResult =
  cr_outcome :: CompositionOutcome
  cr_plan :: CompositionPlan
  cr_reasons :: "RejectionReason list"
  cr_notes :: "string list"

definition compose_rejected :: "string list \<Rightarrow> ComposeResult" where
  "compose_rejected notes =
     \<lparr>cr_outcome = CO_REJECTED, cr_plan = CompositionPlan_default,
      cr_reasons = [RR_NO_VALID_COMPOSITION], cr_notes = notes\<rparr>"

definition compose_ok :: "ComposeResult \<Rightarrow> bool" where
  "compose_ok r \<longleftrightarrow> cr_outcome r = CO_SUCCESS"

type_synonym Sel = "ClassDemand \<times> ResourceId list list"

fun select_classes :: "CompositionRequest \<Rightarrow> ResourceMap \<Rightarrow> ClassDemand list \<Rightarrow> string list + Sel list" where
  "select_classes req resources [] = Inr []"
| "select_classes req resources (d # ds) =
     (if \<not> cd_mandatory d then select_classes req resources ds
      else let picks = EnumerateSelections
                 (std_sort (candidate_before d) (candidates req resources (cd_cls d))) d 24
           in if picks = []
              then Inl [''no eligible candidate for mandatory class '' @ ResourceClass_ToString (cd_cls d)]
              else (case select_classes req resources ds of
                      Inl notes \<Rightarrow> Inl notes | Inr sels \<Rightarrow> Inr ((d, picks) # sels)))"

fun extend_picks :: "nat \<Rightarrow> ResourceId list \<Rightarrow> ResourceId list list \<Rightarrow> ResourceId list list \<Rightarrow> ResourceId list list" where
  "extend_picks cap combo [] out = out"
| "extend_picks cap combo (pick # picks) out =
     (if \<exists>rid \<in> set pick. rid \<in> set combo then extend_picks cap combo picks out
      else let out1 = out @ [combo @ pick]
           in if cap \<le> length out1 then out1 else extend_picks cap combo picks out1)"

fun extend_combos :: "nat \<Rightarrow> ResourceId list list \<Rightarrow> ResourceId list list \<Rightarrow> ResourceId list list \<Rightarrow> ResourceId list list" where
  "extend_combos cap [] picks out = out"
| "extend_combos cap (combo # combos) picks out =
     (let out1 = extend_picks cap combo picks out
      in if cap \<le> length out1 then out1 else extend_combos cap combos picks out1)"

text \<open>The loop over the selections; \<open>None\<close> is the early return on an empty product.\<close>

fun combine_classes :: "nat \<Rightarrow> Sel list \<Rightarrow> ResourceId list list \<Rightarrow> ResourceId list list option" where
  "combine_classes cap [] combos = Some combos"
| "combine_classes cap (sel # sels) combos =
     (let out = extend_combos cap combos (snd sel) []
      in if out = [] then None else combine_classes cap sels out)"

section \<open>Evaluating combinations\<close>

fun lookup_members :: "ResourceMap \<Rightarrow> ResourceId list \<Rightarrow> Resource list option" where
  "lookup_members resources [] = Some []"
| "lookup_members resources (rid # rids) =
     (case map_of resources rid of
        None \<Rightarrow> None
      | Some r \<Rightarrow> map_option (Cons r) (lookup_members resources rids))"

definition meets_all :: "Sel list \<Rightarrow> Resource list \<Rightarrow> bool" where
  "meets_all sels members \<longleftrightarrow>
     (\<forall>sel \<in> set sels. MeetsDemand (filter (\<lambda>r. r_resource_class r = cd_cls (fst sel)) members) (fst sel))"

definition coherent :: "CompositionRequest \<Rightarrow> Resource list \<Rightarrow> bool" where
  "coherent req members \<longleftrightarrow>
     (rq_require_coherence req \<longrightarrow> (\<forall>r \<in> set members. CapabilitySupported r CK_COHERENT_MEMORY_ACCESS))"

definition feasible :: "CompositionRequest \<Rightarrow> ResourceMap \<Rightarrow> PathMap \<Rightarrow> Sel list \<Rightarrow> Resource list \<Rightarrow> bool" where
  "feasible req resources paths sels members \<longleftrightarrow>
     meets_all sels members \<and> fst (ValidateGraph (BuildGraph req members) resources paths) \<and>
     fst (ValidateFailureDomains members req) \<and> coherent req members"

text \<open>The nodes of the members in order of first occurrence.\<close>

definition plan_nodes :: "Resource list \<Rightarrow> NodeId list" where
  "plan_nodes members =
     foldl (\<lambda>ns r. if r_node_id r \<in> set ns then ns else ns @ [r_node_id r]) [] members"

definition edge_requirement :: "CompositionRequest \<Rightarrow> NodeId \<Rightarrow> NodeId \<Rightarrow> PathRequirement" where
  "edge_requirement req a b =
     PathRequirement_default\<lparr>pr_from := a, pr_to := b,
       pr_min_bandwidth_mbps := rq_min_bandwidth_mbps req, pr_max_latency_us := rq_max_latency_us req,
       pr_required := True, pr_direct := rq_require_direct_path req\<rparr>"

definition bind_edge ::
  "CompositionRequest \<Rightarrow> ResourceMap \<Rightarrow> Backend list \<Rightarrow> PathEvidence list \<times> PathMap \<Rightarrow> GraphEdge
     \<Rightarrow> PathEvidence list \<times> PathMap" where
  "bind_edge req resources backends = (\<lambda>(bound, paths) e.
     case (map_of resources (e_from e), map_of resources (e_to e)) of
       (Some from, Some to) \<Rightarrow>
         (if r_node_id from = r_node_id to then (bound, paths)
          else let a = r_node_id from; b = r_node_id to in
            (case resolve_path backends (edge_requirement req a b) of
               Some pe \<Rightarrow> (bound @ [pe], om_put (PathKey a b) pe paths)
             | None \<Rightarrow> (case map_of paths (PathKey a b) of
                          Some pe \<Rightarrow> (bound @ [pe], paths) | None \<Rightarrow> (bound, paths))))
     | _ \<Rightarrow> (bound, paths))"

definition evaluate_combo ::
  "CompositionRequest \<Rightarrow> ResourceMap \<Rightarrow> Backend list \<Rightarrow> Sel list \<Rightarrow> ComposeResult \<times> PathMap \<Rightarrow> ResourceId list
     \<Rightarrow> ComposeResult \<times> PathMap" where
  "evaluate_combo req resources backends sels = (\<lambda>(best, paths) combo.
     case lookup_members resources combo of
       None \<Rightarrow> (best, paths)
     | Some members \<Rightarrow>
         (if \<not> feasible req resources paths sels members then (best, paths)
          else let g = BuildGraph req members; rank = Rank members in
            if d_gt (rk_total rank) (rk_total (pl_rank (cr_plan best))) then
              let (bound, paths1) = foldl (bind_edge req resources backends) ([], paths) (g_edges g) in
              (best\<lparr>cr_outcome := CO_SUCCESS,
                 cr_plan := (cr_plan best)\<lparr>pl_graph := g, pl_request := req, pl_rank := rank,
                   pl_nodes := plan_nodes members, pl_paths := bound\<rparr>\<rparr>, paths1)
            else (best, paths)))"

definition best_start :: ComposeResult where
  "best_start =
     \<lparr>cr_outcome = CO_REJECTED,
      cr_plan = CompositionPlan_default\<lparr>pl_rank := RankScore_default\<lparr>rk_total := d_minus_1\<rparr>\<rparr>,
      cr_reasons = [], cr_notes = []\<rparr>"

section \<open>Compose\<close>

definition finish_plan :: "CompositionRequest \<Rightarrow> Impl \<Rightarrow> ComposeResult \<times> PathMap \<Rightarrow> ComposeResult \<times> Impl" where
  "finish_plan req s = (\<lambda>(best, paths1).
     let gen = StrongGeneration (im_next_comp s);
         members = List.map_filter (map_of (im_resources s)) (g_vertices (pl_graph (cr_plan best)))
     in (best\<lparr>cr_plan := (cr_plan best)
                \<lparr>pl_generation := gen, pl_id := StrongId (im_next_comp s),
                 pl_authority := MakeAuthority gen req members (im_nodes s) paths1 (im_epoch s),
                 pl_lifecycle := CL_PLANNED\<rparr>\<rparr>,
         s\<lparr>im_paths := paths1, im_next_comp := im_next_comp s + 1\<rparr>))"

definition ComposeDeterministic :: "CompositionRequest \<Rightarrow> u64 \<Rightarrow> Impl \<Rightarrow> ComposeResult \<times> Impl" where
  "ComposeDeterministic req seed s =
     (case select_classes req (im_resources s) (ComputeDemands req) of
        Inl notes \<Rightarrow> (compose_rejected notes, s)
      | Inr sels \<Rightarrow>
          (if sels = [] then (compose_rejected [''request defines no mandatory resource class''], s)
           else (case combine_classes 400 sels [[]] of
                   None \<Rightarrow> (compose_rejected [], s)
                 | Some combos \<Rightarrow>
                     (let (best, paths1) = foldl (evaluate_combo req (im_resources s) (im_backends s) sels)
                                             (best_start, im_paths s) combos
                      in if cr_outcome best \<noteq> CO_SUCCESS
                         then (compose_rejected [''no feasible cross-resource combination''], s\<lparr>im_paths := paths1\<rparr>)
                         else finish_plan req s (best, paths1)))))"

definition Compose :: "CompositionRequest \<Rightarrow> Impl \<Rightarrow> ComposeResult \<times> Impl" where
  "Compose req s = ComposeDeterministic req 0 s"

definition ExplainCompositionResult :: "ComposeResult \<Rightarrow> string" where
  "ExplainCompositionResult cr =
     (if compose_ok cr then ''OK'' else ''REJECTED'') @ '' outcome='' @ CompositionOutcome_ToString (cr_outcome cr) @
     concat (map (\<lambda>r. '' '' @ RejectionReason_ToString r) (cr_reasons cr))"

section \<open>Closed forms of the loops\<close>

fun combinations :: "nat \<Rightarrow> 'a list \<Rightarrow> 'a list list" where
  "combinations 0 xs = [[]]"
| "combinations (Suc n) [] = []"
| "combinations (Suc n) (x # xs) = map (Cons x) (combinations n xs) @ combinations (Suc n) xs"

lemma subseqs_length_0: "filter (\<lambda>ys. length ys = 0) (subseqs xs) = [[]]"
  by (induction xs) (auto simp: Let_def filter_map comp_def)

lemma combinations_subseqs: "combinations n xs = filter (\<lambda>ys. length ys = n) (subseqs xs)"
proof (induction n xs rule: combinations.induct)
  case (1 xs)
  show ?case using subseqs_length_0 [of xs] by simp
qed (auto simp: Let_def filter_map comp_def)

lemma combinations_short: "length xs < n \<Longrightarrow> combinations n xs = []"
  by (induction n xs rule: combinations.induct) auto

lemma combinations_length: "ys \<in> set (combinations n xs) \<Longrightarrow> length ys = n"
  by (simp add: combinations_subseqs)

lemma combinations_set: "ys \<in> set (combinations n xs) \<Longrightarrow> set ys \<subseteq> set xs"
  by (induction n xs arbitrary: ys rule: combinations.induct) fastforce+

lemma combinations_distinct: "distinct xs \<Longrightarrow> ys \<in> set (combinations n xs) \<Longrightarrow> distinct ys"
proof (induction n xs arbitrary: ys rule: combinations.induct)
  case (3 n x xs)
  from "3.prems" consider (use) zs where "ys = x # zs" "zs \<in> set (combinations n xs)"
    | (skip) "ys \<in> set (combinations (Suc n) xs)" by auto
  then show ?case
  proof cases
    case use
    with "3.prems" "3.IH"(1) [OF _ use(2)] combinations_set [OF use(2)] show ?thesis by auto
  next
    case skip
    with "3.prems" "3.IH"(2) show ?thesis by simp
  qed
qed simp_all

lemma append_prefix: "(@) (xs @ [x]) = (\<lambda>a. xs @ x # a)" "(@) [] = id"
  by (auto simp: fun_eq_iff)

text \<open>\<open>combine\<close> lists the combinations of the suffix from \<open>start\<close>, cut off at the cap.\<close>

lemma combine_loop_exit: "\<not> (0 < need \<and> i \<le> k - need) \<Longrightarrow> combine_loop items k cap cur i need out = out"
  by (subst combine_loop.simps) (rule if_not_P)

lemma combine_closed:
  "k \<le> length items \<Longrightarrow> start + need \<le> k \<Longrightarrow> length out \<le> cap \<Longrightarrow>
     combine items k cap cur start need out =
       take cap (out @ map ((@) cur) (combinations need (map r_id (drop start (take k items)))))"
  "k \<le> length items \<Longrightarrow> need \<le> k \<Longrightarrow> 0 < need \<Longrightarrow> length out \<le> cap \<Longrightarrow>
     combine_loop items k cap cur i need out =
       take cap (out @ map ((@) cur) (combinations need (map r_id (drop i (take k items)))))"
proof (induction items k cap cur start need out and items k cap cur i need out rule: combine_combine_loop.induct)
  case (1 items k cap cur start need out)
  show ?case
  proof (cases "cap \<le> length out")
    case True
    with "1.prems" show ?thesis by (simp add: combine.simps)
  next
    case False
    with 1 show ?thesis by (cases need) (simp_all add: combine.simps)
  qed
next
  case (2 items k cap cur i need out)
  show ?case
  proof (cases "i \<le> k - need")
    case False
    then have "combinations need (map r_id (drop i (take k items))) = []"
      using "2.prems" by (intro combinations_short) auto
    with False "2.prems" show ?thesis by (simp add: combine_loop_exit)
  next
    case True
    let ?x = "r_id (items ! i)" and ?xs = "map r_id (drop (Suc i) (take k items))"
    let ?out1 = "combine items k cap (cur @ [?x]) (i + 1) (need - 1) out"
    have guard: "0 < need \<and> i \<le> k - need" using True "2.prems" by simp
    have fits: "i + 1 + (need - 1) \<le> k" using True "2.prems" by simp
    have i: "i < length (take k items)" using True "2.prems" by auto
    obtain m where need: "need = Suc m" using "2.prems" by (cases need) auto
    have cons: "map r_id (drop i (take k items)) = ?x # ?xs"
      using Cons_nth_drop_Suc [OF i] i by (metis list.simps(9) nth_take length_take min_less_iff_conj)
    have out1: "?out1 = take cap (out @ map ((@) (cur @ [?x])) (combinations m ?xs))"
      using "2.IH"(1) [OF guard] "2.prems" fits need by (simp add: append_prefix)
    have target: "take cap (out @ map ((@) cur) (combinations need (map r_id (drop i (take k items))))) =
        take cap ((out @ map ((@) (cur @ [?x])) (combinations m ?xs)) @ map ((@) cur) (combinations need ?xs))"
      by (simp add: cons need comp_def append_prefix)
    show ?thesis
    proof (cases "cap \<le> length ?out1")
      case full: True
      have "combine_loop items k cap cur i need out = ?out1"
        by (subst combine_loop.simps) (simp only: guard full simp_thms if_True Let_def)
      then show ?thesis using target full unfolding out1 by simp
    next
      case False
      have "combine_loop items k cap cur i need out = combine_loop items k cap cur (i + 1) need ?out1"
        by (subst combine_loop.simps) (simp only: guard False simp_thms if_True if_False Let_def)
      also have "\<dots> = take cap (?out1 @ map ((@) cur) (combinations need ?xs))"
        using "2.IH"(2) [OF guard refl False] "2.prems" False by simp
      also have "?out1 = out @ map ((@) (cur @ [?x])) (combinations m ?xs)"
        using False unfolding out1 by simp
      finally show ?thesis using target by simp
    qed
  qed
qed

lemma push_capped_closed:
  "length out \<le> cap \<Longrightarrow> foldl (push_capped cap) out xs = take cap (out @ xs)"
  by (induction xs arbitrary: out) (auto simp: push_capped_def take_Cons')

lemma push_filtered_closed:
  "length out \<le> cap \<Longrightarrow>
     foldl (\<lambda>out p. if P p then push_capped cap out (f p) else out) out xs =
       take cap (out @ map f (filter P xs))"
  by (induction xs arbitrary: out) (auto simp: push_capped_def take_Cons')

definition all_selections :: "Resource list \<Rightarrow> ClassDemand \<Rightarrow> ResourceId list list" where
  "all_selections items d =
     (let want = (if cd_count d \<noteq> 0 then unat (cd_count d) else 1); window = take 8 items in
      if length window < want then []
      else if \<not> cd_amount_based d then combinations want (map r_id window)
      else map (\<lambda>r. [r_id r]) window @
           (if d_gt (cd_amount d) 0
            then map (\<lambda>p. [r_id (fst p), r_id (snd p)]) (filter (pair_supplies d) (index_pairs window))
            else []))"

lemma index_pairs_short: "length xs < 2 \<Longrightarrow> index_pairs xs = []"
  by (cases xs) (auto simp: index_pairs_def)

lemma EnumerateSelections_closed:
  "EnumerateSelections items d cap = take cap (all_selections items d)"
proof -
  define k where "k = min 8 (length items)"
  define want where "want = (if cd_count d \<noteq> 0 then unat (cd_count d) else 1)"
  have want: "0 < want" by (auto simp: want_def word_neq_0_conv unat_gt_0)
  have k: "k \<le> length items" "take k items = take 8 items" "length (take 8 items) = k"
    by (auto simp: k_def min_def)
  show ?thesis
  proof (cases "items = [] \<or> k < want")
    case True
    then show ?thesis using want k
      unfolding EnumerateSelections_def all_selections_def Let_def k_def [symmetric] want_def [symmetric] by auto
  next
    case False
    then have ne: "items \<noteq> []" "\<not> k < want" by auto
    show ?thesis
    proof (cases "cd_amount_based d")
      case True
      with ne k show ?thesis
        unfolding EnumerateSelections_def all_selections_def Let_def k_def [symmetric] want_def [symmetric]
        by (auto simp: push_capped_closed push_filtered_closed index_pairs_short min_def)
    next
      case False
      have "combine items k cap [] 0 want [] = take cap (combinations want (map r_id (take 8 items)))"
        using combine_closed(1) [of k items 0 want "[]" cap "[]"] ne k by (simp add: append_prefix)
      with False ne k show ?thesis
        unfolding EnumerateSelections_def all_selections_def Let_def k_def [symmetric] want_def [symmetric] by simp
    qed
  qed
qed

section \<open>Selections come from the candidates\<close>

lemma index_pairs_set:
  "p \<in> set (index_pairs xs) \<longleftrightarrow> (\<exists>i j. i < j \<and> j < length xs \<and> p = (xs ! i, xs ! j))"
proof -
  have "p \<in> set (index_pairs xs) \<longleftrightarrow> (\<exists>i \<in> {0..<length xs}. \<exists>j \<in> {i + 1..<length xs}. p = (xs ! i, xs ! j))"
    unfolding index_pairs_def by auto
  also have "\<dots> \<longleftrightarrow> (\<exists>i j. i < j \<and> j < length xs \<and> p = (xs ! i, xs ! j))"
    unfolding Bex_def atLeastLessThan_iff by (metis Suc_eq_plus1 Suc_le_eq less_trans zero_le)
  finally show ?thesis .
qed

lemma all_selections_cases:
  assumes "pick \<in> set (all_selections items d)"
  obtains (combination) want where "pick \<in> set (combinations want (map r_id (take 8 items)))"
    | (single) r where "r \<in> set (take 8 items)" "pick = [r_id r]"
    | (pair) i j where "i < j" "j < length (take 8 items)"
        "pick = [r_id (take 8 items ! i), r_id (take 8 items ! j)]"
proof (cases "cd_amount_based d")
  case False
  with assms combination show ?thesis by (simp add: all_selections_def Let_def split: if_splits)
next
  case True
  with assms have "pick \<in> (\<lambda>r. [r_id r]) ` set (take 8 items) \<or>
      pick \<in> (\<lambda>p. [r_id (fst p), r_id (snd p)]) ` set (index_pairs (take 8 items))"
    by (auto simp: all_selections_def Let_def split: if_splits)
  then show ?thesis
  proof
    assume "pick \<in> (\<lambda>r. [r_id r]) ` set (take 8 items)"
    with single show ?thesis by blast
  next
    assume "pick \<in> (\<lambda>p. [r_id (fst p), r_id (snd p)]) ` set (index_pairs (take 8 items))"
    then obtain p where p: "p \<in> set (index_pairs (take 8 items))" "pick = [r_id (fst p), r_id (snd p)]" by blast
    then obtain i j where "i < j" "j < length (take 8 items)" "p = (take 8 items ! i, take 8 items ! j)"
      unfolding index_pairs_set by blast
    with p pair show ?thesis by simp
  qed
qed

lemma all_selections_set: "pick \<in> set (all_selections items d) \<Longrightarrow> set pick \<subseteq> r_id ` set items"
proof -
  have window: "set (take 8 items) \<subseteq> set items" by (rule set_take_subset)
  assume "pick \<in> set (all_selections items d)"
  then show ?thesis
  proof (cases rule: all_selections_cases)
    case (combination want)
    from combinations_set [OF this] window show ?thesis by auto
  next
    case (single r)
    with window show ?thesis by auto
  next
    case (pair i j)
    then have "take 8 items ! i \<in> set items" "take 8 items ! j \<in> set items"
      using window nth_mem [of i "take 8 items"] nth_mem [of j "take 8 items"] by auto
    with pair show ?thesis by simp
  qed
qed

lemma all_selections_distinct:
  assumes ids: "distinct (map r_id items)" and pick: "pick \<in> set (all_selections items d)"
  shows "distinct pick"
proof -
  have window: "distinct (map r_id (take 8 items))" using ids by (simp add: take_map [symmetric])
  from pick show ?thesis
  proof (cases rule: all_selections_cases)
    case (combination want)
    from combinations_distinct [OF window this] show ?thesis .
  next
    case (pair i j)
    then have "map r_id (take 8 items) ! i \<noteq> map r_id (take 8 items) ! j"
      using window by (subst nth_eq_iff_index_eq) auto
    with pair show ?thesis by simp
  qed simp
qed

lemma EnumerateSelections_member:
  assumes "pick \<in> set (EnumerateSelections items d cap)"
  shows "set pick \<subseteq> r_id ` set items" "distinct (map r_id items) \<Longrightarrow> distinct pick"
proof -
  have pick: "pick \<in> set (all_selections items d)"
    using assms by (auto simp: EnumerateSelections_closed dest: in_set_takeD)
  show "set pick \<subseteq> r_id ` set items" using pick by (rule all_selections_set)
  show "distinct pick" if "distinct (map r_id items)" using that pick by (rule all_selections_distinct)
qed

lemma candidates_set:
  "r \<in> set (candidates req resources cls) \<longleftrightarrow>
     r \<in> snd ` set resources \<and> eligible r req \<and> r_resource_class r = cls"
  by (auto simp: candidates_def)

lemma candidates_distinct:
  assumes "keyed r_id resources"
  shows "distinct (map r_id (candidates req resources cls))"
proof -
  have ids: "map r_id (map snd resources) = map fst resources"
    using assms by (auto simp: keyed_def comp_def)
  have "distinct (map r_id (filter P (map snd resources)))" for P
    by (rule distinct_map_filter) (use assms ids in \<open>simp add: keyed_def um_ok_def del: map_map\<close>)
  then show ?thesis unfolding candidates_def filter_filter .
qed

definition class_picks :: "CompositionRequest \<Rightarrow> ResourceMap \<Rightarrow> ClassDemand \<Rightarrow> ResourceId list list" where
  "class_picks req resources d =
     EnumerateSelections (std_sort (candidate_before d) (candidates req resources (cd_cls d))) d 24"

lemma select_classes_spec:
  "select_classes req resources ds = Inr sels \<Longrightarrow>
     sels = map (\<lambda>d. (d, class_picks req resources d)) (filter cd_mandatory ds) \<and>
     (\<forall>sel \<in> set sels. snd sel \<noteq> [])"
proof (induction ds arbitrary: sels)
  case (Cons d ds)
  show ?case
  proof (cases "cd_mandatory d")
    case False
    with Cons show ?thesis by simp
  next
    case True
    with Cons.prems obtain rest where "select_classes req resources ds = Inr rest"
      "sels = (d, class_picks req resources d) # rest" "class_picks req resources d \<noteq> []"
      by (auto simp: Let_def class_picks_def [symmetric] split: if_splits sum.splits)
    with Cons.IH True show ?thesis by simp
  qed
qed simp

lemma distinct_ids_std_sort: "distinct (map r_id (std_sort lt rs)) \<longleftrightarrow> distinct (map r_id rs)"
  by (metis mset_std_sort mset_map mset_eq_imp_distinct_iff)

lemma class_picks_member:
  assumes ok: "keyed r_id resources" and pick: "pick \<in> set (class_picks req resources d)"
  shows "distinct pick"
    and "\<And>rid. rid \<in> set pick \<Longrightarrow>
      \<exists>r. map_of resources rid = Some r \<and> r_id r = rid \<and> eligible r req \<and> r_resource_class r = cd_cls d"
proof -
  note member = EnumerateSelections_member [OF pick [unfolded class_picks_def]]
  show "distinct pick" by (rule member(2)) (simp add: distinct_ids_std_sort candidates_distinct [OF ok])
  fix rid assume "rid \<in> set pick"
  then obtain r where "r \<in> set (candidates req resources (cd_cls d))" "rid = r_id r" using member(1) by auto
  then obtain k where "(k, r) \<in> set resources" "eligible r req" "r_resource_class r = cd_cls d" "rid = r_id r"
    by (auto simp: candidates_set)
  with keyed_member [OF ok] show "\<exists>r. map_of resources rid = Some r \<and> r_id r = rid \<and> eligible r req \<and> r_resource_class r = cd_cls d"
    by fastforce
qed

lemma class_picks_bound: "length (class_picks req resources d) \<le> 24"
  by (simp add: class_picks_def EnumerateSelections_closed)

section \<open>The bounded product\<close>

definition joins :: "ResourceId list list \<Rightarrow> ResourceId list \<Rightarrow> ResourceId list list" where
  "joins picks combo = map ((@) combo) (filter (\<lambda>pick. set pick \<inter> set combo = {}) picks)"

lemma extend_picks_closed:
  "length out < cap \<Longrightarrow> extend_picks cap combo picks out = take cap (out @ joins picks combo)"
proof (induction cap combo picks out rule: extend_picks.induct)
  case (2 cap combo pick picks out)
  have dup: "(\<exists>rid \<in> set pick. rid \<in> set combo) \<longleftrightarrow> set pick \<inter> set combo \<noteq> {}" by auto
  show ?case
  proof (cases "set pick \<inter> set combo = {}")
    case True
    with 2 dup show ?thesis by (cases "cap \<le> Suc (length out)") (auto simp: joins_def Let_def take_Cons')
  next
    case False
    with 2 dup show ?thesis by (simp add: joins_def)
  qed
qed (simp add: joins_def)

lemma extend_combos_closed:
  "length out < cap \<Longrightarrow>
     extend_combos cap combos picks out = take cap (out @ concat (map (joins picks) combos))"
proof (induction cap combos picks out rule: extend_combos.induct)
  case (2 cap combo combos picks out)
  let ?out1 = "extend_picks cap combo picks out"
  have out1: "?out1 = take cap (out @ joins picks combo)" using "2.prems" by (rule extend_picks_closed)
  show ?case
  proof (cases "cap \<le> length ?out1")
    case True
    then have "extend_combos cap (combo # combos) picks out = ?out1" by (simp add: Let_def)
    moreover have "take cap (out @ joins picks combo @ rest) = ?out1" for rest
      using True unfolding out1 by simp
    ultimately show ?thesis by simp
  next
    case False
    then have full: "?out1 = out @ joins picks combo" unfolding out1 by simp
    from False "2.IH" [OF refl False] show ?thesis by (simp add: Let_def full)
  qed
qed simp

lemma combine_classes_bound:
  "0 < cap \<Longrightarrow> length combos \<le> cap \<Longrightarrow> combine_classes cap sels combos = Some out \<Longrightarrow> length out \<le> cap"
proof (induction sels arbitrary: combos)
  case (Cons sel sels)
  let ?mid = "extend_combos cap combos (snd sel) []"
  have "length ?mid \<le> cap" using Cons.prems by (simp add: extend_combos_closed)
  with Cons show ?case by (simp add: Let_def split: if_splits)
qed simp

lemma combine_classes_member:
  "0 < cap \<Longrightarrow> combine_classes cap sels combos = Some out \<Longrightarrow> combo \<in> set out \<Longrightarrow>
     \<exists>start \<in> set combos. \<exists>picks. combo = start @ concat picks \<and>
       list_all2 (\<lambda>pick sel. pick \<in> set (snd sel)) picks sels \<and>
       (distinct start \<and> (\<forall>pick \<in> set picks. distinct pick) \<longrightarrow> distinct combo)"
proof (induction sels arbitrary: combos)
  case Nil
  then show ?case by (intro bexI [of _ combo] exI [of _ "[]"]) auto
next
  case (Cons sel sels)
  let ?mid = "extend_combos cap combos (snd sel) []"
  have rest: "combine_classes cap sels ?mid = Some out"
    using Cons.prems by (simp add: Let_def split: if_splits)
  from Cons.IH [OF Cons.prems(1) rest Cons.prems(3)] obtain start picks where
    start: "start \<in> set ?mid" and picks: "combo = start @ concat picks"
      "list_all2 (\<lambda>pick sel. pick \<in> set (snd sel)) picks sels"
      "distinct start \<and> (\<forall>pick \<in> set picks. distinct pick) \<longrightarrow> distinct combo" by blast
  from start obtain c pick where "c \<in> set combos" "pick \<in> set (snd sel)" "set pick \<inter> set c = {}" "start = c @ pick"
    using Cons.prems(1) by (auto simp: extend_combos_closed joins_def dest!: in_set_takeD)
  with picks show ?case by (intro bexI [of _ c] exI [of _ "pick # picks"]) auto
qed

section \<open>The evaluation loop\<close>

lemma lookup_members_spec:
  "lookup_members resources rids = Some members \<longleftrightarrow> map (map_of resources) rids = map Some members"
proof (induction rids arbitrary: members)
  case (Cons rid rids)
  then show ?case by (cases members) (auto split: option.splits)
qed auto

lemma lookup_members_ids:
  assumes ok: "keyed r_id resources" and look: "lookup_members resources rids = Some members"
  shows "map r_id members = rids" "\<And>r. r \<in> set members \<Longrightarrow> map_of resources (r_id r) = Some r"
proof -
  have eq: "map (map_of resources) rids = map Some members" using look by (simp add: lookup_members_spec)
  then have len: "length members = length rids" by (metis length_map)
  have nth: "map_of resources (rids ! i) = Some (members ! i)" if "i < length rids" for i
    using that len eq by (metis nth_map)
  then have id: "r_id (members ! i) = rids ! i" if "i < length rids" for i
    using that keyed_lookup [OF ok] by blast
  show "map r_id members = rids" by (rule nth_equalityI) (use len id in auto)
  show "map_of resources (r_id r) = Some r" if "r \<in> set members" for r
    using that nth id len by (metis in_set_conv_nth)
qed

lemma map_filter_lookup:
  "map (map_of resources) rids = map Some members \<Longrightarrow> List.map_filter (map_of resources) rids = members"
proof (induction rids arbitrary: members)
  case (Cons rid rids)
  then show ?case by (cases members) (auto simp: List.map_filter_simps)
qed (simp add: List.map_filter_simps)

text \<open>The path table after some edges were bound: every entry is old or a fresh answer of a backend.\<close>

definition refreshed :: "Backend list \<Rightarrow> CompositionRequest \<Rightarrow> PathMap \<Rightarrow> PathMap \<Rightarrow> bool" where
  "refreshed backends req old paths \<longleftrightarrow>
     (\<forall>key pe. map_of paths key = Some pe \<longrightarrow> map_of old key = Some pe \<or>
        (\<exists>a b. key = PathKey a b \<and> resolve_path backends (edge_requirement req a b) = Some pe))"

lemma refreshed_refl [simp]: "refreshed backends req paths paths"
  by (simp add: refreshed_def)

lemma refreshed_put:
  "refreshed backends req old paths \<Longrightarrow> resolve_path backends (edge_requirement req a b) = Some pe \<Longrightarrow>
     refreshed backends req old (om_put (PathKey a b) pe paths)"
  by (auto simp: refreshed_def)

lemma bind_edges_keeps:
  assumes put: "\<And>a b pe paths. P paths \<Longrightarrow> resolve_path backends (edge_requirement req a b) = Some pe \<Longrightarrow>
      P (om_put (PathKey a b) pe paths)"
    and "P (snd acc)"
  shows "P (snd (foldl (bind_edge req resources backends) acc es))"
  using assms(2)
proof (induction es arbitrary: acc)
  case (Cons e es)
  obtain bound paths where acc: "acc = (bound, paths)" by (cases acc)
  have "P (snd (bind_edge req resources backends (bound, paths) e))"
    using Cons.prems put unfolding acc bind_edge_def Let_def
    by (auto split: option.split)
  with Cons.IH acc show ?case by simp
qed simp

definition binds_plan :: "CompositionRequest \<Rightarrow> Resource list \<Rightarrow> CompositionPlan \<Rightarrow> bool" where
  "binds_plan req members plan \<longleftrightarrow>
     pl_graph plan = BuildGraph req members \<and> pl_request plan = req \<and> pl_rank plan = Rank members \<and>
     pl_nodes plan = plan_nodes members"

definition evaluated ::
  "CompositionRequest \<Rightarrow> ResourceMap \<Rightarrow> Backend list \<Rightarrow> Sel list \<Rightarrow> PathMap \<Rightarrow> ResourceId list list
     \<Rightarrow> ComposeResult \<times> PathMap \<Rightarrow> bool" where
  "evaluated req resources backends sels old seen = (\<lambda>(best, paths).
     refreshed backends req old paths \<and> (om_ok old \<longrightarrow> om_ok paths) \<and>
     (if cr_outcome best = CO_SUCCESS
      then cr_reasons best = [] \<and> (\<exists>combo \<in> set seen. \<exists>members at.
        lookup_members resources combo = Some members \<and> refreshed backends req old at \<and>
        feasible req resources at sels members \<and> binds_plan req members (cr_plan best))
      else best = best_start \<and> paths = old))"

lemma evaluated_step:
  assumes inv: "evaluated req resources backends sels old seen acc"
  shows "evaluated req resources backends sels old (seen @ [combo])
    (evaluate_combo req resources backends sels acc combo)"
proof -
  obtain best paths where acc: "acc = (best, paths)" by (cases acc)
  let ?g = "\<lambda>members. g_edges (BuildGraph req members)"
  have skip: "evaluated req resources backends sels old (seen @ [combo]) acc"
    using inv by (auto simp: evaluated_def split: if_splits prod.splits)
  show ?thesis
  proof (cases "lookup_members resources combo")
    case None
    with skip show ?thesis by (simp add: evaluate_combo_def acc)
  next
    case (Some members)
    show ?thesis
    proof (cases "feasible req resources paths sels members \<and>
        d_gt (rk_total (Rank members)) (rk_total (pl_rank (cr_plan best)))")
      case False
      with skip Some show ?thesis by (auto simp: evaluate_combo_def acc Let_def)
    next
      case True
      obtain bound paths1 where bind: "foldl (bind_edge req resources backends) ([], paths) (?g members) = (bound, paths1)"
        by fastforce
      have old: "refreshed backends req old paths" "om_ok old \<longrightarrow> om_ok paths" "cr_reasons best = []"
        using inv by (auto simp: evaluated_def acc best_start_def split: if_splits)
      have "refreshed backends req old paths1"
        using bind_edges_keeps [of "refreshed backends req old" backends req "([], paths)" resources "?g members"]
          refreshed_put old bind by simp
      moreover have "om_ok old \<longrightarrow> om_ok paths1"
        using bind_edges_keeps [of om_ok backends req "([], paths)" resources "?g members", OF om_ok_put] old bind
        by simp
      ultimately show ?thesis
        using True Some bind old by (auto simp: evaluate_combo_def acc evaluated_def binds_plan_def Let_def)
    qed
  qed
qed

lemma evaluated_fold:
  assumes "evaluated req resources backends sels old seen acc"
  shows "evaluated req resources backends sels old (seen @ combos)
    (foldl (evaluate_combo req resources backends sels) acc combos)"
  using assms
proof (induction combos arbitrary: seen acc)
  case (Cons combo combos)
  from Cons.IH [OF evaluated_step [OF Cons.prems, of combo]] show ?case by simp
qed simp

lemma evaluated_start: "evaluated req resources backends sels old [] (best_start, old)"
  by (simp add: evaluated_def best_start_def)

lemmas evaluated_all = evaluated_fold [OF evaluated_start, simplified]

section \<open>Soundness of Compose\<close>

text \<open>
  What a successful plan promises about the state it was made in: registered and eligible
  members without repetition, every mandatory demand met within its class, every edge
  realised by local placement or by current verified path evidence within its bounds, the
  topology constraint and coherence.
\<close>

definition plan_sound :: "CompositionRequest \<Rightarrow> Impl \<Rightarrow> PathMap \<Rightarrow> Resource list \<Rightarrow> bool" where
  "plan_sound req s paths members \<longleftrightarrow>
     distinct (map r_id members) \<and>
     (\<forall>r \<in> set members. map_of (im_resources s) (r_id r) = Some r \<and> eligible_spec r req) \<and>
     (\<forall>d \<in> set (ComputeDemands req). cd_mandatory d \<longrightarrow>
        MeetsDemand (filter (\<lambda>r. r_resource_class r = cd_cls d) members) d) \<and>
     (\<forall>e \<in> set (g_edges (BuildGraph req members)). edge_ok (im_resources s) paths e) \<and>
     topology_ok members req \<and> coherent req members"

definition chosen_plan :: "CompositionRequest \<Rightarrow> Impl \<Rightarrow> PathMap \<Rightarrow> Resource list \<Rightarrow> CompositionPlan \<Rightarrow> bool" where
  "chosen_plan req s paths members plan \<longleftrightarrow>
     binds_plan req members plan \<and> g_vertices (pl_graph plan) = map r_id members \<and>
     pl_id plan = StrongId (im_next_comp s) \<and> pl_generation plan = StrongGeneration (im_next_comp s) \<and>
     pl_lifecycle plan = CL_PLANNED \<and>
     pl_authority plan = MakeAuthority (pl_generation plan) req members (im_nodes s) paths (im_epoch s)"

lemma combo_member:
  assumes ok: "keyed r_id resources"
    and sels: "select_classes req resources ds = Inr sels"
    and combos: "combine_classes 400 sels [[]] = Some combos" and combo: "combo \<in> set combos"
  shows "distinct combo" "\<And>rid. rid \<in> set combo \<Longrightarrow> \<exists>r. map_of resources rid = Some r \<and> r_id r = rid \<and> eligible r req"
proof -
  from combine_classes_member [OF _ combos combo] obtain picks where picks: "combo = concat picks"
    "list_all2 (\<lambda>pick sel. pick \<in> set (snd sel)) picks sels" "(\<forall>pick \<in> set picks. distinct pick) \<longrightarrow> distinct combo"
    by auto
  have from_class: "\<exists>d. pick \<in> set (class_picks req resources d)" if pick: "pick \<in> set picks" for pick
  proof -
    from pick obtain i where "i < length picks" "pick = picks ! i" by (auto simp: in_set_conv_nth)
    with picks(2) have "pick \<in> set (snd (sels ! i))" "sels ! i \<in> set sels"
      by (auto simp: list_all2_conv_all_nth)
    with select_classes_spec [OF sels] show ?thesis by auto
  qed
  have "distinct pick" if "pick \<in> set picks" for pick
    using from_class [OF that] class_picks_member(1) [OF ok] by blast
  with picks show "distinct combo" by blast
  fix rid assume "rid \<in> set combo"
  then obtain pick where "pick \<in> set picks" "rid \<in> set pick" using picks by auto
  with from_class class_picks_member(2) [OF ok]
  show "\<exists>r. map_of resources rid = Some r \<and> r_id r = rid \<and> eligible r req" by blast
qed

lemma feasible_plan_sound:
  assumes ok: "keyed r_id (im_resources s)"
    and sels: "select_classes req (im_resources s) (ComputeDemands req) = Inr sels"
    and combos: "combine_classes 400 sels [[]] = Some combos" and combo: "combo \<in> set combos"
    and look: "lookup_members (im_resources s) combo = Some members"
    and feas: "feasible req (im_resources s) paths sels members"
  shows "plan_sound req s paths members"
  unfolding plan_sound_def
proof (intro conjI ballI impI)
  note ids = lookup_members_ids [OF ok look]
  note mem = combo_member [OF ok sels combos combo]
  show "distinct (map r_id members)" using ids mem by simp
  show "map_of (im_resources s) (r_id r) = Some r" if "r \<in> set members" for r using ids(2) [OF that] .
  show "eligible_spec r req" if r: "r \<in> set members" for r
  proof -
    have "r_id r \<in> set combo" using r ids(1) by (metis image_eqI list.set_map)
    from mem(2) [OF this] ids(2) [OF r] show ?thesis by (simp add: eligible_iff)
  qed
  show "MeetsDemand (filter (\<lambda>r. r_resource_class r = cd_cls d) members) d"
    if "d \<in> set (ComputeDemands req)" "cd_mandatory d" for d
    using feas that select_classes_spec [OF sels] by (auto simp: feasible_def meets_all_def)
  show "edge_ok (im_resources s) paths e" if "e \<in> set (g_edges (BuildGraph req members))" for e
    using feas that by (simp add: feasible_def ValidateGraph_iff)
  show "topology_ok members req" "coherent req members"
    using feas by (simp_all add: feasible_def ValidateFailureDomains_iff)
qed

text \<open>The two ways a call of Compose ends.\<close>

lemma ComposeDeterministic_cases:
  assumes ok: "keyed r_id (im_resources s)"
  obtains (rejected) msgs where "ComposeDeterministic req seed s = (compose_rejected msgs, s)"
  | (planned) res paths members where
      "ComposeDeterministic req seed s = (res, s\<lparr>im_paths := paths, im_next_comp := im_next_comp s + 1\<rparr>)"
      "compose_ok res" "cr_reasons res = []" "chosen_plan req s paths members (cr_plan res)"
      "refreshed (im_backends s) req (im_paths s) paths" "om_ok (im_paths s) \<longrightarrow> om_ok paths"
      "\<exists>at. refreshed (im_backends s) req (im_paths s) at \<and> plan_sound req s at members"
proof (cases "select_classes req (im_resources s) (ComputeDemands req)")
  case (Inl msgs)
  then show ?thesis using rejected by (simp add: ComposeDeterministic_def)
next
  case (Inr sels)
  show ?thesis
  proof (cases "sels = [] \<or> combine_classes 400 sels [[]] = None")
    case True
    then have "\<exists>msgs. ComposeDeterministic req seed s = (compose_rejected msgs, s)"
      using Inr by (auto simp: ComposeDeterministic_def)
    then show ?thesis using rejected by blast
  next
    case False
    then obtain combos where ne: "sels \<noteq> []" and combos: "combine_classes 400 sels [[]] = Some combos" by auto
    obtain best paths where fold: "foldl (evaluate_combo req (im_resources s) (im_backends s) sels)
        (best_start, im_paths s) combos = (best, paths)" by fastforce
    have ev: "evaluated req (im_resources s) (im_backends s) sels (im_paths s) combos (best, paths)"
      using evaluated_all [of req "im_resources s" "im_backends s" sels "im_paths s" combos] fold by simp
    have run: "ComposeDeterministic req seed s =
        (if cr_outcome best \<noteq> CO_SUCCESS
         then (compose_rejected [''no feasible cross-resource combination''], s\<lparr>im_paths := paths\<rparr>)
         else finish_plan req s (best, paths))"
      using Inr ne combos fold by (simp add: ComposeDeterministic_def)
    show ?thesis
    proof (cases "cr_outcome best = CO_SUCCESS")
      case False
      with ev run rejected show ?thesis by (simp add: evaluated_def)
    next
      case True
      with ev obtain combo members at where combo: "combo \<in> set combos"
          "lookup_members (im_resources s) combo = Some members"
        and at: "refreshed (im_backends s) req (im_paths s) at" "feasible req (im_resources s) at sels members"
        and bind: "binds_plan req members (cr_plan best)" "cr_reasons best = []"
        and paths: "refreshed (im_backends s) req (im_paths s) paths" "om_ok (im_paths s) \<longrightarrow> om_ok paths"
        by (auto simp: evaluated_def)
      have sound: "plan_sound req s at members"
        by (rule feasible_plan_sound [OF ok Inr combos combo at(2)])
      then have verts: "g_vertices (pl_graph (cr_plan best)) = map r_id members"
        using bind(1) BuildGraph_vertices by (simp add: binds_plan_def plan_sound_def)
      have "map (map_of (im_resources s)) (map r_id members) = map Some members"
        using sound by (simp add: plan_sound_def)
      then have again: "List.map_filter (map_of (im_resources s)) (map r_id members) = members"
        by (rule map_filter_lookup)
      define res where "res = fst (finish_plan req s (best, paths))"
      have "ComposeDeterministic req seed s = (res, s\<lparr>im_paths := paths, im_next_comp := im_next_comp s + 1\<rparr>)"
        using True run by (simp add: res_def finish_plan_def Let_def)
      moreover have "compose_ok res" "cr_reasons res = []" "chosen_plan req s paths members (cr_plan res)"
        using True bind verts again
        by (simp_all add: res_def finish_plan_def Let_def compose_ok_def chosen_plan_def binds_plan_def)
      ultimately show ?thesis using planned paths at(1) sound by blast
    qed
  qed
qed

section \<open>The chosen combination is the first of maximal rank\<close>

text \<open>
  When the backends' answers for this request are the ones already in the path table, the
  evaluation loop sees one path table throughout.
\<close>

definition settled :: "CompositionRequest \<Rightarrow> Backend list \<Rightarrow> PathMap \<Rightarrow> bool" where
  "settled req backends paths \<longleftrightarrow>
     (\<forall>a b pe. resolve_path backends (edge_requirement req a b) = Some pe \<longrightarrow>
        map_of paths (PathKey a b) = Some pe)"

definition combo_rank :: "ResourceMap \<Rightarrow> ResourceId list \<Rightarrow> double" where
  "combo_rank resources combo =
     (case lookup_members resources combo of None \<Rightarrow> d_minus_1 | Some members \<Rightarrow> rk_total (Rank members))"

definition feasible_combo ::
  "CompositionRequest \<Rightarrow> ResourceMap \<Rightarrow> PathMap \<Rightarrow> Sel list \<Rightarrow> ResourceId list \<Rightarrow> bool" where
  "feasible_combo req resources paths sels combo \<longleftrightarrow>
     (case lookup_members resources combo of
        None \<Rightarrow> False | Some members \<Rightarrow> feasible req resources paths sels members)"

definition first_maximum :: "('a \<Rightarrow> bool) \<Rightarrow> ('a \<Rightarrow> double) \<Rightarrow> 'a list \<Rightarrow> 'a \<Rightarrow> bool" where
  "first_maximum P rank xs x \<longleftrightarrow>
     (\<exists>pre post. xs = pre @ x # post \<and> P x \<and> (\<forall>y \<in> set pre. P y \<longrightarrow> d_lt (rank y) (rank x)) \<and>
        (\<forall>y \<in> set post. P y \<longrightarrow> \<not> d_lt (rank x) (rank y)))"

lemma first_maximum_keep:
  "first_maximum P rank xs x \<Longrightarrow> (P y \<Longrightarrow> \<not> d_lt (rank x) (rank y)) \<Longrightarrow> first_maximum P rank (xs @ [y]) x"
  unfolding first_maximum_def by (elim exE) (rule_tac x = pre in exI, rule_tac x = "post @ [y]" in exI, auto)

lemma first_maximum_replace:
  assumes max: "first_maximum P rank xs x" and y: "P y" "d_lt (rank x) (rank y)"
    and num: "\<And>z. P z \<Longrightarrow> \<not> d_is_nan (rank z)"
  shows "first_maximum P rank (xs @ [y]) y"
proof -
  from max obtain pre post where x: "xs = pre @ x # post" "\<forall>z \<in> set pre. P z \<longrightarrow> d_lt (rank z) (rank x)"
    "\<forall>z \<in> set post. P z \<longrightarrow> \<not> d_lt (rank x) (rank z)" "P x" by (auto simp: first_maximum_def)
  have "d_lt (rank z) (rank y)" if "z \<in> set xs" "P z" for z
  proof -
    have "d_lt (rank z) (rank x) \<or> z = x \<or> \<not> d_lt (rank x) (rank z)" using x that by auto
    then show ?thesis using y num [OF that(2)] num [OF \<open>P x\<close>] by (auto simp: d_lt_def)
  qed
  with y(1) show ?thesis unfolding first_maximum_def by (intro exI [of _ xs] exI [of _ "[]"]) auto
qed

lemma om_put_same: "om_ok m \<Longrightarrow> map_of m k = Some v \<Longrightarrow> om_put k v m = m"
proof (induction k v m rule: om_put.induct)
  case (2 k v a b m)
  have "a < k" if "k \<noteq> a"
  proof -
    from that "2.prems"(2) have "(k, v) \<in> set m" by (auto dest: map_of_SomeD)
    with "2.prems"(1) show ?thesis by (auto simp: om_ok_def)
  qed
  with 2 show ?case by (auto simp: om_ok_def)
qed simp

lemma bind_edges_settled:
  assumes "om_ok paths" "settled req backends paths"
  shows "snd (foldl (bind_edge req resources backends) (bound, paths) es) = paths"
  by (rule bind_edges_keeps [where P = "\<lambda>p. p = paths"]) (use assms in \<open>auto simp: settled_def intro: om_put_same\<close>)

definition best_so_far ::
  "CompositionRequest \<Rightarrow> ResourceMap \<Rightarrow> PathMap \<Rightarrow> Sel list \<Rightarrow> ResourceId list list \<Rightarrow> ComposeResult \<Rightarrow> bool" where
  "best_so_far req resources paths sels seen best \<longleftrightarrow>
     (if cr_outcome best = CO_SUCCESS
      then (\<exists>combo members. first_maximum (feasible_combo req resources paths sels) (combo_rank resources) seen combo \<and>
              lookup_members resources combo = Some members \<and> binds_plan req members (cr_plan best))
      else best = best_start \<and> (\<forall>combo \<in> set seen. \<not> feasible_combo req resources paths sels combo))"

lemma combo_rank_nonneg:
  assumes cap: "\<forall>(k, r) \<in> set resources. capacity_ok r" and feas: "feasible_combo req resources paths sels combo"
  shows "d_nonneg (combo_rank resources combo)"
proof -
  from feas obtain members where look: "lookup_members resources combo = Some members"
    by (auto simp: feasible_combo_def split: option.splits)
  have "\<exists>k. map_of resources k = Some r" if "r \<in> set members" for r
    using look that by (auto simp: lookup_members_spec) (metis imageE image_eqI list.set_map)
  then have "\<forall>r \<in> set members. capacity_ok r" using cap by (fastforce dest: map_of_SomeD)
  with look show ?thesis by (simp add: combo_rank_def Rank_nonneg)
qed

lemma evaluate_settled_step:
  assumes ok: "om_ok paths" "settled req backends paths" "\<forall>(k, r) \<in> set resources. capacity_ok r"
    and best: "best_so_far req resources paths sels seen best"
  shows "\<exists>best'. evaluate_combo req resources backends sels (best, paths) combo = (best', paths) \<and>
    best_so_far req resources paths sels (seen @ [combo]) best'"
proof (cases "feasible_combo req resources paths sels combo")
  case False
  have keep: "best_so_far req resources paths sels (seen @ [combo]) best"
    using best False first_maximum_keep [of "feasible_combo req resources paths sels" _ seen _ combo]
    unfolding best_so_far_def by (auto split: if_splits)
  show ?thesis using False keep by (auto simp: evaluate_combo_def feasible_combo_def split: option.splits)
next
  case True
  then obtain members where look: "lookup_members resources combo = Some members"
    and feas: "feasible req resources paths sels members" by (auto simp: feasible_combo_def split: option.splits)
  have rank: "combo_rank resources combo = rk_total (Rank members)" by (simp add: combo_rank_def look)
  have num: "\<not> d_is_nan (combo_rank resources c)" if "feasible_combo req resources paths sels c" for c
    using combo_rank_nonneg [OF ok(3) that] by (simp add: d_nonneg_def)
  obtain bound paths1 where bind: "foldl (bind_edge req resources backends) ([], paths)
      (g_edges (BuildGraph req members)) = (bound, paths1)" by fastforce
  have same: "paths1 = paths" using bind_edges_settled [OF ok(1,2), of resources "[]"] bind by (metis snd_conv)
  let ?new = "best\<lparr>cr_outcome := CO_SUCCESS, cr_plan := (cr_plan best)\<lparr>pl_graph := BuildGraph req members,
    pl_request := req, pl_rank := Rank members, pl_nodes := plan_nodes members, pl_paths := bound\<rparr>\<rparr>"
  have run: "evaluate_combo req resources backends sels (best, paths) combo =
      (if d_gt (rk_total (Rank members)) (rk_total (pl_rank (cr_plan best))) then ?new else best, paths)"
    using look feas bind same by (simp add: evaluate_combo_def Let_def)
  have new: "best_so_far req resources paths sels (seen @ [combo]) ?new"
    if "first_maximum (feasible_combo req resources paths sels) (combo_rank resources) (seen @ [combo]) combo"
    using that look by (auto simp: best_so_far_def binds_plan_def)
  show ?thesis
  proof (cases "cr_outcome best = CO_SUCCESS")
    case success: True
    with best obtain c ms where c: "first_maximum (feasible_combo req resources paths sels) (combo_rank resources) seen c"
      "lookup_members resources c = Some ms" "binds_plan req ms (cr_plan best)" by (auto simp: best_so_far_def)
    then have old: "combo_rank resources c = rk_total (pl_rank (cr_plan best))"
      by (simp add: combo_rank_def binds_plan_def)
    show ?thesis
    proof (cases "d_gt (rk_total (Rank members)) (rk_total (pl_rank (cr_plan best)))")
      case better: True
      have "first_maximum (feasible_combo req resources paths sels) (combo_rank resources) (seen @ [combo]) combo"
        by (rule first_maximum_replace [OF c(1) True _ num]) (use better old rank in simp_all)
      with new run better show ?thesis by simp
    next
      case worse: False
      have "first_maximum (feasible_combo req resources paths sels) (combo_rank resources) (seen @ [combo]) c"
        by (rule first_maximum_keep [OF c(1)]) (use worse old rank in simp)
      then have "best_so_far req resources paths sels (seen @ [combo]) best"
        using success c by (auto simp: best_so_far_def)
      with run worse show ?thesis by simp
    qed
  next
    case fresh: False
    with best have start: "best = best_start" "\<forall>c \<in> set seen. \<not> feasible_combo req resources paths sels c"
      by (auto simp: best_so_far_def)
    have "d_gt (rk_total (Rank members)) (rk_total (pl_rank (cr_plan best)))"
      using combo_rank_nonneg [OF ok(3) True] rank start by (simp add: best_start_def d_nonneg_gt_minus_1)
    moreover have "first_maximum (feasible_combo req resources paths sels) (combo_rank resources) (seen @ [combo]) combo"
      unfolding first_maximum_def using start True by (intro exI [of _ seen] exI [of _ "[]"]) auto
    ultimately show ?thesis using new run by simp
  qed
qed

lemma evaluate_settled_fold:
  assumes ok: "om_ok paths" "settled req backends paths" "\<forall>(k, r) \<in> set resources. capacity_ok r"
    and best: "best_so_far req resources paths sels seen best"
  shows "\<exists>best'. foldl (evaluate_combo req resources backends sels) (best, paths) combos = (best', paths) \<and>
    best_so_far req resources paths sels (seen @ combos) best'"
  using best
proof (induction combos arbitrary: seen best)
  case (Cons combo combos)
  from evaluate_settled_step [OF ok Cons.prems, of combo] obtain best1 where
    "evaluate_combo req resources backends sels (best, paths) combo = (best1, paths)"
    "best_so_far req resources paths sels (seen @ [combo]) best1" by blast
  with Cons.IH [of "seen @ [combo]" best1] show ?case by simp
qed simp

section \<open>The registry's iteration order does not matter\<close>

definition same_tables :: "Impl \<Rightarrow> Impl \<Rightarrow> bool" where
  "same_tables s t \<longleftrightarrow>
     mset (im_resources s) = mset (im_resources t) \<and> mset (im_nodes s) = mset (im_nodes t) \<and>
     im_paths s = im_paths t \<and> im_backends s = im_backends t \<and> im_config s = im_config t \<and>
     im_next_comp s = im_next_comp t"

lemma same_lookup: "um_ok m \<Longrightarrow> mset m = mset m' \<Longrightarrow> map_of m = map_of m'"
proof -
  assume ok: "um_ok m" and eq: "mset m = mset m'"
  have "distinct (map fst m')" using ok eq by (metis um_ok_def mset_map mset_eq_imp_distinct_iff)
  moreover have "set m = set m'" using eq by (metis set_mset_mset)
  ultimately show ?thesis using ok by (simp add: um_ok_def map_of_inject_set)
qed

lemma check_edges_lookup: "map_of m = map_of m' \<Longrightarrow> check_edges m paths es = check_edges m' paths es"
proof (induction es)
  case (Cons e es)
  have "check_edge m paths e = check_edge m' paths e" unfolding check_edge_def Cons.prems ..
  with Cons.IH [OF Cons.prems] show ?case by (simp add: Let_def)
qed simp

lemma lookup_members_lookup: "map_of m = map_of m' \<Longrightarrow> lookup_members m rids = lookup_members m' rids"
proof (induction rids)
  case (Cons rid rids)
  show ?case unfolding lookup_members.simps Cons.IH [OF Cons.prems] Cons.prems ..
qed simp

lemma evaluate_combo_lookup:
  assumes same: "map_of m = map_of m'"
  shows "evaluate_combo req m = evaluate_combo req m'"
proof -
  have bind: "bind_edge req m = bind_edge req m'" unfolding bind_edge_def same ..
  have feas: "feasible req m paths sels rs = feasible req m' paths sels rs" for paths sels rs
    by (simp add: feasible_def ValidateGraph_def check_edges_lookup [OF same])
  show ?thesis unfolding evaluate_combo_def feas bind lookup_members_lookup [OF same] ..
qed

lemma MakeAuthority_lookup: "map_of m = map_of m' \<Longrightarrow> MakeAuthority gen req rs m = MakeAuthority gen req rs m'"
  by (simp add: MakeAuthority_def fun_eq_iff)

definition candidate_key :: "ClassDemand \<Rightarrow> Resource \<Rightarrow> int \<times> ResourceId" where
  "candidate_key d r = (- d_key (ClassScore r d), r_id r)"

lemma candidate_before_key: "candidate_before d a b \<longleftrightarrow> candidate_key d a < candidate_key d b"
  by (auto simp: candidate_before_def candidate_key_def d_eq_def d_lt_def Let_def)

lemma sorted_candidates_same:
  assumes ok: "keyed r_id m" and eq: "mset m = mset m'"
  shows "std_sort (candidate_before d) (candidates req m' cls) = std_sort (candidate_before d) (candidates req m cls)"
proof (rule std_sort_unique [where key = "candidate_key d"])
  show "candidate_before d a b = (candidate_key d a < candidate_key d b)" for a b by (rule candidate_before_key)
  have "inj_on r_id (set (candidates req m cls))"
    by (rule inj_on_subset [OF keyed_inj [OF ok]]) (auto simp: candidates_def)
  then show "inj_on (candidate_key d) (set (candidates req m cls))" by (auto simp: inj_on_def candidate_key_def)
  show "mset (candidates req m' cls) = mset (candidates req m cls)" by (simp add: candidates_def eq)
qed

lemma select_classes_same:
  assumes "keyed r_id m" "mset m = mset m'"
  shows "select_classes req m' ds = select_classes req m ds"
proof (induction ds)
  case (Cons d ds)
  show ?case unfolding select_classes.simps Cons.IH sorted_candidates_same [OF assms] ..
qed simp

lemma finish_plan_same:
  assumes "map_of (im_resources s) = map_of (im_resources t)" "map_of (im_nodes s) = map_of (im_nodes t)"
    "im_config s = im_config t" "im_next_comp s = im_next_comp t"
  shows "fst (finish_plan req s acc) = fst (finish_plan req t acc)"
    and "im_paths (snd (finish_plan req s acc)) = im_paths (snd (finish_plan req t acc))"
  using assms MakeAuthority_lookup [OF assms(2)] by (simp_all add: finish_plan_def Let_def split: prod.splits)

lemma ComposeDeterministic_same:
  assumes ok: "keys_ok s" and same: "same_tables s t"
  shows "fst (ComposeDeterministic req seed s) = fst (ComposeDeterministic req seed' t)"
proof -
  have res: "keyed r_id (im_resources s)" "mset (im_resources s) = mset (im_resources t)"
    using ok same by (auto simp: keys_ok_def same_tables_def)
  have look: "map_of (im_resources s) = map_of (im_resources t)" "map_of (im_nodes s) = map_of (im_nodes t)"
    using ok same by (auto simp: keys_ok_def same_tables_def keyed_def intro: same_lookup)
  have rest: "im_paths s = im_paths t" "im_backends s = im_backends t" "im_config s = im_config t"
    "im_next_comp s = im_next_comp t" using same by (auto simp: same_tables_def)
  show ?thesis
    unfolding ComposeDeterministic_def select_classes_same [OF res] evaluate_combo_lookup [OF look(1)] rest
    by (auto simp: Let_def finish_plan_same(1) [OF look rest(3,4)] split: sum.split option.split prod.split)
qed

section \<open>Compose keeps the engine's invariants\<close>

lemma keys_ok_Compose [inv_intros]:
  assumes ok: "keys_ok s"
  shows "keys_ok (snd (ComposeDeterministic req seed s))"
  using keys_okD(1) [OF ok]
  by (cases rule: ComposeDeterministic_cases [of s req seed]) (use ok in \<open>auto simp: keys_ok_def\<close>)

lemma authority_inv_Compose [inv_intros]:
  assumes ok: "keys_ok s" and inv: "authority_inv s"
  shows "authority_inv (snd (ComposeDeterministic req seed s))"
  using keys_okD(1) [OF ok]
  by (cases rule: ComposeDeterministic_cases [of s req seed])
    (use inv in \<open>auto elim!: authority_inv_mono\<close>)

section \<open>Correctness of planning\<close>

lemma compose_rejected_not_ok [simp]: "\<not> compose_ok (compose_rejected msgs)"
  by (simp add: compose_ok_def compose_rejected_def)

text \<open>The combinations a request is planned over, if the request gets that far.\<close>

definition planned_combos :: "CompositionRequest \<Rightarrow> ResourceMap \<Rightarrow> (Sel list \<times> ResourceId list list) option" where
  "planned_combos req resources =
     (case select_classes req resources (ComputeDemands req) of
        Inl _ \<Rightarrow> None
      | Inr sels \<Rightarrow> if sels = [] then None else map_option (Pair sels) (combine_classes 400 sels [[]]))"

definition some_feasible :: "CompositionRequest \<Rightarrow> Impl \<Rightarrow> bool" where
  "some_feasible req s \<longleftrightarrow>
     (\<exists>sels combos. planned_combos req (im_resources s) = Some (sels, combos) \<and>
        (\<exists>combo \<in> set combos. feasible_combo req (im_resources s) (im_paths s) sels combo))"

definition best_plan :: "CompositionRequest \<Rightarrow> Impl \<Rightarrow> CompositionPlan \<Rightarrow> bool" where
  "best_plan req s plan \<longleftrightarrow>
     (\<exists>sels combos. planned_combos req (im_resources s) = Some (sels, combos) \<and>
        first_maximum (feasible_combo req (im_resources s) (im_paths s) sels) (combo_rank (im_resources s)) combos
          (g_vertices (pl_graph plan)))"

lemma planned_combos_run:
  assumes "planned_combos req (im_resources s) = Some (sels, combos)"
  shows "ComposeDeterministic req seed s =
    (let (best, paths1) = foldl (evaluate_combo req (im_resources s) (im_backends s) sels) (best_start, im_paths s) combos
     in if cr_outcome best \<noteq> CO_SUCCESS
        then (compose_rejected [''no feasible cross-resource combination''], s\<lparr>im_paths := paths1\<rparr>)
        else finish_plan req s (best, paths1))"
  using assms by (auto simp: planned_combos_def ComposeDeterministic_def split: sum.splits if_splits)

lemma unplanned_run: "planned_combos req (im_resources s) = None \<Longrightarrow> \<not> compose_ok (fst (ComposeDeterministic req seed s))"
  by (auto simp: planned_combos_def ComposeDeterministic_def compose_ok_def compose_rejected_def
      split: sum.splits if_splits)

lemma compose_settled:
  assumes ok: "keys_ok s" and set: "settled req (im_backends s) (im_paths s)"
    and cap: "\<forall>(k, r) \<in> set (im_resources s). capacity_ok r"
    and plan: "planned_combos req (im_resources s) = Some (sels, combos)"
  obtains best where
    "best_so_far req (im_resources s) (im_paths s) sels combos best"
    "compose_ok (fst (ComposeDeterministic req seed s)) \<longleftrightarrow> cr_outcome best = CO_SUCCESS"
    "pl_graph (cr_plan (fst (ComposeDeterministic req seed s))) =
       (if cr_outcome best = CO_SUCCESS then pl_graph (cr_plan best) else ResourceGraph_default)"
proof -
  have "best_so_far req (im_resources s) (im_paths s) sels [] best_start"
    by (simp add: best_so_far_def best_start_def)
  from evaluate_settled_fold [OF keys_okD(5) [OF ok] set cap this, of combos] obtain best where
    best: "foldl (evaluate_combo req (im_resources s) (im_backends s) sels) (best_start, im_paths s) combos = (best, im_paths s)"
      "best_so_far req (im_resources s) (im_paths s) sels combos best" by auto
  then show thesis
    by (intro that [of best])
      (simp_all add: planned_combos_run [OF plan] compose_ok_def compose_rejected_def finish_plan_def Let_def
        CompositionPlan_default_def)
qed

lemma best_plan_member:
  assumes ok: "keys_ok s" and plan: "planned_combos req (im_resources s) = Some (sels, combos)"
    and look: "lookup_members (im_resources s) combo = Some members" and mem: "combo \<in> set combos"
  shows "g_vertices (BuildGraph req members) = combo"
proof -
  have run: "select_classes req (im_resources s) (ComputeDemands req) = Inr sels" "combine_classes 400 sels [[]] = Some combos"
    using plan by (auto simp: planned_combos_def split: sum.splits if_splits)
  have "map r_id members = combo" by (rule lookup_members_ids [OF keys_okD(1) [OF ok] look])
  with combo_member(1) [OF keys_okD(1) [OF ok] run mem] BuildGraph_vertices show ?thesis by metis
qed

text \<open>
  C5. A successful plan is sound: its members are registered, pairwise different and
  eligible, every mandatory class demand is met, every edge is local or carried by verified
  and current path evidence that was in the path table or freshly answered by a backend, and
  topology and coherence requirements hold.  The plan records exactly these members, a fresh
  id, and an authority bound to the current epoch and the members' generations.
\<close>

theorem compose_sound:
  assumes "keys_ok s" "ComposeDeterministic req seed s = (res, s')" "compose_ok res"
  shows "\<exists>members paths. plan_sound req s paths members \<and> refreshed (im_backends s) req (im_paths s) paths \<and>
    chosen_plan req s (im_paths s') members (cr_plan res)"
  using keys_okD(1) [OF assms(1)]
proof (cases rule: ComposeDeterministic_cases [of s req seed])
  case (rejected msgs)
  with assms show ?thesis by auto
next
  case (planned res' paths members)
  then obtain at where at: "refreshed (im_backends s) req (im_paths s) at" "plan_sound req s at members" by blast
  have "res' = res" "im_paths s' = paths" using planned(1) assms(2) by auto
  with at planned(4) show ?thesis by blast
qed

definition ex_state :: Impl where
  "ex_state = (FabricEngine ex_config)\<lparr>im_resources :=
     map (\<lambda>r. (r_id r, r)) [ex_resource 1 RC_COMPUTE, ex_resource 2 RC_ACCELERATOR]\<rparr>"

lemma ex_state_ok: "keys_ok ex_state"
  by code_simp

lemma ex_state_composes: "compose_ok (fst (ComposeDeterministic ex_request 0 ex_state))"
  by code_simp

theorem compose_sound_witness:
  "\<exists>members paths. plan_sound ex_request ex_state paths members \<and>
     refreshed (im_backends ex_state) ex_request (im_paths ex_state) paths \<and>
     chosen_plan ex_request ex_state (im_paths (snd (ComposeDeterministic ex_request 0 ex_state))) members
       (cr_plan (fst (ComposeDeterministic ex_request 0 ex_state)))"
  by (rule compose_sound [OF ex_state_ok _ ex_state_composes]) simp

text \<open>
  A rejected request leaves the engine exactly as it was, the path table and the id
  counter included, and the rejection carries one typed reason.
\<close>

theorem compose_rejection_changes_nothing:
  assumes "keys_ok s" "ComposeDeterministic req seed s = (res, s')" "\<not> compose_ok res"
  shows "s' = s \<and> cr_reasons res = [RR_NO_VALID_COMPOSITION] \<and> cr_outcome res = CO_REJECTED"
  using keys_okD(1) [OF assms(1)]
proof (cases rule: ComposeDeterministic_cases [of s req seed])
  case (rejected msgs)
  with assms show ?thesis by (auto simp: compose_rejected_def)
next
  case (planned res' paths members)
  with assms show ?thesis by auto
qed

theorem compose_rejection_witness:
  "snd (ComposeDeterministic ex_request 0 (FabricEngine ex_config)) = FabricEngine ex_config"
proof -
  have "\<not> compose_ok (fst (ComposeDeterministic ex_request 0 (FabricEngine ex_config)))" by code_simp
  with compose_rejection_changes_nothing [OF keys_ok_init, of ex_request 0 ex_config] show ?thesis
    by (metis prod.collapse)
qed



text \<open>
  C22. The outcome of planning, the plan included, does not depend on the order in which the
  hashed registry tables iterate, nor on the seed argument.
\<close>

theorem compose_order_independent:
  assumes "keys_ok s" "same_tables s t"
  shows "fst (ComposeDeterministic req seed s) = fst (ComposeDeterministic req seed' t)"
  by (rule ComposeDeterministic_same [OF assms])

theorem compose_order_independent_witness:
  "fst (ComposeDeterministic ex_request 0 ex_state) =
     fst (ComposeDeterministic ex_request 9 (ex_state\<lparr>im_resources := rev (im_resources ex_state)\<rparr>))"
  by (rule compose_order_independent [OF ex_state_ok]) (simp add: same_tables_def)

text \<open>
  For a class that is requested by count, the enumeration is the list of all
  subsequences of the requested length of the first eight candidates in ranking order, cut
  off at the cap.
\<close>

theorem enumeration_by_count:
  assumes "\<not> cd_amount_based d" "cd_count d \<noteq> 0"
  shows "EnumerateSelections items d cap =
    take cap (filter (\<lambda>pick. length pick = unat (cd_count d)) (subseqs (map r_id (take 8 items))))"
  using assms combinations_short [of "map r_id (take 8 items)" "unat (cd_count d)"]
  by (auto simp: EnumerateSelections_closed all_selections_def Let_def combinations_subseqs [symmetric])

theorem enumeration_by_count_witness:
  "EnumerateSelections (map (\<lambda>i. ex_resource i RC_ACCELERATOR) [5, 6, 7])
     (add_demand RC_ACCELERATOR False 0 2 ''accelerator_memory_bytes'') 24 =
   [[StrongId 5, StrongId 6], [StrongId 5, StrongId 7], [StrongId 6, StrongId 7]]"
  by (subst enumeration_by_count) (simp_all add: add_demand_def ex_resource_def Let_def)

text \<open>
  Planning work is bounded: at most 24 selections for each of the at most six classes,
  and at most 400 combinations.
\<close>

theorem planning_bounded:
  assumes "planned_combos req resources = Some (sels, combos)"
  shows "length combos \<le> 400 \<and> length sels \<le> 6 \<and> (\<forall>sel \<in> set sels. length (snd sel) \<le> 24)"
proof -
  have run: "select_classes req resources (ComputeDemands req) = Inr sels" "combine_classes 400 sels [[]] = Some combos"
    using assms by (auto simp: planned_combos_def split: sum.splits if_splits)
  note spec = select_classes_spec [OF run(1)]
  have "length (ComputeDemands req) = 6" by (simp add: ComputeDemands_def)
  then have "length sels \<le> 6"
    using spec length_filter_le [of cd_mandatory "ComputeDemands req"] by simp
  moreover have "length combos \<le> 400" by (rule combine_classes_bound [OF _ _ run(2)]) simp_all
  ultimately show ?thesis using spec class_picks_bound by auto
qed

theorem planning_bounded_witness:
  "length (snd (the (planned_combos ex_request (im_resources ex_state)))) \<le> 400"
proof -
  have "planned_combos ex_request (im_resources ex_state) \<noteq> None" by code_simp
  then obtain sels combos where p: "planned_combos ex_request (im_resources ex_state) = Some (sels, combos)" by auto
  from planning_bounded [OF p] p show ?thesis by simp
qed

text \<open>
  A plan revalidates at once: a composition with the graph and the authority of a
  successful plan is current in the state the planner left.
\<close>

theorem fresh_plan_revalidates:
  assumes "keys_ok s" "ComposeDeterministic req seed s = (res, s')" "compose_ok res"
    and "c_graph c = pl_graph (cr_plan res)" "c_authority c = pl_authority (cr_plan res)"
  shows "fst (RevalidationHolds c (im_resources s') (im_epoch s'))"
  using keys_okD(1) [OF assms(1)]
proof (cases rule: ComposeDeterministic_cases [of s req seed])
  case (rejected msgs)
  with assms show ?thesis by auto
next
  case (planned res' paths members)
  then obtain at where sound: "plan_sound req s at members" by blast
  have c: "g_vertices (c_graph c) = map r_id members" "au_coordinator_epoch (c_authority c) = im_epoch s"
      "au_resource_generations (c_authority c) = map r_generation members"
    using planned assms by (auto simp: chosen_plan_def)
  have "\<exists>r. map_of (im_resources s) (map r_id members ! i) = Some r \<and> IsValid (r_id r) \<and> IsCurrent (r_evidence r) \<and>
      (i < length members \<longrightarrow> map r_generation members ! i = r_generation r)" if "i < length members" for i
    using that sound nth_mem [OF that] by (auto simp: plan_sound_def eligible_spec_def)
  moreover have "im_resources s' = im_resources s" "im_epoch s' = im_epoch s" using planned(1) assms(2) by auto
  ultimately show ?thesis by (simp add: RevalidationHolds_iff c)
qed

theorem fresh_plan_revalidates_witness:
  "\<exists>c. fst (RevalidationHolds c (im_resources (snd (ComposeDeterministic ex_request 0 ex_state)))
      (im_epoch (snd (ComposeDeterministic ex_request 0 ex_state))))"
proof -
  let ?p = "cr_plan (fst (ComposeDeterministic ex_request 0 ex_state))"
  have "fst (RevalidationHolds (Composition_default\<lparr>c_graph := pl_graph ?p, c_authority := pl_authority ?p\<rparr>)
      (im_resources (snd (ComposeDeterministic ex_request 0 ex_state)))
      (im_epoch (snd (ComposeDeterministic ex_request 0 ex_state))))"
    by (rule fresh_plan_revalidates [OF ex_state_ok _ ex_state_composes]) simp_all
  then show ?thesis by blast
qed

end
