(* ===== verification/Fabric_Reservation.thy ===== *)
theory Fabric_Reservation
  imports Fabric_Planner
begin

text \<open>
  \<open>src/dfabric/engine.cpp\<close>, lines 774--914 and 969--1110: reservation, commit, activation,
  drain, release, recomposition and the state that \<open>Save\<close> and \<open>Load\<close> move.

  The ledger \<open>reserved_amount\<close> is a \<open>std::map\<close>; reading it with \<open>operator[]\<close> inserts a zero
  entry, which is kept in the model (\<open>touch\<close>).  \<open>held_amount\<close> is what a reader sees, for
  which an absent entry and a zero entry are the same.
\<close>

type_synonym Ledger = "(ResourceId, double) omap"

section \<open>The ledger of held amounts\<close>

definition held_amount :: "Ledger \<Rightarrow> ResourceId \<Rightarrow> double" where
  "held_amount m rid = (case map_of m rid of None \<Rightarrow> 0 | Some x \<Rightarrow> x)"

definition touch :: "ResourceId \<Rightarrow> Ledger \<Rightarrow> Ledger" where
  "touch rid m = (case map_of m rid of None \<Rightarrow> om_put rid 0 m | Some _ \<Rightarrow> m)"

definition hold :: "ResourceId \<Rightarrow> double \<Rightarrow> Ledger \<Rightarrow> Ledger" where
  "hold rid amt m = om_put rid (d_add (held_amount m rid) amt) m"

definition unhold :: "ResourceId \<Rightarrow> double \<Rightarrow> Ledger \<Rightarrow> Ledger" where
  "unhold rid amt m =
     (case map_of m rid of
        None \<Rightarrow> m
      | Some h \<Rightarrow> (let nv = d_sub h amt; v = (if d_lt nv 0 then 0 else nv)
                   in if d_eq v 0 then om_erase rid m else om_put rid v m))"

definition release_items :: "ReservationItem list \<Rightarrow> Ledger \<Rightarrow> Ledger" where
  "release_items items m = foldl (\<lambda>m it. unhold (it_resource it) (it_reserved_amount it) m) m items"

section \<open>Reserve\<close>

record ReserveResult =
  re_outcome :: CompositionOutcome
  re_reservation :: Reservation
  re_reasons :: "RejectionReason list"
  re_notes :: "string list"

definition reserve_rejected :: "RejectionReason \<Rightarrow> string \<Rightarrow> ReserveResult" where
  "reserve_rejected reason note =
     \<lparr>re_outcome = CO_REJECTED, re_reservation = Reservation_default, re_reasons = [reason], re_notes = [note]\<rparr>"

definition reserve_ok :: "ReserveResult \<Rightarrow> bool" where
  "reserve_ok r \<longleftrightarrow> re_outcome r = CO_SUCCESS"

text \<open>
  The loop over the members: the failure that broke it, if any, the ledger, and the items
  applied so far (\<open>applied\<close> and \<open>resv.items\<close> grow together).
\<close>

fun reserve_members ::
  "CompositionRequest \<Rightarrow> ResourceMap \<Rightarrow> ResourceId list \<Rightarrow> Ledger \<Rightarrow> ReservationItem list
     \<Rightarrow> (RejectionReason \<times> string) option \<times> Ledger \<times> ReservationItem list" where
  "reserve_members req resources [] m items = (None, m, items)"
| "reserve_members req resources (rid # rids) m items =
     (case map_of resources rid of
        None \<Rightarrow> (Some (RR_RESOURCE_OFFLINE, ''member missing '' @ id_ToString rid), m, items)
      | Some r \<Rightarrow>
        (let (ok, reasons, notes) = ResourceEligible r req in
         if \<not> ok then
           (Some (if reasons = [] then RR_RESOURCE_OFFLINE else hd reasons,
                  ''member ineligible '' @ id_ToString rid), m, items)
         else let m1 = touch rid m in
           if d_gt (held_amount m1 rid) 0 then
             (Some (RR_RESERVATION_CONFLICT, ''already reserved '' @ id_ToString rid), m1, items)
           else let amt = HoldAmountForResource r req in
             if d_lt (cp_compute_units (r_capacity r)) 0 \<or> d_lt (cp_host_memory_bytes (r_capacity r)) 0 then
               (Some (RR_CAPACITY_NEGATIVE, ''negative capacity '' @ id_ToString rid), m1, items)
             else reserve_members req resources rids (hold rid amt m1)
               (items @ [\<lparr>it_resource = rid, it_state = RS_PROVISIONAL, it_reserved_amount = amt\<rparr>])))"

definition Reserve :: "CompositionPlan \<Rightarrow> Impl \<Rightarrow> ReserveResult \<times> Impl" where
  "Reserve plan s =
     (if pl_lifecycle plan \<noteq> CL_PLANNED then (reserve_rejected RR_INVALID_STATE_TRANSITION ''plan not PLANNED'', s)
      else if \<not> IsValid (pl_id plan) then (reserve_rejected RR_INVALID_STATE_TRANSITION ''plan has zero id'', s)
      else let resv_id = StrongId (im_next_resv s);
               s1 = s\<lparr>im_next_resv := im_next_resv s + 1\<rparr>;
               (failure, m, items) = reserve_members (pl_request plan) (im_resources s)
                 (g_vertices (pl_graph plan)) (im_reserved_amount s) []
           in (case failure of
                 Some (reason, note) \<Rightarrow>
                   (reserve_rejected reason note, s1\<lparr>im_reserved_amount := release_items items m\<rparr>)
               | None \<Rightarrow>
                   (let resv = \<lparr>rv_id = resv_id, rv_generation = StrongGeneration 1, rv_composition = pl_id plan,
                                rv_items = items, rv_state = RS_PROVISIONAL\<rparr>;
                        cn = \<lparr>c_id = pl_id plan, c_generation = pl_generation plan,
                                c_resource_set_id = StrongId (im_next_rs s),
                                c_resource_set_generation = StrongGeneration 1, c_graph = pl_graph plan,
                                c_nodes = pl_nodes plan, c_request = pl_request plan,
                                c_authority = pl_authority plan, c_lifecycle = CL_RESERVED,
                                c_rank = pl_rank plan, c_reservation = resv_id, c_paths = pl_paths plan,
                                c_outcome = CO_OUTCOME_UNKNOWN, c_explanation = []\<rparr>
                    in (\<lparr>re_outcome = CO_SUCCESS, re_reservation = resv, re_reasons = [], re_notes = []\<rparr>,
                        s1\<lparr>im_reserved_amount := m, im_next_rs := im_next_rs s + 1,
                           im_compositions := um_put (pl_id plan) cn (im_compositions s),
                           im_reservations := um_put resv_id resv (im_reservations s)\<rparr>))))"

section \<open>Commit and activate\<close>

record CommitResult =
  cm_outcome :: CompositionOutcome
  cm_composition :: Composition
  cm_reasons :: "RejectionReason list"
  cm_notes :: "string list"

definition commit_rejected :: "RejectionReason \<Rightarrow> string \<Rightarrow> CommitResult" where
  "commit_rejected reason note =
     \<lparr>cm_outcome = CO_REJECTED, cm_composition = Composition_default, cm_reasons = [reason], cm_notes = [note]\<rparr>"

definition commit_ok :: "CommitResult \<Rightarrow> bool" where
  "commit_ok r \<longleftrightarrow> cm_outcome r = CO_SUCCESS"

text \<open>The check of every item before the commit; a reason means rollback.\<close>

fun commit_check ::
  "CompositionRequest \<Rightarrow> ResourceMap \<Rightarrow> ReservationItem list \<Rightarrow> Ledger \<Rightarrow> RejectionReason option \<times> Ledger" where
  "commit_check req resources [] m = (None, m)"
| "commit_check req resources (item # items) m =
     (case map_of resources (it_resource item) of
        None \<Rightarrow> (Some RR_RESOURCE_OFFLINE, m)
      | Some r \<Rightarrow>
        (let (ok, reasons, notes) = ResourceEligible r req in
         if \<not> ok then (Some (if reasons = [] then RR_RESOURCE_OFFLINE else hd reasons), m)
         else let m1 = touch (it_resource item) m in
           if d_lt (held_amount m1 (it_resource item)) (it_reserved_amount item) then (Some RR_OVERCOMMIT, m1)
           else commit_check req resources items m1))"

definition Commit :: "Reservation \<Rightarrow> Impl \<Rightarrow> CommitResult \<times> Impl" where
  "Commit resIn s =
     (case map_of (im_reservations s) (rv_id resIn) of
        None \<Rightarrow> (commit_rejected RR_RESERVATION_CONFLICT ''reservation unknown'', s)
      | Some resv \<Rightarrow>
        (if rv_state resv \<noteq> RS_PROVISIONAL
           then (commit_rejected RR_INVALID_STATE_TRANSITION ''reservation not PROVISIONAL'', s)
         else (case map_of (im_compositions s) (rv_composition resv) of
           None \<Rightarrow> (commit_rejected RR_RESERVATION_CONFLICT ''composition unknown'', s)
         | Some cn \<Rightarrow>
           (if c_lifecycle cn \<noteq> CL_RESERVED
              then (commit_rejected RR_INVALID_STATE_TRANSITION ''composition not RESERVED'', s)
            else (case commit_check (c_request cn) (im_resources s) (rv_items resv) (im_reserved_amount s) of
              (Some reason, m) \<Rightarrow>
                (let cn1 = cn\<lparr>c_lifecycle := CL_REVALIDATION_REQUIRED, c_outcome := CO_FAILED\<rparr>
                 in (\<lparr>cm_outcome = CO_REJECTED, cm_composition = cn1, cm_reasons = [reason], cm_notes = []\<rparr>,
                     s\<lparr>im_reserved_amount := release_items (rv_items resv) m,
                       im_reservations := um_put (rv_id resIn) (resv\<lparr>rv_state := RS_ROLLED_BACK\<rparr>) (im_reservations s),
                       im_compositions := um_put (rv_composition resv) cn1 (im_compositions s)\<rparr>))
            | (None, m) \<Rightarrow>
                (let cn1 = cn\<lparr>c_lifecycle := CL_COMMITTED\<rparr>;
                     resv1 = resv\<lparr>rv_items := map (\<lambda>it. it\<lparr>it_state := RS_COMMITTED\<rparr>) (rv_items resv),
                                  rv_state := RS_COMMITTED\<rparr>
                 in (\<lparr>cm_outcome = CO_SUCCESS, cm_composition = cn1, cm_reasons = [], cm_notes = []\<rparr>,
                     s\<lparr>im_reserved_amount := m,
                       im_reservations := um_put (rv_id resIn) resv1 (im_reservations s),
                       im_compositions := um_put (rv_composition resv) cn1 (im_compositions s)\<rparr>)))))))"

record ActivateResult =
  ac_outcome :: CompositionOutcome
  ac_composition :: Composition
  ac_reasons :: "RejectionReason list"
  ac_notes :: "string list"

definition activate_rejected :: "RejectionReason \<Rightarrow> string \<Rightarrow> ActivateResult" where
  "activate_rejected reason note =
     \<lparr>ac_outcome = CO_REJECTED, ac_composition = Composition_default, ac_reasons = [reason], ac_notes = [note]\<rparr>"

definition activate_ok :: "ActivateResult \<Rightarrow> bool" where
  "activate_ok r \<longleftrightarrow> ac_outcome r = CO_SUCCESS"

definition Activate :: "CompositionId \<Rightarrow> Impl \<Rightarrow> ActivateResult \<times> Impl" where
  "Activate i s =
     (case map_of (im_compositions s) i of
        None \<Rightarrow> (activate_rejected RR_NO_VALID_COMPOSITION ''composition unknown'', s)
      | Some cn \<Rightarrow>
        (if c_lifecycle cn \<noteq> CL_COMMITTED
           then (activate_rejected RR_INVALID_STATE_TRANSITION ''composition not COMMITTED'', s)
         else if c_id cn \<in> im_fenced s
           then (activate_rejected RR_POLICY_DENIED ''composition fenced'', s)
         else let (valid, reasons, notes) = RevalidationHolds cn (im_resources s) (im_epoch s) in
           if \<not> valid then
             (let cn1 = cn\<lparr>c_lifecycle := CL_REVALIDATION_REQUIRED, c_outcome := CO_REJECTED\<rparr>
              in (\<lparr>ac_outcome = CO_REJECTED, ac_composition = cn1, ac_reasons = reasons, ac_notes = notes\<rparr>,
                  s\<lparr>im_compositions := um_put i cn1 (im_compositions s)\<rparr>))
           else
             (let cn1 = cn\<lparr>c_lifecycle := CL_ACTIVE, c_outcome := CO_SUCCESS\<rparr>
              in (\<lparr>ac_outcome = CO_SUCCESS, ac_composition = cn1, ac_reasons = [], ac_notes = []\<rparr>,
                  s\<lparr>im_compositions := um_put i cn1 (im_compositions s)\<rparr>))))"

record RevalidateResult =
  vr_valid :: bool
  vr_reasons :: "RejectionReason list"
  vr_notes :: "string list"

definition Revalidate :: "Composition \<Rightarrow> Impl \<Rightarrow> RevalidateResult" where
  "Revalidate c s =
     (let (valid, reasons, notes) = RevalidationHolds c (im_resources s) (im_epoch s)
      in \<lparr>vr_valid = valid, vr_reasons = reasons, vr_notes = notes\<rparr>)"

section \<open>Drain, release and recomposition\<close>

definition BeginDrain :: "CompositionId \<Rightarrow> Impl \<Rightarrow> bool \<times> Impl" where
  "BeginDrain i s =
     (case map_of (im_compositions s) i of
        None \<Rightarrow> (False, s)
      | Some c \<Rightarrow>
        (if c_lifecycle c \<noteq> CL_ACTIVE \<and> c_lifecycle c \<noteq> CL_COMMITTED \<and> c_lifecycle c \<noteq> CL_DEGRADED then (False, s)
         else (True, s\<lparr>im_compositions := um_put i (c\<lparr>c_lifecycle := CL_DRAINING\<rparr>) (im_compositions s),
                       im_draining := insert i (im_draining s)\<rparr>)))"

text \<open>The block shared by \<open>EndDrain\<close>, \<open>Release\<close> and \<open>Recompute\<close>: give back what a reservation holds.\<close>

definition release_reservation :: "ReservationId \<Rightarrow> Impl \<Rightarrow> Impl" where
  "release_reservation i s =
     (case map_of (im_reservations s) i of
        None \<Rightarrow> s
      | Some rv \<Rightarrow> s\<lparr>im_reserved_amount := release_items (rv_items rv) (im_reserved_amount s),
                     im_reservations := um_put i (rv\<lparr>rv_state := RS_RELEASED\<rparr>) (im_reservations s)\<rparr>)"

definition set_released :: "CompositionId \<Rightarrow> Composition \<Rightarrow> Impl \<Rightarrow> Impl" where
  "set_released i c s = s\<lparr>im_compositions := um_put i (c\<lparr>c_lifecycle := CL_RELEASED\<rparr>) (im_compositions s)\<rparr>"

definition EndDrain :: "CompositionId \<Rightarrow> Impl \<Rightarrow> bool \<times> Impl" where
  "EndDrain i s =
     (case map_of (im_compositions s) i of
        None \<Rightarrow> (False, s)
      | Some c \<Rightarrow>
        (if c_lifecycle c \<noteq> CL_DRAINING then (False, s)
         else (True, (set_released i c (release_reservation (c_reservation c) s))
                       \<lparr>im_draining := im_draining s - {i}\<rparr>)))"

definition Release :: "CompositionId \<Rightarrow> Impl \<Rightarrow> bool \<times> Impl" where
  "Release i s =
     (case map_of (im_compositions s) i of
        None \<Rightarrow> (False, s)
      | Some c \<Rightarrow>
        (if c_lifecycle c = CL_RELEASED \<or> c_lifecycle c = CL_RETIRED then (False, s)
         else (True, (set_released i c (release_reservation (c_reservation c) s))
                       \<lparr>im_draining := im_draining s - {i}, im_fenced := insert i (im_fenced s)\<rparr>)))"

text \<open>The middle lock region of \<open>Recompute\<close>: break before make.\<close>

definition recompute_release :: "CompositionId \<Rightarrow> Impl \<Rightarrow> Impl" where
  "recompute_release i s =
     (case map_of (im_compositions s) i of
        None \<Rightarrow> s
      | Some c \<Rightarrow> (set_released i c (release_reservation (c_reservation c) s))
                     \<lparr>im_fenced := insert (c_id c) (im_fenced s)\<rparr>)"

definition Recompute :: "CompositionId \<Rightarrow> Impl \<Rightarrow> bool \<times> Impl" where
  "Recompute i s =
     (case map_of (im_compositions s) i of
        None \<Rightarrow> (False, s)
      | Some c \<Rightarrow>
        (let (cr, s1) = ComposeDeterministic (c_request c) 0 s in
         if \<not> compose_ok cr then (False, s1)
         else let (rr, s2) = Reserve (cr_plan cr) (recompute_release i s1) in
           if \<not> reserve_ok rr then (False, s2)
           else let (cc, s3) = Commit (re_reservation rr) s2 in
             if \<not> commit_ok cc then (False, s3)
             else let (ar, s4) = Activate (c_id (cm_composition cc)) s3 in (activate_ok ar, s4)))"

section \<open>Durable state\<close>

record DurableState =
  ds_epoch :: CoordinatorEpoch
  ds_nodes :: "Node list"
  ds_resources :: "Resource list"
  ds_policies :: "(PolicyId, PolicyGeneration) omap"
  ds_compositions :: "Composition list"

definition durable_state :: "Impl \<Rightarrow> DurableState" where
  "durable_state s =
     \<lparr>ds_epoch = im_epoch s, ds_nodes = map snd (im_nodes s), ds_resources = map snd (im_resources s),
      ds_policies = foldl (\<lambda>m (k, v). om_put k v m) [] (im_policies s),
      ds_compositions = map snd (im_compositions s)\<rparr>"

record LoadResult =
  lr_ok :: bool
  lr_error :: string

definition reimport_composition :: "Composition \<Rightarrow> Composition" where
  "reimport_composition c =
     (if c_lifecycle c = CL_ACTIVE \<or> c_lifecycle c = CL_COMMITTED
      then c\<lparr>c_lifecycle := CL_RECOMPOSITION_REQUIRED, c_outcome := CO_OUTCOME_UNKNOWN\<rparr>
      else c\<lparr>c_outcome := CO_OUTCOME_UNKNOWN\<rparr>)"

definition put_by_id :: "('v \<Rightarrow> 'k) \<Rightarrow> 'v list \<Rightarrow> ('k, 'v) umap" where
  "put_by_id key vs = foldl (\<lambda>m v. um_put (key v) v m) [] vs"

definition bump_counter :: "u64 \<Rightarrow> 'tag StrongId list \<Rightarrow> u64" where
  "bump_counter counter ids = foldl (\<lambda>n i. if n \<le> Value i then Value i + 1 else n) counter ids"

text \<open>
  \<open>Load\<close> on the outcome of \<open>persist::Load\<close>: an error message, or the decoded state.
\<close>

definition Load :: "string + DurableState \<Rightarrow> Impl \<Rightarrow> LoadResult \<times> Impl" where
  "Load loaded s =
     (case loaded of
        Inl err \<Rightarrow> (\<lparr>lr_ok = False, lr_error = err\<rparr>, s)
      | Inr state \<Rightarrow>
        (let nodes1 = put_by_id n_id (ds_nodes state);
             resources1 = put_by_id r_id (map expire_evidence (ds_resources state));
             compositions1 = put_by_id c_id (map reimport_composition (ds_compositions state))
         in (\<lparr>lr_ok = True, lr_error = []\<rparr>,
             s\<lparr>im_config := (im_config s)\<lparr>cf_epoch := ds_epoch state\<rparr>,
               im_nodes := nodes1, im_resources := resources1, im_policies := ds_policies state,
               im_compositions := compositions1, im_reservations := [],
               im_next_comp := bump_counter (im_next_comp s) (map fst compositions1),
               im_next_res := bump_counter (im_next_res s) (map fst resources1),
               im_next_rs := bump_counter (im_next_rs s) (map fst nodes1)\<rparr>)))"

section \<open>Every operation keeps the tables well formed\<close>

lemma om_ok_touch: "om_ok m \<Longrightarrow> om_ok (touch rid m)"
  by (simp add: touch_def om_ok_put split: option.split)

lemma om_ok_hold: "om_ok m \<Longrightarrow> om_ok (hold rid amt m)"
  by (simp add: hold_def om_ok_put)

lemma om_ok_unhold: "om_ok m \<Longrightarrow> om_ok (unhold rid amt m)"
  by (simp add: unhold_def Let_def om_ok_put om_ok_erase split: option.split)

lemma om_ok_release: "om_ok m \<Longrightarrow> om_ok (release_items items m)"
  unfolding release_items_def by (induction items arbitrary: m) (simp_all add: om_ok_unhold)

text \<open>The loop of \<open>Reserve\<close> one member at a time.\<close>

lemma reserve_members_cases:
  obtains (stop) failure m1 where "reserve_members req resources (rid # rids) m items = (Some failure, m1, items)"
      "m1 = m \<or> m1 = touch rid m"
  | (go) r where "map_of resources rid = Some r" "eligible r req" "\<not> d_gt (held_amount (touch rid m) rid) 0"
      "reserve_members req resources (rid # rids) m items =
         reserve_members req resources rids (hold rid (hold_amount r) (touch rid m))
           (items @ [\<lparr>it_resource = rid, it_state = RS_PROVISIONAL, it_reserved_amount = hold_amount r\<rparr>])"
proof (cases "map_of resources rid")
  case None
  then show ?thesis using stop by simp
next
  case (Some r)
  obtain ok reasons notes1 where v: "ResourceEligible r req = (ok, reasons, notes1)" by (cases "ResourceEligible r req")
  show ?thesis
  proof (cases "ok \<and> \<not> d_gt (held_amount (touch rid m) rid) 0 \<and> \<not> d_lt (cp_compute_units (r_capacity r)) 0 \<and>
      \<not> d_lt (cp_host_memory_bytes (r_capacity r)) 0")
    case True
    with Some v go [of r] show ?thesis by (simp add: Let_def HoldAmountForResource_eq)
  next
    case False
    then have "\<exists>failure m1. reserve_members req resources (rid # rids) m items = (Some failure, m1, items) \<and>
        (m1 = m \<or> m1 = touch rid m)"
      using Some v by (simp add: Let_def) metis
    then show ?thesis using stop by blast
  qed
qed

lemma reserve_members_ledger:
  assumes touch: "\<And>rid m. P m \<Longrightarrow> P (touch rid m)" and hold: "\<And>rid amt m. P m \<Longrightarrow> P (hold rid amt m)" and "P m"
  shows "P (fst (snd (reserve_members req resources rids m items)))"
  using \<open>P m\<close>
proof (induction rids arbitrary: m items)
  case (Cons rid rids)
  show ?case
  proof (cases rule: reserve_members_cases [where req = req and resources = resources and rid = rid and rids = rids
        and m = m and items = items])
    case stop
    with Cons.prems touch show ?thesis by auto
  next
    case go
    with Cons.IH [OF hold [OF touch [OF Cons.prems]]] show ?thesis by simp
  qed
qed simp

lemma commit_check_ledger:
  assumes touch: "\<And>rid m. P m \<Longrightarrow> P (touch rid m)" and "P m"
  shows "P (snd (commit_check req resources items m))"
  using \<open>P m\<close> by (induction items arbitrary: m) (simp_all add: Let_def touch split: option.split prod.split)

text \<open>The three ways a call of \<open>Reserve\<close> ends.\<close>

definition reserved_composition :: "CompositionPlan \<Rightarrow> Impl \<Rightarrow> Composition" where
  "reserved_composition plan s =
     \<lparr>c_id = pl_id plan, c_generation = pl_generation plan, c_resource_set_id = StrongId (im_next_rs s),
      c_resource_set_generation = StrongGeneration 1, c_graph = pl_graph plan, c_nodes = pl_nodes plan,
      c_request = pl_request plan, c_authority = pl_authority plan, c_lifecycle = CL_RESERVED,
      c_rank = pl_rank plan, c_reservation = StrongId (im_next_resv s), c_paths = pl_paths plan,
      c_outcome = CO_OUTCOME_UNKNOWN, c_explanation = []\<rparr>"

definition new_reservation :: "CompositionPlan \<Rightarrow> Impl \<Rightarrow> ReservationItem list \<Rightarrow> Reservation" where
  "new_reservation plan s items =
     \<lparr>rv_id = StrongId (im_next_resv s), rv_generation = StrongGeneration 1, rv_composition = pl_id plan,
      rv_items = items, rv_state = RS_PROVISIONAL\<rparr>"

lemma Reserve_cases:
  obtains (refused) reason msg where "Reserve plan s = (reserve_rejected reason msg, s)"
  | (failed) reason msg m items where
      "reserve_members (pl_request plan) (im_resources s) (g_vertices (pl_graph plan)) (im_reserved_amount s) [] =
         (Some (reason, msg), m, items)"
      "Reserve plan s = (reserve_rejected reason msg,
         s\<lparr>im_next_resv := im_next_resv s + 1, im_reserved_amount := release_items items m\<rparr>)"
  | (reserved) m items where
      "pl_lifecycle plan = CL_PLANNED" "IsValid (pl_id plan)"
      "reserve_members (pl_request plan) (im_resources s) (g_vertices (pl_graph plan)) (im_reserved_amount s) [] =
         (None, m, items)"
      "Reserve plan s =
         (\<lparr>re_outcome = CO_SUCCESS, re_reservation = new_reservation plan s items, re_reasons = [], re_notes = []\<rparr>,
          s\<lparr>im_next_resv := im_next_resv s + 1, im_reserved_amount := m, im_next_rs := im_next_rs s + 1,
            im_compositions := um_put (pl_id plan) (reserved_composition plan s) (im_compositions s),
            im_reservations := um_put (StrongId (im_next_resv s)) (new_reservation plan s items) (im_reservations s)\<rparr>)"
proof (cases "pl_lifecycle plan \<noteq> CL_PLANNED \<or> \<not> IsValid (pl_id plan)")
  case True
  then show ?thesis using refused unfolding Reserve_def by (metis (full_types))
next
  case False
  then have ok: "pl_lifecycle plan = CL_PLANNED" "IsValid (pl_id plan)" by auto
  obtain failure m items where run: "reserve_members (pl_request plan) (im_resources s)
      (g_vertices (pl_graph plan)) (im_reserved_amount s) [] = (failure, m, items)" by (rule prod_cases3)
  show ?thesis
  proof (cases failure)
    case None
    show ?thesis
      by (rule reserved [OF ok run [unfolded None]])
        (simp add: Reserve_def ok run None Let_def new_reservation_def reserved_composition_def)
  next
    case (Some f)
    obtain reason msg where f: "f = (reason, msg)" by (cases f)
    show ?thesis
      by (rule failed [OF run [unfolded Some f]]) (simp add: Reserve_def ok run Some f Let_def)
  qed
qed

lemma keys_ok_Reserve [inv_intros]:
  assumes ok: "keys_ok s"
  shows "keys_ok (snd (Reserve plan s))"
proof -
  have led: "om_ok (fst (snd (reserve_members req rs rids (im_reserved_amount s) items)))" for req rs rids items
    by (rule reserve_members_ledger) (use ok in \<open>simp_all add: om_ok_touch om_ok_hold keys_ok_def\<close>)
  show ?thesis
  proof (cases rule: Reserve_cases [where plan = plan and s = s])
    case refused
    with ok show ?thesis by simp
  next
    case failed
    with ok led [of "pl_request plan" "im_resources s" "g_vertices (pl_graph plan)" "[]"] show ?thesis
      by (simp add: keys_ok_def om_ok_release)
  next
    case reserved
    with ok led [of "pl_request plan" "im_resources s" "g_vertices (pl_graph plan)" "[]"] show ?thesis
      by (simp add: keys_ok_def keyed_put new_reservation_def reserved_composition_def)
  qed
qed

lemma Commit_cases:
  obtains (refused) reason msg where "Commit resIn s = (commit_rejected reason msg, s)"
  | (rollback) resv cn reason m where
      "map_of (im_reservations s) (rv_id resIn) = Some resv" "rv_state resv = RS_PROVISIONAL"
      "map_of (im_compositions s) (rv_composition resv) = Some cn" "c_lifecycle cn = CL_RESERVED"
      "commit_check (c_request cn) (im_resources s) (rv_items resv) (im_reserved_amount s) = (Some reason, m)"
      "Commit resIn s =
         (\<lparr>cm_outcome = CO_REJECTED,
           cm_composition = cn\<lparr>c_lifecycle := CL_REVALIDATION_REQUIRED, c_outcome := CO_FAILED\<rparr>,
           cm_reasons = [reason], cm_notes = []\<rparr>,
          s\<lparr>im_reserved_amount := release_items (rv_items resv) m,
            im_reservations := um_put (rv_id resIn) (resv\<lparr>rv_state := RS_ROLLED_BACK\<rparr>) (im_reservations s),
            im_compositions := um_put (rv_composition resv)
              (cn\<lparr>c_lifecycle := CL_REVALIDATION_REQUIRED, c_outcome := CO_FAILED\<rparr>) (im_compositions s)\<rparr>)"
  | (committed) resv cn m where
      "map_of (im_reservations s) (rv_id resIn) = Some resv" "rv_state resv = RS_PROVISIONAL"
      "map_of (im_compositions s) (rv_composition resv) = Some cn" "c_lifecycle cn = CL_RESERVED"
      "commit_check (c_request cn) (im_resources s) (rv_items resv) (im_reserved_amount s) = (None, m)"
      "Commit resIn s =
         (\<lparr>cm_outcome = CO_SUCCESS, cm_composition = cn\<lparr>c_lifecycle := CL_COMMITTED\<rparr>, cm_reasons = [], cm_notes = []\<rparr>,
          s\<lparr>im_reserved_amount := m,
            im_reservations := um_put (rv_id resIn)
              (resv\<lparr>rv_items := map (\<lambda>it. it\<lparr>it_state := RS_COMMITTED\<rparr>) (rv_items resv), rv_state := RS_COMMITTED\<rparr>)
              (im_reservations s),
            im_compositions := um_put (rv_composition resv) (cn\<lparr>c_lifecycle := CL_COMMITTED\<rparr>) (im_compositions s)\<rparr>)"
proof (cases "map_of (im_reservations s) (rv_id resIn)")
  case None
  then show ?thesis using refused by (simp add: Commit_def)
next
  case resv: (Some resv)
  show ?thesis
  proof (cases "rv_state resv = RS_PROVISIONAL")
    case False
    then show ?thesis using refused resv by (simp add: Commit_def)
  next
    case prov: True
    show ?thesis
    proof (cases "map_of (im_compositions s) (rv_composition resv)")
      case None
      then show ?thesis using refused resv prov by (simp add: Commit_def)
    next
      case cn: (Some cn)
      show ?thesis
      proof (cases "c_lifecycle cn = CL_RESERVED")
        case False
        then show ?thesis using refused resv prov cn by (simp add: Commit_def)
      next
        case True
        obtain failure m where chk: "commit_check (c_request cn) (im_resources s) (rv_items resv)
            (im_reserved_amount s) = (failure, m)" by fastforce
        show ?thesis
        proof (cases failure)
          case None
          show ?thesis by (rule committed [OF resv prov cn True chk [unfolded None]])
              (simp add: Commit_def resv prov cn True chk None Let_def)
        next
          case (Some reason)
          show ?thesis by (rule rollback [OF resv prov cn True chk [unfolded Some]])
              (simp add: Commit_def resv prov cn True chk Some Let_def)
        qed
      qed
    qed
  qed
qed

lemma Activate_cases:
  obtains (refused) reason msg where "Activate i s = (activate_rejected reason msg, s)"
  | (stale) cn reasons ns where
      "map_of (im_compositions s) i = Some cn" "c_lifecycle cn = CL_COMMITTED" "c_id cn \<notin> im_fenced s"
      "RevalidationHolds cn (im_resources s) (im_epoch s) = (False, reasons, ns)"
      "Activate i s =
         (\<lparr>ac_outcome = CO_REJECTED,
           ac_composition = cn\<lparr>c_lifecycle := CL_REVALIDATION_REQUIRED, c_outcome := CO_REJECTED\<rparr>,
           ac_reasons = reasons, ac_notes = ns\<rparr>,
          s\<lparr>im_compositions := um_put i (cn\<lparr>c_lifecycle := CL_REVALIDATION_REQUIRED, c_outcome := CO_REJECTED\<rparr>)
              (im_compositions s)\<rparr>)"
  | (activated) cn where
      "map_of (im_compositions s) i = Some cn" "c_lifecycle cn = CL_COMMITTED" "c_id cn \<notin> im_fenced s"
      "fst (RevalidationHolds cn (im_resources s) (im_epoch s))"
      "Activate i s =
         (\<lparr>ac_outcome = CO_SUCCESS, ac_composition = cn\<lparr>c_lifecycle := CL_ACTIVE, c_outcome := CO_SUCCESS\<rparr>,
           ac_reasons = [], ac_notes = []\<rparr>,
          s\<lparr>im_compositions := um_put i (cn\<lparr>c_lifecycle := CL_ACTIVE, c_outcome := CO_SUCCESS\<rparr>) (im_compositions s)\<rparr>)"
proof (cases "map_of (im_compositions s) i")
  case None
  then show ?thesis using refused by (simp add: Activate_def)
next
  case cn: (Some cn)
  show ?thesis
  proof (cases "c_lifecycle cn = CL_COMMITTED \<and> c_id cn \<notin> im_fenced s")
    case False
    then have "\<exists>reason msg. Activate i s = (activate_rejected reason msg, s)" using cn by (auto simp: Activate_def)
    then show ?thesis using refused by blast
  next
    case True
    obtain valid reasons ns where v: "RevalidationHolds cn (im_resources s) (im_epoch s) = (valid, reasons, ns)"
      by (rule prod_cases3)
    show ?thesis
    proof (cases valid)
      case ok: True
      show ?thesis by (rule activated [OF cn]) (use True v ok in \<open>simp_all add: Activate_def cn Let_def\<close>)
    next
      case False
      show ?thesis by (rule stale [OF cn]) (use True v False in \<open>simp_all add: Activate_def cn Let_def\<close>)
    qed
  qed
qed

lemma keys_ok_Commit [inv_intros]:
  assumes ok: "keys_ok s"
  shows "keys_ok (snd (Commit resIn s))"
proof -
  have led: "om_ok (snd (commit_check req rs items (im_reserved_amount s)))" for req rs items
    by (rule commit_check_ledger) (use ok in \<open>simp_all add: om_ok_touch keys_ok_def\<close>)
  note look = keyed_lookup [OF keys_okD(3) [OF ok]] keyed_lookup [OF keys_okD(4) [OF ok]]
  show ?thesis
  proof (cases rule: Commit_cases [where resIn = resIn and s = s])
    case refused
    with ok show ?thesis by simp
  next
    case (rollback resv cn reason m)
    with ok led [of "c_request cn" "im_resources s" "rv_items resv"] look show ?thesis
      by (simp add: keys_ok_def keyed_put om_ok_release)
  next
    case (committed resv cn m)
    with ok led [of "c_request cn" "im_resources s" "rv_items resv"] look show ?thesis
      by (simp add: keys_ok_def keyed_put)
  qed
qed

lemma keys_ok_Activate [inv_intros]:
  assumes ok: "keys_ok s"
  shows "keys_ok (snd (Activate i s))"
  using keyed_lookup [OF keys_okD(3) [OF ok]] ok
  by (cases rule: Activate_cases [where i = i and s = s]) (auto simp: keys_ok_def keyed_put)

lemma keys_ok_BeginDrain [inv_intros]:
  assumes ok: "keys_ok s"
  shows "keys_ok (snd (BeginDrain i s))"
  using keyed_lookup [OF keys_okD(3) [OF ok]] ok by (auto simp: BeginDrain_def keys_ok_def keyed_put split: option.split)

lemma release_reservation_frame [simp]:
  "im_compositions (release_reservation i s) = im_compositions s"
  "im_resources (release_reservation i s) = im_resources s"
  "im_nodes (release_reservation i s) = im_nodes s"
  "im_config (release_reservation i s) = im_config s"
  "im_fenced (release_reservation i s) = im_fenced s"
  "im_paths (release_reservation i s) = im_paths s"
  "im_policies (release_reservation i s) = im_policies s"
  "im_next_resv (release_reservation i s) = im_next_resv s"
  by (simp_all add: release_reservation_def split: option.split)

lemma set_released_frame [simp]:
  "im_compositions (set_released i c s) = um_put i (c\<lparr>c_lifecycle := CL_RELEASED\<rparr>) (im_compositions s)"
  "im_resources (set_released i c s) = im_resources s"
  "im_nodes (set_released i c s) = im_nodes s"
  "im_config (set_released i c s) = im_config s"
  "im_fenced (set_released i c s) = im_fenced s"
  "im_paths (set_released i c s) = im_paths s"
  "im_policies (set_released i c s) = im_policies s"
  "im_reservations (set_released i c s) = im_reservations s"
  "im_reserved_amount (set_released i c s) = im_reserved_amount s"
  "im_next_resv (set_released i c s) = im_next_resv s"
  by (simp_all add: set_released_def)

lemma keys_ok_release_reservation: "keys_ok s \<Longrightarrow> keys_ok (release_reservation i s)"
  by (auto simp: release_reservation_def keys_ok_def om_ok_release split: option.split
      intro!: keyed_put dest: keyed_lookup)

lemma keys_ok_set_released: "keys_ok s \<Longrightarrow> c_id c = i \<Longrightarrow> keys_ok (set_released i c s)"
  by (simp add: keys_ok_def keyed_put)

lemma keys_ok_released:
  assumes ok: "keys_ok s" and c: "map_of (im_compositions s) i = Some c"
  shows "keys_ok (set_released i c (release_reservation j s))"
  using keys_ok_set_released [OF keys_ok_release_reservation [OF ok, of j], of c i]
    keyed_lookup [OF keys_okD(3) [OF ok] c] by simp

lemma keys_ok_fences [simp]:
  "keys_ok (s\<lparr>im_draining := X\<rparr>) = keys_ok s" "keys_ok (s\<lparr>im_fenced := X\<rparr>) = keys_ok s"
  by (simp_all add: keys_ok_def)

lemma keys_ok_EndDrain [inv_intros]: "keys_ok s \<Longrightarrow> keys_ok (snd (EndDrain i s))"
  by (simp add: EndDrain_def keys_ok_released split: option.split)

lemma keys_ok_Release [inv_intros]: "keys_ok s \<Longrightarrow> keys_ok (snd (Release i s))"
  by (simp add: Release_def keys_ok_released split: option.split)

lemma keys_ok_recompute_release [inv_intros]: "keys_ok s \<Longrightarrow> keys_ok (recompute_release i s)"
  by (simp add: recompute_release_def keys_ok_released split: option.split)

lemma put_by_id_hashed: "put_by_id key vs = hashed.put_all key vs []"
  by (simp add: put_by_id_def hashed.put_all_def)

lemma keyed_put_by_id: "keyed key (put_by_id key vs)"
proof -
  have "keyed key (foldl (\<lambda>m v. um_put (key v) v m) m vs)" if "keyed key m" for m
    using that by (induction vs arbitrary: m) (simp_all add: keyed_put)
  then show ?thesis by (simp add: put_by_id_def)
qed

lemma put_by_id_member: "map_of (put_by_id key vs) k = Some v \<Longrightarrow> v \<in> set vs \<and> key v = k"
  using hashed.find_put_all_cases [of key vs "[]" k v] by (auto simp: put_by_id_hashed)

definition durable_ok :: "string + DurableState \<Rightarrow> bool" where
  "durable_ok loaded \<longleftrightarrow> (case loaded of Inl err \<Rightarrow> True | Inr state \<Rightarrow> om_ok (ds_policies state))"

lemma keys_ok_Load [inv_intros]: "keys_ok s \<Longrightarrow> durable_ok loaded \<Longrightarrow> keys_ok (snd (Load loaded s))"
  by (simp add: Load_def durable_ok_def keys_ok_def keyed_put_by_id Let_def split: sum.splits)

section \<open>Activation is the only way to authority\<close>

lemma authority_inv_put:
  assumes inv: "authority_inv s"
    and table: "im_compositions s' = um_put k c (im_compositions s)"
    and new: "c_lifecycle c = CL_ACTIVE \<Longrightarrow> bound_to s' c"
    and same: "im_resources s' = im_resources s" "im_epoch s' = im_epoch s"
    and fences: "\<And>j c'. map_of (im_compositions s) j = Some c' \<Longrightarrow> j \<noteq> k \<Longrightarrow> c_id c' \<in> im_fenced s' \<Longrightarrow> c_id c' \<in> im_fenced s"
  shows "authority_inv s'"
  unfolding authority_inv_def
proof (intro allI impI, elim conjE)
  fix j c' assume j: "map_of (im_compositions s') j = Some c'" and act: "c_lifecycle c' = CL_ACTIVE"
  show "bound_to s' c'"
  proof (cases "j = k")
    case True
    with j table have "c' = c" by (simp add: update_conv)
    with new act show ?thesis by simp
  next
    case False
    with j table have old: "map_of (im_compositions s) j = Some c'" by (simp add: update_conv)
    with authority_invD [OF inv old act] fences [OF old False] same show ?thesis by (auto simp: bound_to_def)
  qed
qed

lemma authority_inv_Reserve [inv_intros]:
  assumes inv: "authority_inv s"
  shows "authority_inv (snd (Reserve plan s))"
proof (cases rule: Reserve_cases [where plan = plan and s = s])
  case refused
  with inv show ?thesis by simp
next
  case failed
  then show ?thesis by (simp add: authority_inv_mono [OF inv])
next
  case reserved
  show ?thesis
    by (rule authority_inv_put [OF inv, where k = "pl_id plan" and c = "reserved_composition plan s"])
      (use reserved in \<open>simp_all add: reserved_composition_def\<close>)
qed

lemma authority_inv_Commit [inv_intros]:
  assumes inv: "authority_inv s"
  shows "authority_inv (snd (Commit resIn s))"
proof (cases rule: Commit_cases [where resIn = resIn and s = s])
  case refused
  with inv show ?thesis by simp
next
  case (rollback resv cn reason m)
  show ?thesis
    by (rule authority_inv_put [OF inv, where k = "rv_composition resv"
          and c = "cn\<lparr>c_lifecycle := CL_REVALIDATION_REQUIRED, c_outcome := CO_FAILED\<rparr>"]) (simp_all add: rollback)
next
  case (committed resv cn m)
  show ?thesis
    by (rule authority_inv_put [OF inv, where k = "rv_composition resv" and c = "cn\<lparr>c_lifecycle := CL_COMMITTED\<rparr>"])
      (simp_all add: committed)
qed

lemma RevalidationHolds_generations:
  "fst (RevalidationHolds c resources epoch) \<Longrightarrow> generations_hold resources c"
  unfolding RevalidationHolds_iff generations_hold_def by (fastforce simp: set_zip)

lemma authority_inv_Activate [inv_intros]:
  assumes inv: "authority_inv s"
  shows "authority_inv (snd (Activate i s))"
proof (cases rule: Activate_cases [where i = i and s = s])
  case refused
  with inv show ?thesis by simp
next
  case (stale cn reasons ns)
  show ?thesis
    by (rule authority_inv_put [OF inv, where k = i
          and c = "cn\<lparr>c_lifecycle := CL_REVALIDATION_REQUIRED, c_outcome := CO_REJECTED\<rparr>"]) (simp_all add: stale)
next
  case (activated cn)
  have "bound_to s cn"
    using activated(3,4) RevalidationHolds_generations [OF activated(4)]
    by (simp add: bound_to_def RevalidationHolds_iff)
  then have "bound_to (snd (Activate i s)) (cn\<lparr>c_lifecycle := CL_ACTIVE, c_outcome := CO_SUCCESS\<rparr>)"
    by (simp add: activated bound_to_def generations_hold_def)
  then show ?thesis
    by (intro authority_inv_put [OF inv, where k = i
          and c = "cn\<lparr>c_lifecycle := CL_ACTIVE, c_outcome := CO_SUCCESS\<rparr>"]) (simp_all add: activated)
qed

lemma authority_inv_BeginDrain [inv_intros]:
  assumes inv: "authority_inv s"
  shows "authority_inv (snd (BeginDrain i s))"
proof (cases "fst (BeginDrain i s)")
  case False
  with inv show ?thesis by (auto simp: BeginDrain_def split: option.splits if_splits)
next
  case True
  then obtain c where c: "snd (BeginDrain i s) = s\<lparr>im_compositions := um_put i (c\<lparr>c_lifecycle := CL_DRAINING\<rparr>) (im_compositions s),
      im_draining := insert i (im_draining s)\<rparr>"
    by (auto simp: BeginDrain_def split: option.splits if_splits)
  show ?thesis unfolding c
    by (rule authority_inv_put [OF inv, where k = i and c = "c\<lparr>c_lifecycle := CL_DRAINING\<rparr>"]) simp_all
qed

lemma authority_inv_released:
  assumes ok: "keys_ok s" and inv: "authority_inv s"
    and s': "im_compositions s' = um_put i (c\<lparr>c_lifecycle := CL_RELEASED\<rparr>) (im_compositions s)"
      "im_resources s' = im_resources s" "im_epoch s' = im_epoch s" "im_fenced s' \<subseteq> insert i (im_fenced s)"
  shows "authority_inv s'"
  by (rule authority_inv_put [OF inv s'(1) _ s'(2,3)])
    (use s'(4) keyed_lookup [OF keys_okD(3) [OF ok]] in auto)

lemma authority_inv_EndDrain [inv_intros]:
  assumes "keys_ok s" "authority_inv s"
  shows "authority_inv (snd (EndDrain i s))"
  using assms by (auto simp: EndDrain_def split: option.split intro!: authority_inv_released [OF assms])

lemma authority_inv_Release [inv_intros]:
  assumes "keys_ok s" "authority_inv s"
  shows "authority_inv (snd (Release i s))"
  using assms by (auto simp: Release_def split: option.split intro!: authority_inv_released [OF assms])

lemma authority_inv_recompute_release [inv_intros]:
  assumes "keys_ok s" "authority_inv s"
  shows "authority_inv (recompute_release i s)"
  using assms keyed_lookup [OF keys_okD(3) [OF assms(1)], of i]
  by (auto simp: recompute_release_def split: option.split intro!: authority_inv_released [OF assms])

lemma Load_no_active:
  "map_of (im_compositions (snd (Load (Inr state) s))) k = Some c \<Longrightarrow> c_lifecycle c \<notin> {CL_ACTIVE, CL_COMMITTED}"
  by (auto simp: Load_def Let_def reimport_composition_def dest!: put_by_id_member)

lemma authority_inv_Load [inv_intros]:
  assumes inv: "authority_inv s"
  shows "authority_inv (snd (Load loaded s))"
proof (cases loaded)
  case (Inl err)
  with inv show ?thesis by (simp add: Load_def)
next
  case (Inr state)
  show ?thesis using Load_no_active [of state s] unfolding authority_inv_def Inr by blast
qed

end
