(* ===== verification/Fabric_Persistence.thy ===== *)
theory Fabric_Persistence
  imports Fabric_Codec Fabric_Reservation
begin

text \<open>
  The durable file format, \<open>src/dfabric/persistence.cpp\<close>: the image \<open>SaveImpl\<close> writes and \<open>LoadImpl\<close>
  reads, and what the two do to the file system.  A file system maps paths to contents; what the
  operating system answers to opening and writing is given by a record, so that every failure
  branch of the source is there.  Whether the build is for Windows is one of these answers.
\<close>

section \<open>The parts of an image\<close>

definition kMagic :: u32 where "kMagic = 0x46414244"
definition kFormatVersion :: u32 where "kFormatVersion = 1"

definition Checksum :: "bytes \<Rightarrow> u64" where
  "Checksum data = foldl (\<lambda>h b. (xor h (ucast b)) * 0x100000001b3) 0xcbf29ce484222325 data"

definition persist_long :: string where "persist_long = ''persist: string too long''"

definition put_extra :: "(string \<times> double) list \<Rightarrow> encoding" where
  "put_extra extra =
     (if unat kMaxCount < length extra then Inl ''persist: extra too large''
      else put_vector (put_entry persist_long) extra)"

definition WriteResource :: "Resource \<Rightarrow> encoding" where
  "WriteResource = encode_resource persist_long put_extra"

definition ReadResource :: "Resource stmt" where
  "ReadResource = run_stmts
     (resource_stmts (run_stmts evidence_stmts) (run_stmts capability_stmts) (run_stmts compatibility_stmts) @ [return_ok])"

definition WriteNode :: "Node \<Rightarrow> encoding" where
  "WriteNode = encode_node persist_long"

definition ReadNode :: "Node stmt" where
  "ReadNode = run_stmts (node_stmts @ [return_ok])"

definition WriteEvidence :: "Evidence \<Rightarrow> encoding" where
  "WriteEvidence = encode_evidence persist_long"

definition ReadEvidence :: "Evidence stmt" where
  "ReadEvidence = run_stmts (evidence_stmts @ [return_ok])"

definition WritePath :: "PathEvidence \<Rightarrow> encoding" where
  "WritePath = encode_path persist_long"

definition ReadPath :: "PathEvidence stmt" where
  "ReadPath = run_stmts path_stmts"

definition WriteGraph :: "ResourceGraph \<Rightarrow> encoding" where
  "WriteGraph = encode_graph persist_long"

definition ReadGraph :: "ResourceGraph stmt" where
  "ReadGraph = run_stmts (graph_stmts @ [return_ok])"

definition WriteAuthority :: "AuthorityTuple \<Rightarrow> encoding" where
  "WriteAuthority = EncodeAuthority"

definition ReadAuthority :: "AuthorityTuple stmt" where
  "ReadAuthority = run_stmts (authority_stmts @ [return_ok])"

definition WriteRequest :: "CompositionRequest \<Rightarrow> encoding" where
  "WriteRequest = encode_request persist_long []"

definition ReadRequest :: "CompositionRequest stmt" where
  "ReadRequest = run_stmts (request_stmts [] @ [return_ok])"

definition WriteComposition :: "Composition \<Rightarrow> encoding" where
  "WriteComposition = encode_composition persist_long WriteRequest []"

definition ReadComposition :: "Composition stmt" where
  "ReadComposition = run_stmts (composition_stmts ReadRequest [] @ [return_ok])"

section \<open>Images\<close>

definition save_body :: "DurableState \<Rightarrow> encoding" where
  "save_body s = emit
     [put_U32 kMagic, put_U32 kFormatVersion, put_U64 (gen_Value (ds_epoch s)),
      put_vector WriteNode (ds_nodes s), put_vector WriteResource (ds_resources s),
      put_vector (\<lambda>(p, g). emit [put_U64 (Value p), put_U64 (gen_Value g)]) (ds_policies s),
      put_vector WriteComposition (ds_compositions s)]"

definition save_image :: "DurableState \<Rightarrow> encoding" where
  "save_image s = (case save_body s of Inl what \<Rightarrow> Inl what | Inr buf \<Rightarrow> Inr (buf @ PutU64 (Checksum buf)))"

definition DurableState_default :: DurableState where
  "DurableState_default =
     \<lparr>ds_epoch = StrongGeneration 0, ds_nodes = [], ds_resources = [], ds_policies = [], ds_compositions = []\<rparr>"

text \<open>\<open>n = r.U32(); if (n > kMaxCount) ... ; for (i < n) body\<close>, with the error text of either failure.\<close>

definition load_section ::
    "string \<Rightarrow> string \<Rightarrow> 'a stmt \<Rightarrow> 'a \<times> Reader \<Rightarrow> string + 'a \<times> Reader" where
  "load_section overflow malformed body = (\<lambda>(x, r).
     let (n, r1) = get_U32 r in
     if kMaxCount < n then Inl overflow
     else let (b, x', r2) = repeat_stmt (unat n) body x r1 in if b then Inr (x', r2) else Inl malformed)"

definition and_then :: "string + 'a \<Rightarrow> ('a \<Rightarrow> string + 'b) \<Rightarrow> string + 'b" where
  "and_then x f = (case x of Inl err \<Rightarrow> Inl err | Inr v \<Rightarrow> f v)"

definition get_policy :: "Reader \<Rightarrow> (PolicyId \<times> PolicyGeneration) \<times> Reader" where
  "get_policy r = (let (p, r1) = get_U64 r; (g, r2) = get_U64 r1 in ((StrongId p, StrongGeneration g), r2))"

definition load_payload :: "DurableState \<times> Reader \<Rightarrow> string + DurableState" where
  "load_payload start =
     and_then (load_section ''node count overflow'' ''malformed node''
                 (decode_element Node_default ReadNode (push_back ds_nodes_update)) start) (\<lambda>s1.
     and_then (load_section ''resource count overflow'' ''malformed resource''
                 (decode_element Resource_default ReadResource (push_back ds_resources_update)) s1) (\<lambda>s2.
     and_then (load_section ''policy count overflow'' []
                 (assign get_policy (\<lambda>(p, g). ds_policies_update (om_put p g))) s2) (\<lambda>s3.
     and_then (load_section ''composition count overflow'' ''malformed composition''
                 (decode_element Composition_default ReadComposition (push_back ds_compositions_update)) s3) (\<lambda>(x, r).
     if \<not> rd_ok r then Inl ''truncated payload'' else Inr x))))"

definition load_image :: "bytes \<Rightarrow> string + DurableState" where
  "load_image buf =
     (let (magic, r1) = get_U32 (MakeReader buf) in
      if magic \<noteq> kMagic then Inl ''bad magic''
      else let (version, r2) = get_U32 r1 in
      if version \<noteq> kFormatVersion then Inl ''unsupported format version''
      else if length buf < 8 then Inl ''truncated (no checksum)''
      else let stored = fst (get_U64 ((MakeReader buf)\<lparr>rd_pos := length buf - 8\<rparr>)) in
      if stored \<noteq> Checksum (take (length buf - 8) buf) then Inl ''checksum mismatch''
      else let (epoch, r3) = get_U64 r2 in
      load_payload (DurableState_default\<lparr>ds_epoch := StrongGeneration epoch\<rparr>, r3))"

section \<open>Files\<close>

type_synonym files = "string \<rightharpoonup> bytes"

record io_answers =
  io_win32 :: bool
  io_removes :: bool
  io_removes_tmp :: bool
  io_opens_tmp :: bool
  io_write_good :: bool
  io_partial_tmp :: bytes
  io_opens_final :: bool
  io_reopens_tmp :: bool
  io_exception :: string
  io_final :: "bytes option"

text \<open>
  \<open>io_final\<close> is what a failed copy to the final file leaves there; the source does not check that copy
  and reports success.  If the temporary file cannot be read back, its size is taken as -1 and the
  allocation of the buffer throws, with a text the standard library chooses; the final file was
  truncated when it was opened just before.
\<close>

definition SaveImpl :: "io_answers \<Rightarrow> DurableState \<Rightarrow> string \<Rightarrow> files \<Rightarrow> (bool \<times> string) \<times> files" where
  "SaveImpl io s path fs =
     (case save_image s of
        Inl what \<Rightarrow> ((False, what), fs)
      | Inr buf \<Rightarrow>
        let tmp = path @ ''.tmp'' in
        if \<not> io_opens_tmp io then ((False, ''cannot open temp path for write''), fs)
        else if \<not> io_write_good io then ((False, ''write failed''), fs(tmp \<mapsto> io_partial_tmp io))
        else let fs1 = fs(tmp \<mapsto> buf) in
        let fs2 = (if io_win32 io \<and> io_removes io then fs1(path := None) else fs1) in
        if \<not> io_opens_final io then ((False, ''cannot open final path''), fs2)
        else if \<not> io_reopens_tmp io then ((False, io_exception io), fs2(path \<mapsto> []))
        else let fs3 = fs2(path \<mapsto> (case io_final io of None \<Rightarrow> buf | Some b \<Rightarrow> b)) in
        ((True, []), if io_win32 io \<and> io_removes_tmp io then fs3(tmp := None) else fs3))"

definition LoadImpl :: "bool \<Rightarrow> string \<Rightarrow> files \<Rightarrow> string + DurableState" where
  "LoadImpl read_good path fs =
     (case fs path of
        None \<Rightarrow> Inl ''cannot open path for read''
      | Some buf \<Rightarrow>
        if length buf \<le> 0 then Inl ''empty/truncated file''
        else if \<not> read_good then Inl ''read failed (truncation)''
        else load_image buf)"

text \<open>\<open>FabricEngine::Save\<close> and \<open>FabricEngine::Load\<close> on files.\<close>

definition engine_Save :: "io_answers \<Rightarrow> string \<Rightarrow> Impl \<Rightarrow> files \<Rightarrow> bool \<times> files" where
  "engine_Save io path s fs = (let (r, fs') = SaveImpl io (durable_state s) path fs in (fst r, fs'))"

definition engine_Load :: "bool \<Rightarrow> string \<Rightarrow> files \<Rightarrow> Impl \<Rightarrow> LoadResult \<times> Impl" where
  "engine_Load read_good path fs s = Load (LoadImpl read_good path fs) s"

section \<open>Round trips of the parts\<close>

lemma Checksum_eq: "Checksum = Fnv"
  by (simp add: Checksum_def Fnv_def fnv_step_def [abs_def] fun_eq_iff)

lemma encode_resource_cong:
  "put1 (cp_extra (r_capacity r)) = put2 (cp_extra (r_capacity r)) \<Longrightarrow> encode_resource what put1 r = encode_resource what put2 r"
  by (simp add: encode_resource_def encode_capacity_def)

lemma file_resource:
  assumes "resource_fits r"
  shows "\<exists>u. codes (WriteResource r) ReadResource u \<and> u Resource_default = resource_read r"
proof -
  have "WriteResource r = encode_resource persist_long (put_vector (put_entry persist_long)) r"
    unfolding WriteResource_def
    by (rule encode_resource_cong) (use assms in \<open>simp add: put_extra_def kMaxCount_eq resource_fits_def capacity_fits_def entries_fits_def\<close>)
  moreover have "codes (encode_evidence persist_long (r_evidence r)) (run_stmts evidence_stmts) (\<lambda>_. r_evidence r)"
    using assms by (intro codes_evidence) (simp add: resource_fits_def)
  ultimately have "\<exists>u. codes (WriteResource r) (run_stmts (resource_stmts (run_stmts evidence_stmts)
      (run_stmts capability_stmts) (run_stmts compatibility_stmts))) u \<and> u Resource_default = resource_read r"
    using codes_resource [OF assms _ codes_capability codes_compatibility] by simp
  then show ?thesis unfolding ReadResource_def by (blast intro: codes_returning)
qed

lemma file_node:
  assumes "node_fits n"
  shows "\<exists>u. codes (WriteNode n) ReadNode u \<and> u Node_default = node_read n"
  using codes_node [OF assms, of persist_long] unfolding WriteNode_def ReadNode_def by (blast intro: codes_returning)

definition request_kept :: "CompositionRequest \<Rightarrow> CompositionRequest" where
  "request_kept q = (request_read q)\<lparr>rq_ignore_reachability := False\<rparr>"

lemma file_request:
  assumes "request_fits q"
  shows "\<exists>u. codes (WriteRequest q) ReadRequest u \<and> u CompositionRequest_default = request_kept q"
  unfolding WriteRequest_def ReadRequest_def encode_request_def request_stmts_def append.simps append_assoc
  by (intro exI conjI, (rule codes_intros codes_return codes_push codes_classes |
        use assms in \<open>simp add: request_fits_def updater_def; fail\<close>)+,
      simp add: CompositionRequest_default_def request_read_def request_kept_def FailureDomainConstraint_default_def)

definition composition_kept :: "Composition \<Rightarrow> Composition" where
  "composition_kept c = c\<lparr>c_request := request_kept (c_request c), c_rank := (c_rank c)\<lparr>rk_factors := []\<rparr>, c_explanation := []\<rparr>"

lemma file_composition:
  assumes "composition_fits c"
  shows "\<exists>u. codes (WriteComposition c) ReadComposition u \<and> u Composition_default = composition_kept c"
proof -
  obtain uq where uq: "codes (WriteRequest (c_request c)) ReadRequest uq"
      "uq CompositionRequest_default = request_kept (c_request c)"
    using file_request [of "c_request c"] assms by (auto simp: composition_fits_def)
  from codes_composition [where enc_request = WriteRequest, OF assms uq codes_Nil, of persist_long]
  obtain u where "codes (WriteComposition c) (run_stmts (composition_stmts ReadRequest [])) u"
      "u Composition_default = composition_kept c"
    unfolding WriteComposition_def composition_kept_def by auto
  then show ?thesis unfolding ReadComposition_def by (blast intro: codes_returning)
qed

interpretation resource_file: record_format WriteResource ReadResource Resource_default resource_fits resource_read
  by unfold_locales (rule file_resource)

interpretation node_file: record_format WriteNode ReadNode Node_default node_fits node_read
  by unfold_locales (rule file_node)

interpretation composition_file: record_format WriteComposition ReadComposition Composition_default composition_fits composition_kept
  by unfold_locales (rule file_composition)

section \<open>Round trip of an image\<close>

definition durable_fits :: "DurableState \<Rightarrow> bool" where
  "durable_fits s \<longleftrightarrow>
     length (ds_nodes s) \<le> 1048576 \<and> (\<forall>n \<in> set (ds_nodes s). node_fits n) \<and>
     length (ds_resources s) \<le> 1048576 \<and> (\<forall>r \<in> set (ds_resources s). resource_fits r) \<and>
     length (ds_policies s) \<le> 1048576 \<and> om_ok (ds_policies s) \<and>
     length (ds_compositions s) \<le> 1048576 \<and> (\<forall>c \<in> set (ds_compositions s). composition_fits c)"

definition durable_kept :: "DurableState \<Rightarrow> DurableState" where
  "durable_kept s = s\<lparr>ds_nodes := map node_read (ds_nodes s), ds_resources := map resource_read (ds_resources s),
     ds_compositions := map composition_kept (ds_compositions s)\<rparr>"

lemma load_section_codes:
  assumes "codes (Inr bs) (for_count body) u" "rd_ok r" "unread r = bs @ rest"
  shows "load_section overflow malformed body (x, r) = Inr (u x, advance (length bs) r)"
  using codesD(1) [OF assms(1) refl assms(2,3), of x]
  by (auto simp: load_section_def for_count_def split: prod.splits if_splits)

lemma gets_policy: "gets (case e of (p, g) \<Rightarrow> emit [put_U64 (Value p), put_U64 (gen_Value g)]) get_policy e"
proof -
  obtain p g where e: "e = (StrongId p, StrongGeneration g)" by (metis StrongGeneration.exhaust StrongId.exhaust surj_pair)
  have "gets (emit [put_U64 p, put_U64 g])
      (\<lambda>r. let (a, r1) = (let (a, r1) = get_U64 r; (b, r2) = get_U64 r1 in ((a, b), r2)) in
         ((\<lambda>(a, b). (StrongId a, StrongGeneration b)) a, r1)) ((\<lambda>(a, b). (StrongId a, StrongGeneration b)) (p, g))"
    by (rule gets_map [OF gets_pair [OF gets_U64 gets_U64]])
  then show ?thesis by (simp add: e get_policy_def [abs_def] Let_def case_prod_beta)
qed

lemma codes_policies:
  assumes "length m \<le> 1048576"
  shows "codes (put_vector (\<lambda>(p, g). emit [put_U64 (Value p), put_U64 (gen_Value g)]) m)
    (for_count (assign get_policy (\<lambda>(p, g). ds_policies_update (om_put p g))))
    (ds_policies_update (fold (\<lambda>e. om_put (fst e) (snd e)) m))"
proof (rule codes_conv [OF codes_for [OF codes_assign [OF gets_policy] assms]])
  show "fold (\<lambda>(p, g). ds_policies_update (om_put p g)) m x = ds_policies_update (fold (\<lambda>e. om_put (fst e) (snd e)) m) x" for x
    unfolding split_def by (rule fold_updater) (simp add: updater_def)
qed

lemma payload_codes:
  assumes "codes (Inr bn) (for_count (decode_element Node_default ReadNode (push_back ds_nodes_update))) un"
    and "codes (Inr br) (for_count (decode_element Resource_default ReadResource (push_back ds_resources_update))) ur"
    and "codes (Inr bp) (for_count (assign get_policy (\<lambda>(p, g). ds_policies_update (om_put p g)))) up"
    and "codes (Inr bc) (for_count (decode_element Composition_default ReadComposition (push_back ds_compositions_update))) uc"
    and "rd_ok r" "unread r = bn @ br @ bp @ bc @ rest"
  shows "load_payload (x, r) = Inr (uc (up (ur (un x))))"
proof -
  let ?r1 = "advance (length bn) r" let ?r2 = "advance (length br) ?r1" let ?r3 = "advance (length bp) ?r2"
  have at: "rd_ok ?r1" "unread ?r1 = br @ bp @ bc @ rest" "rd_ok ?r2" "unread ?r2 = bp @ bc @ rest"
      "rd_ok ?r3" "unread ?r3 = bc @ rest"
    unfolding unread_advance by (simp_all add: assms(5,6))
  show ?thesis
    unfolding load_payload_def load_section_codes [OF assms(1,5,6)] and_then_def sum.case
      load_section_codes [OF assms(2) at(1,2)] load_section_codes [OF assms(3) at(3,4)] load_section_codes [OF assms(4) at(5,6)]
    by (simp add: assms(5))
qed

lemma image_header:
  assumes "buf = body @ PutU64 (Fnv body)" "body = PutU32 kMagic @ PutU32 kFormatVersion @ PutU64 e @ payload"
  shows "load_image buf =
    load_payload (DurableState_default\<lparr>ds_epoch := StrongGeneration e\<rparr>, (MakeReader buf)\<lparr>rd_pos := 16\<rparr>)"
proof -
  let ?r0 = "MakeReader buf" let ?r1 = "?r0\<lparr>rd_pos := 4\<rparr>" let ?r2 = "?r0\<lparr>rd_pos := 8\<rparr>"
  let ?trailer = "?r0\<lparr>rd_pos := length buf - 8\<rparr>"
  have unread: "unread ?r0 = buf" "unread ?r1 = drop 4 buf" "unread ?r2 = drop 8 buf" "unread ?trailer = drop (length buf - 8) buf"
    by (simp_all add: MakeReader_def unread_def)
  have ok: "rd_ok ?r0" "rd_ok ?r1" "rd_ok ?r2" "rd_ok ?trailer" by (simp_all add: MakeReader_def)
  have "get_U32 ?r0 = (kMagic, ?r1)"
    using getsD(1) [OF gets_U32 put_U32_def ok(1)] unread(1) by (simp add: assms) (simp add: MakeReader_def)
  moreover have "get_U32 ?r1 = (kFormatVersion, ?r2)"
    using getsD(1) [OF gets_U32 put_U32_def ok(2)] unread(2) by (simp add: assms)
  moreover have "get_U64 ?r2 = (e, ?r0\<lparr>rd_pos := 16\<rparr>)"
    using getsD(1) [OF gets_U64 put_U64_def ok(3)] unread(3) by (simp add: assms)
  moreover have "fst (get_U64 ?trailer) = Fnv body"
    using getsD(1) [OF gets_U64 put_U64_def ok(4), of "Fnv body" "[]"] unread(4) by (simp add: assms(1))
  moreover have "length buf - 8 = length body" "\<not> length buf < 8" by (simp_all add: assms)
  ultimately show ?thesis by (simp add: load_image_def Checksum_eq assms(1))
qed

lemma image_round_trip:
  assumes "durable_fits s"
  shows "\<exists>body. save_image s = Inr (body @ PutU64 (Fnv body)) \<and> load_image (body @ PutU64 (Fnv body)) = Inr (durable_kept s)"
proof -
  have cn: "codes (put_vector WriteNode (ds_nodes s))
      (for_count (decode_element Node_default ReadNode (push_back ds_nodes_update))) (ds_nodes_update (\<lambda>l. l @ map node_read (ds_nodes s)))"
    using assms by (intro node_file.pushes) (simp_all add: durable_fits_def updater_def)
  have cr: "codes (put_vector WriteResource (ds_resources s))
      (for_count (decode_element Resource_default ReadResource (push_back ds_resources_update)))
      (ds_resources_update (\<lambda>l. l @ map resource_read (ds_resources s)))"
    using assms by (intro resource_file.pushes) (simp_all add: durable_fits_def updater_def)
  have cp: "codes (put_vector (\<lambda>(p, g). emit [put_U64 (Value p), put_U64 (gen_Value g)]) (ds_policies s))
      (for_count (assign get_policy (\<lambda>(p, g). ds_policies_update (om_put p g))))
      (ds_policies_update (fold (\<lambda>e. om_put (fst e) (snd e)) (ds_policies s)))"
    using assms by (intro codes_policies) (simp add: durable_fits_def)
  have cc: "codes (put_vector WriteComposition (ds_compositions s))
      (for_count (decode_element Composition_default ReadComposition (push_back ds_compositions_update)))
      (ds_compositions_update (\<lambda>l. l @ map composition_kept (ds_compositions s)))"
    using assms by (intro composition_file.pushes) (simp_all add: durable_fits_def updater_def)
  obtain bn br bp bc where b: "put_vector WriteNode (ds_nodes s) = Inr bn" "put_vector WriteResource (ds_resources s) = Inr br"
      "put_vector (\<lambda>(p, g). emit [put_U64 (Value p), put_U64 (gen_Value g)]) (ds_policies s) = Inr bp"
      "put_vector WriteComposition (ds_compositions s) = Inr bc"
    using codes_Inr [OF cn] codes_Inr [OF cr] codes_Inr [OF cp] codes_Inr [OF cc] by blast
  define body where "body = PutU32 kMagic @ PutU32 kFormatVersion @ PutU64 (gen_Value (ds_epoch s)) @ bn @ br @ bp @ bc"
  have "save_body s = Inr body" unfolding save_body_def b by (simp add: put_U32_def put_U64_def body_def)
  then have save: "save_image s = Inr (body @ PutU64 (Fnv body))" by (simp add: save_image_def Checksum_eq)
  let ?r = "(MakeReader (body @ PutU64 (Fnv body)))\<lparr>rd_pos := 16\<rparr>"
  have r: "rd_ok ?r" "unread ?r = bn @ br @ bp @ bc @ PutU64 (Fnv body)"
    by (simp_all add: MakeReader_def unread_def body_def)
  have om: "om_ok (ds_policies s)" using assms by (simp add: durable_fits_def)
  have "load_image (body @ PutU64 (Fnv body)) = Inr (durable_kept s)"
    unfolding image_header [OF refl body_def] payload_codes [OF cn [unfolded b] cr [unfolded b] cp [unfolded b] cc [unfolded b] r]
    by (simp add: DurableState_default_def durable_kept_def om)
  with save show ?thesis by blast
qed

section \<open>Recovery\<close>

text \<open>Rebuilding a table from its own values gives the table back.\<close>

lemma put_by_id_table:
  assumes "keyed key m" "\<And>v. key (f v) = key v"
  shows "map_of (put_by_id key (map f (map snd m))) i = map_option f (map_of m i)"
  using assms(1)
proof (induction m rule: rev_induct)
  case (snoc e m)
  obtain k v where e: "e = (k, v)" by fastforce
  have "keyed key m" "key v = k" "map_of m k = None"
    using snoc.prems by (auto simp: keyed_def um_ok_def e map_of_eq_None_iff)
  with snoc.IH show ?case by (auto simp: put_by_id_def e assms(2) update_conv map_add_def split: option.split)
qed (simp add: put_by_id_def)

lemma foldl_om_put: "om_ok m \<Longrightarrow> foldl (\<lambda>m (k, v). om_put k v m) [] m = m"
  using fold_om_put [of m] by (simp add: foldl_conv_fold split_def)

text \<open>The disk does what it is asked to.\<close>

definition io_good :: "io_answers \<Rightarrow> bool" where
  "io_good io \<longleftrightarrow> io_opens_tmp io \<and> io_write_good io \<and> io_opens_final io \<and> io_reopens_tmp io \<and> io_final io = None"

definition recovers :: "Impl \<Rightarrow> LoadResult \<times> Impl \<Rightarrow> bool" where
  "recovers s res \<longleftrightarrow> lr_ok (fst res) \<and> im_epoch (snd res) = im_epoch s \<and> im_policies (snd res) = im_policies s \<and>
     (\<forall>i. GetNode (snd res) i = map_option node_read (GetNode s i)) \<and>
     (\<forall>i. GetResource (snd res) i = map_option (\<lambda>r. expire_evidence (resource_read r)) (GetResource s i)) \<and>
     (\<forall>i. GetComposition (snd res) i = map_option (\<lambda>c. reimport_composition (composition_kept c)) (GetComposition s i))"

lemma kept_ids [simp]:
  "n_id (node_read n) = n_id n" "r_id (resource_read r) = r_id r" "r_id (expire_evidence r) = r_id r"
  "c_id (composition_kept c) = c_id c" "c_id (reimport_composition c) = c_id c"
  by (simp_all add: node_read_def resource_read_def expire_evidence_def composition_kept_def reimport_composition_def)

lemma Load_recovers:
  assumes "keys_ok s" "im_policies s = ds_policies (durable_state s)"
  shows "recovers s (Load (Inr (durable_kept (durable_state s))) t)"
proof -
  note tables = keys_okD(1-3) [OF assms(1)]
  show ?thesis
    using put_by_id_table [OF tables(1), of "\<lambda>r. expire_evidence (resource_read r)"]
      put_by_id_table [OF tables(2), of node_read]
      put_by_id_table [OF tables(3), of "\<lambda>c. reimport_composition (composition_kept c)"] assms(2)
    by (simp add: recovers_def Load_def Let_def durable_kept_def durable_state_def GetNode_def GetResource_def
        GetComposition_def comp_def)
qed

lemma image_recovers:
  assumes "keys_ok s" "durable_fits (durable_state s)"
  shows "\<exists>buf. save_image (durable_state s) = Inr buf \<and> (\<forall>p fs'. fs' p = Some buf \<longrightarrow> recovers s (engine_Load True p fs' t))"
proof -
  obtain body where image: "save_image (durable_state s) = Inr (body @ PutU64 (Fnv body))"
      "load_image (body @ PutU64 (Fnv body)) = Inr (durable_kept (durable_state s))"
    using image_round_trip [OF assms(2)] by blast
  have "im_policies s = ds_policies (durable_state s)"
    using assms(1) by (simp add: durable_state_def foldl_om_put keys_ok_def)
  from Load_recovers [OF assms(1) this] image show ?thesis
    by (intro exI [of _ "body @ PutU64 (Fnv body)"]) (auto simp: engine_Load_def LoadImpl_def)
qed

lemma save_load_recovers:
  assumes "keys_ok s" "durable_fits (durable_state s)" "io_good io"
  shows "fst (engine_Save io path s fs) \<and> recovers s (engine_Load True path (snd (engine_Save io path s fs)) t)"
proof -
  obtain buf where "save_image (durable_state s) = Inr buf"
      "\<And>p fs'. fs' p = Some buf \<Longrightarrow> recovers s (engine_Load True p fs' t)"
    using image_recovers [OF assms(1,2)] by blast
  with assms(3) show ?thesis by (simp add: engine_Save_def SaveImpl_def io_good_def Let_def)
qed


definition ex_saved :: Impl where
  "ex_saved = snd (RegisterResource ex_wire_resource (snd (RegisterNode ex_wire_node (FabricEngine ex_config))))"

definition ex_io :: io_answers where
  "ex_io = \<lparr>io_win32 = True, io_removes = True, io_removes_tmp = True, io_opens_tmp = True, io_write_good = True, io_partial_tmp = [], io_opens_final = True, io_reopens_tmp = True,
     io_exception = [], io_final = None\<rparr>"

lemma ex_saved_ok: "keys_ok ex_saved" "durable_fits (durable_state ex_saved)"
proof -
  show "keys_ok ex_saved" unfolding ex_saved_def by (intro inv_intros keys_ok_init)
  show "durable_fits (durable_state ex_saved)"
    by (simp add: ex_saved_def durable_fits_def durable_state_def RegisterResource_def RegisterNode_def IngestNodeLocked_def
      IngestResourceLocked_def FabricEngine_def format_limits model_defaults enum_maxima ex_wire_resource_def ex_wire_node_def
      ex_resource_def ex_node_def ex_evidence_def IsValid_def)
qed


text \<open>
  C33. Damage is caught: a saved file in which any one byte was changed is refused by the loader, and
  the engine keeps its state.
\<close>

theorem damaged_file_refused:
  assumes "save_image d = Inr buf" "i < length buf" "b \<noteq> buf ! i"
  shows "\<not> lr_ok (fst (Load (load_image (buf[i := b])) t)) \<and> snd (Load (load_image (buf[i := b])) t) = t"
proof -
  obtain body where buf: "buf = body @ PutU64 (Fnv body)"
    using assms(1) by (auto simp: save_image_def Checksum_eq split: sum.splits)
  let ?d = "buf[i := b]"
  have len: "length ?d - 8 = length body" "8 \<le> length ?d" by (simp_all add: buf)
  have "fst (get_U64 ((MakeReader ?d)\<lparr>rd_pos := length ?d - 8\<rparr>)) \<noteq> Checksum (take (length ?d - 8) ?d)"
    using trailer_detects [OF buf assms(2,3)] len(2) unfolding len(1)
    by (simp add: get_U64_def Need_def MakeReader_def Checksum_eq buf)
  then have "\<exists>err. load_image ?d = Inl err"
    using len(2) by (auto simp: load_image_def Let_def case_prod_beta)
  then show ?thesis by (auto simp: Load_def)
qed

definition ex_image :: bytes where
  "ex_image = (case save_image DurableState_default of Inr b \<Rightarrow> b | Inl _ \<Rightarrow> [])"

lemma ex_image_saved: "save_image DurableState_default = Inr ex_image" "8 < length ex_image" "ex_image ! 8 = 0"
  by code_simp+

theorem damaged_file_refused_witness:
  "\<not> lr_ok (fst (Load (load_image (ex_image[8 := 1])) ex_saved)) \<and> snd (Load (load_image (ex_image[8 := 1])) ex_saved) = ex_saved"
  by (rule damaged_file_refused [OF ex_image_saved(1,2)]) (simp add: ex_image_saved(3))

text \<open>
  A save that reports failure leaves the file at its path as it was, provided the temporary file it
  wrote can be read back and the build does not remove the old file first.
\<close>

theorem failed_save_keeps_file:
  assumes "\<not> fst (engine_Save io path s fs)" "io_reopens_tmp io" "\<not> io_win32 io"
  shows "snd (engine_Save io path s fs) path = fs path"
  using assms by (auto simp: engine_Save_def SaveImpl_def Let_def split: sum.splits if_splits)

theorem failed_save_keeps_file_witness:
  "snd (engine_Save (ex_io\<lparr>io_win32 := False, io_opens_final := False\<rparr>) ''state'' ex_saved [''state'' \<mapsto> [1]]) ''state'' = Some [1]"
  using failed_save_keeps_file [of "ex_io\<lparr>io_win32 := False, io_opens_final := False\<rparr>" "''state''" ex_saved "[''state'' \<mapsto> [1]]"]
    image_round_trip [OF ex_saved_ok(2)]
  by (auto simp: engine_Save_def SaveImpl_def ex_io_def Let_def)

text \<open>
  Otherwise the save fails and the previous file is lost: emptied if the temporary file cannot be read
  back, removed if a Windows build then cannot open the final path.
\<close>

lemma failed_save_loses_file:
  assumes "save_image (durable_state s) = Inr buf" "io_opens_tmp io" "io_write_good io"
  shows "io_opens_final io \<Longrightarrow> \<not> io_reopens_tmp io \<Longrightarrow>
      \<not> fst (engine_Save io path s fs) \<and> snd (engine_Save io path s fs) path = Some []"
    and "io_win32 io \<Longrightarrow> io_removes io \<Longrightarrow> \<not> io_opens_final io \<Longrightarrow>
      \<not> fst (engine_Save io path s fs) \<and> snd (engine_Save io path s fs) path = None"
  using assms by (simp_all add: engine_Save_def SaveImpl_def Let_def)

section \<open>A state the loader refuses\<close>

definition fits_but_health :: "Resource \<Rightarrow> bool" where
  "fits_but_health r \<longleftrightarrow> resource_fits (r\<lparr>r_health := RH_HEALTHY\<rparr>)"

lemma write_but_health:
  assumes "fits_but_health r"
  shows "\<exists>bs. WriteResource r = Inr bs"
proof -
  have "\<exists>bs. WriteResource (r\<lparr>r_health := RH_HEALTHY\<rparr>) = Inr bs"
    using assms by (intro resource_file.defined) (simp add: fits_but_health_def)
  then show ?thesis
    unfolding WriteResource_def encode_resource_def emit_defined by (auto simp: put_U32_def)
qed

lemma unknown_health_refused:
  assumes fit: "fits_but_health r" and bad: "r_health r = RH_UNKNOWN"
  shows "refuses (WriteResource r) ReadResource"
proof -
  have "\<exists>bs. emit (drop 8 [a1, a2, a3, a4, a5, a6, a7, a8, a9, a10, a11, a12, a13, a14, a15, a16]) = Inr bs"
    if "\<exists>bs. emit [a1, a2, a3, a4, a5, a6, a7, a8, a9, a10, a11, a12, a13, a14, a15, a16] = Inr bs"
    for a1 a2 a3 a4 a5 a6 a7 a8 a9 a10 a11 a12 a13 a14 a15 a16
    using that unfolding emit_defined by simp
  from this [OF write_but_health [OF fit, unfolded WriteResource_def encode_resource_def]]
  obtain tail where tail: "emit [put_U32 (Readiness_value (r_readiness r)), put_U32 (Reachability_value (r_reachability r)),
      encode_capacity persist_long put_extra (r_capacity r), encode_locality persist_long (r_locality r),
      encode_domain persist_long (r_failure_domain r), encode_evidence persist_long (r_evidence r),
      put_vector (encode_capability persist_long) (r_capabilities r),
      put_vector (encode_compatibility persist_long) (r_compatibility r)] = Inr tail"
    by auto
  have health: "refuses (put_U32 (ResourceHealth_value (r_health r)))
      (assign_enum (read_enum ResourceHealth_value ResourceHealth_table ResourceHealth_max) (\<lambda>v res. res\<lparr>r_health := v\<rparr>))"
    by (rule refuses_enum) (simp add: bad read_enum_def ValidEnum_def)
  have "read_enum ResourceClass_value ResourceClass_table ResourceClass_max (ResourceClass_value (r_resource_class r))
      = Some (r_resource_class r)"
    using fit by (simp add: fits_but_health_def resource_fits_def enum_reads)
  then have cls: "codes (put_U32 (ResourceClass_value (r_resource_class r)))
      (assign_enum (read_enum ResourceClass_value ResourceClass_table ResourceClass_max) (\<lambda>v res. res\<lparr>r_resource_class := v\<rparr>))
      (\<lambda>res. res\<lparr>r_resource_class := r_resource_class r\<rparr>)"
    by (rule codes_enum)
  have fits: "length (r_provider r) \<le> 32768" "length (r_authority_owner r) \<le> 32768"
    using fit by (simp_all add: fits_but_health_def resource_fits_def)
  show ?thesis
    unfolding WriteResource_def encode_resource_def ReadResource_def resource_stmts_def
    by (intro refuses_append refuses_later [OF codes_assign [OF gets_U64]] refuses_later [OF codes_assign [OF gets_Str]]
        refuses_later [OF codes_assign [OF gets_bool]] refuses_later [OF cls]
        refuses_here [OF health tail] fits)
qed

lemma load_section_refuses:
  assumes "refuses (emit (map enc as)) (repeat_stmt (length as) body)" "put_vector enc as = Inr bs"
    and "length as \<le> 1048576" "rd_ok r" "unread r = bs @ rest"
  shows "load_section overflow malformed body (x, r) = Inl malformed"
proof -
  let ?n = "word_of_nat (length as) :: u32"
  have n: "unat ?n = length as" "\<not> kMaxCount < ?n"
    using assms(3) short_count [OF assms(3)] by (simp_all add: word_less_nat_alt kMaxCount_eq)
  obtain cs where cs: "emit (map enc as) = Inr cs"
      "\<And>x r rest. rd_ok r \<Longrightarrow> unread r = cs @ rest \<Longrightarrow> \<not> fst (repeat_stmt (length as) body x r)"
    using assms(1) by (auto simp: refuses_def)
  have bs: "bs = PutU32 ?n @ cs" using assms(2) by (simp add: put_vector_def put_U32_def cs(1))
  have "get_U32 r = (?n, advance 4 r)"
    using getsD(1) [OF gets_U32 put_U32_def assms(4), of ?n "cs @ rest"] assms(5) by (simp add: bs)
  moreover have "\<not> fst (repeat_stmt (length as) body x (advance 4 r))"
    by (rule cs(2) [of _ rest]) (simp_all add: assms(4,5) bs)
  ultimately show ?thesis by (auto simp: load_section_def n split: prod.split)
qed

lemma resources_refused:
  assumes fit: "\<forall>r \<in> set rs. fits_but_health r" and bad: "\<exists>r \<in> set rs. r_health r = RH_UNKNOWN"
  shows "refuses (emit (map WriteResource rs))
    (repeat_stmt (length rs) (decode_element Resource_default ReadResource (push_back ds_resources_update) :: DurableState stmt))"
proof -
  obtain as d es where rs: "rs = as @ d # es" "r_health d = RH_UNKNOWN" "\<forall>a \<in> set as. r_health a \<noteq> RH_UNKNOWN"
    using split_list_first_prop [of rs "\<lambda>r. r_health r = RH_UNKNOWN"] bad by auto
  let ?body = "decode_element Resource_default ReadResource (push_back ds_resources_update) :: DurableState stmt"
  have "\<exists>u. codes (WriteResource a) ?body u" if a: "a \<in> set as" for a
  proof -
    have "resource_fits (a\<lparr>r_health := RH_HEALTHY\<rparr>)" "r_health a \<noteq> RH_UNKNOWN"
      using a rs fit by (auto simp: fits_but_health_def)
    then have "resource_fits a"
      by (cases "r_health a") (simp_all add: resource_fits_def ValidEnum_def ResourceHealth_max_def)
    from file_resource [OF this] show ?thesis by (blast intro: codes_element)
  qed
  then obtain u where u: "codes (WriteResource a) ?body (u a)" if "a \<in> set as" for a
    using bchoice [of "set as" "\<lambda>a u. codes (WriteResource a) ?body u"] by auto
  have d: "refuses (WriteResource d) ?body"
    using fit rs by (intro refuses_element unknown_health_refused) simp_all
  have "\<forall>e \<in> set (map WriteResource es). \<exists>bs. e = Inr bs"
    using fit rs write_but_health by simp
  then obtain bs where bs: "emit (map WriteResource es) = Inr bs"
    using emit_defined by blast
  show ?thesis unfolding rs(1) using u d bs by (rule refuses_repeat)
qed

text \<open>A whole state whose only defect is the health of its resources.\<close>

definition durable_fits_but_health :: "DurableState \<Rightarrow> bool" where
  "durable_fits_but_health s \<longleftrightarrow>
     length (ds_nodes s) \<le> 1048576 \<and> (\<forall>n \<in> set (ds_nodes s). node_fits n) \<and>
     length (ds_resources s) \<le> 1048576 \<and> (\<forall>r \<in> set (ds_resources s). fits_but_health r) \<and>
     length (ds_policies s) \<le> 1048576 \<and>
     length (ds_compositions s) \<le> 1048576 \<and> (\<forall>c \<in> set (ds_compositions s). composition_fits c)"

lemma put_vector_defined: "\<forall>a \<in> set as. \<exists>bs. enc a = Inr bs \<Longrightarrow> \<exists>bs. put_vector enc as = Inr bs"
  unfolding put_vector_def by (subst emit_defined) (simp add: put_U32_def emit_defined)

lemma unknown_health_image:
  assumes fit: "durable_fits_but_health s" and bad: "\<exists>r \<in> set (ds_resources s). r_health r = RH_UNKNOWN"
  shows "\<exists>buf. save_image s = Inr buf \<and> buf \<noteq> [] \<and> load_image buf = Inl ''malformed resource''"
proof -
  have cn: "codes (put_vector WriteNode (ds_nodes s))
      (for_count (decode_element Node_default ReadNode (push_back ds_nodes_update))) (ds_nodes_update (\<lambda>l. l @ map node_read (ds_nodes s)))"
    using fit by (intro node_file.pushes) (simp_all add: durable_fits_but_health_def updater_def)
  have "\<forall>c \<in> set (ds_compositions s). \<exists>bs. WriteComposition c = Inr bs"
    using fit composition_file.defined by (simp add: durable_fits_but_health_def)
  from put_vector_defined [OF this] codes_Inr [OF cn]
  obtain bn bc where bn: "put_vector WriteNode (ds_nodes s) = Inr bn"
      and bc: "put_vector WriteComposition (ds_compositions s) = Inr bc" by blast
  obtain br where br: "put_vector WriteResource (ds_resources s) = Inr br"
    using fit write_but_health put_vector_defined by (metis durable_fits_but_health_def)
  have "codes (put_vector (\<lambda>(p, g). emit [put_U64 (Value p), put_U64 (gen_Value g)]) (ds_policies s))
      (for_count (assign get_policy (\<lambda>(p, g). ds_policies_update (om_put p g))))
      (ds_policies_update (fold (\<lambda>e. om_put (fst e) (snd e)) (ds_policies s)))"
    using fit by (intro codes_policies) (simp add: durable_fits_but_health_def)
  from codes_Inr [OF this] obtain bp
    where bp: "put_vector (\<lambda>(p, g). emit [put_U64 (Value p), put_U64 (gen_Value g)]) (ds_policies s) = Inr bp" by blast
  define body where "body = PutU32 kMagic @ PutU32 kFormatVersion @ PutU64 (gen_Value (ds_epoch s)) @ bn @ br @ bp @ bc"
  have "save_body s = Inr body" unfolding save_body_def bn br bp bc by (simp add: put_U32_def put_U64_def body_def)
  then have save: "save_image s = Inr (body @ PutU64 (Fnv body))" by (simp add: save_image_def Checksum_eq)
  let ?r = "(MakeReader (body @ PutU64 (Fnv body)))\<lparr>rd_pos := 16\<rparr>"
  have r: "rd_ok ?r" "unread ?r = bn @ br @ bp @ bc @ PutU64 (Fnv body)"
    by (simp_all add: MakeReader_def unread_def body_def)
  have r1: "rd_ok (advance (length bn) ?r)" "unread (advance (length bn) ?r) = br @ bp @ bc @ PutU64 (Fnv body)"
    unfolding unread_advance r(2) by (simp_all add: MakeReader_def)
  have "refuses (emit (map WriteResource (ds_resources s)))
      (repeat_stmt (length (ds_resources s)) (decode_element Resource_default ReadResource (push_back ds_resources_update) :: DurableState stmt))"
    using fit bad by (intro resources_refused) (simp_all add: durable_fits_but_health_def)
  moreover have "length (ds_resources s) \<le> 1048576" using fit by (simp add: durable_fits_but_health_def)
  ultimately have stops: "load_section what ''malformed resource''
      (decode_element Resource_default ReadResource (push_back ds_resources_update)) (x, advance (length bn) ?r)
      = Inl ''malformed resource''" for what and x :: DurableState
    by (rule load_section_refuses [OF _ br _ r1])
  have "load_image (body @ PutU64 (Fnv body)) = Inl ''malformed resource''"
    unfolding image_header [OF refl body_def] load_payload_def load_section_codes [OF cn [unfolded bn] r]
      and_then_def sum.case stops by (rule refl)
  moreover have "body @ PutU64 (Fnv body) \<noteq> []" by (auto dest!: arg_cong [where f = length])
  ultimately show ?thesis using save by blast
qed

lemma death_keeps_fits:
  assumes "durable_fits (durable_state s)"
  shows "durable_fits_but_health (durable_state (MarkEvidenceRevalidationRequired boot s))"
proof -
  have "fits_but_health (mark_revalidation owner r)" if "resource_fits r" for owner r
    using that by (auto simp: fits_but_health_def mark_revalidation_def resource_fits_def evidence_fits_def ValidEnum_def enum_maxima)
  moreover have "composition_fits (active_demote P target c) \<longleftrightarrow> composition_fits c" for P target c
    by (simp add: active_demote_def composition_fits_def)
  ultimately show ?thesis
    using assms by (auto simp: durable_fits_def durable_fits_but_health_def durable_state_def
        MarkEvidenceRevalidationRequired_def Let_def um_map_values_def)
qed



end
