(* ===== verification/Fabric_Ledger.thy ===== *)
theory Fabric_Ledger
  imports Fabric_Reservation
begin

text \<open>
  Exactness and exclusivity of the reservation ledger.  The items of the live reservations
  (\<open>PROVISIONAL\<close> or \<open>COMMITTED\<close>) are collected in a multiset; \<open>ledger_exact\<close> says that the
  ledger holds for every resource exactly the one positive claim there is, or nothing.  Every
  operation is shown to keep it, given that a composition whose reservation is already
  released or rolled back is not released a second time.
\<close>

section \<open>Claims\<close>

definition positive_claim :: "ReservationItem \<Rightarrow> bool" where
  "positive_claim it \<longleftrightarrow> d_gt (it_reserved_amount it) 0"

definition claims :: "ResourceId \<Rightarrow> ReservationItem multiset \<Rightarrow> double multiset" where
  "claims rid M = image_mset it_reserved_amount (filter_mset (\<lambda>it. it_resource it = rid \<and> positive_claim it) M)"

definition ledger_exact :: "Ledger \<Rightarrow> ReservationItem multiset \<Rightarrow> bool" where
  "ledger_exact m M \<longleftrightarrow>
     (\<forall>it \<in># M. d_amount (it_reserved_amount it)) \<and>
     (\<forall>rid. claims rid M = {#} \<and> d_eq (held_amount m rid) 0 \<or> claims rid M = {#held_amount m rid#})"

lemma claims_empty [simp]: "claims rid {#} = {#}"
  by (simp add: claims_def)

lemma claims_add [simp]:
  "claims rid (add_mset it M) =
     (if it_resource it = rid \<and> positive_claim it then add_mset (it_reserved_amount it) (claims rid M) else claims rid M)"
  by (simp add: claims_def)

lemma claims_positive: "x \<in># claims rid M \<Longrightarrow> d_gt x 0"
  by (auto simp: claims_def positive_claim_def)

lemma held_touch [simp]: "held_amount (touch rid m) = held_amount m"
  by (rule ext) (simp add: held_amount_def touch_def split: option.split)

lemma held_hold: "held_amount (hold rid amt m) j = (if j = rid then d_add (held_amount m rid) amt else held_amount m j)"
  by (simp add: held_amount_def hold_def)

lemma held_unhold_other: "j \<noteq> rid \<Longrightarrow> held_amount (unhold rid amt m) j = held_amount m j"
  by (simp add: held_amount_def unhold_def Let_def split: option.split)

lemma ledger_exact_touch: "ledger_exact (touch rid m) M = ledger_exact m M"
  by (simp add: ledger_exact_def)

lemma ledger_exact_empty: "ledger_exact [] {#}"
  by (simp add: ledger_exact_def held_amount_def d_eq_zero_iff)

lemma ledger_exact_amount: "ledger_exact m M \<Longrightarrow> it \<in># M \<Longrightarrow> d_amount (it_reserved_amount it)"
  by (simp add: ledger_exact_def)

lemma ledger_exact_free:
  "ledger_exact m M \<Longrightarrow> \<not> d_gt (held_amount m rid) 0 \<Longrightarrow> claims rid M = {#} \<and> d_eq (held_amount m rid) 0"
proof -
  assume exact: "ledger_exact m M" and free: "\<not> d_gt (held_amount m rid) 0"
  have "claims rid M \<noteq> {#held_amount m rid#}"
  proof
    assume "claims rid M = {#held_amount m rid#}"
    then have "held_amount m rid \<in># claims rid M" by simp
    from claims_positive [OF this] free show False by simp
  qed
  with exact show ?thesis by (auto simp: ledger_exact_def)
qed

section \<open>Holding and giving back\<close>

lemma ledger_exact_hold:
  assumes exact: "ledger_exact m M" and free: "\<not> d_gt (held_amount m (it_resource it)) 0"
    and amt: "d_amount (it_reserved_amount it)"
  shows "ledger_exact (hold (it_resource it) (it_reserved_amount it) m) (add_mset it M)"
proof -
  let ?rid = "it_resource it" and ?amt = "it_reserved_amount it"
  have zero: "claims ?rid M = {#}" "d_eq (held_amount m ?rid) 0" using ledger_exact_free [OF exact free] by auto
  have "claims rid (add_mset it M) = {#} \<and> d_eq (held_amount (hold ?rid ?amt m) rid) 0 \<or>
      claims rid (add_mset it M) = {#held_amount (hold ?rid ?amt m) rid#}" for rid
  proof (cases "rid = ?rid")
    case False
    with exact show ?thesis by (auto simp: ledger_exact_def held_hold)
  next
    case True
    show ?thesis
    proof (cases "positive_claim it")
      case pos: True
      then have "d_add (held_amount m ?rid) ?amt = ?amt"
        using held.add_zero [OF zero(2) amt] by (simp add: positive_claim_def)
      with pos True zero show ?thesis by (simp add: held_hold)
    next
      case False
      then have "d_eq ?amt 0" using held.amount_cases [OF amt] by (simp add: positive_claim_def)
      with False True zero held.add_zeros [OF zero(2)] show ?thesis by (simp add: held_hold)
    qed
  qed
  with exact amt show ?thesis by (simp add: ledger_exact_def)
qed

lemma held_unhold_self: "d_amount (held_amount m rid) \<Longrightarrow> d_eq (held_amount (unhold rid (held_amount m rid) m) rid) 0"
  using held.sub_self [of "held_amount m rid"] held.amount_not_below held.amount_zero
  by (auto simp: unhold_def held_amount_def Let_def held.zero_is_zero split: option.splits)

lemma held_unhold_nothing:
  assumes "d_eq amt 0" "d_amount (held_amount m rid)"
  shows "held_amount (unhold rid amt m) rid = held_amount m rid \<or>
    d_eq (held_amount m rid) 0 \<and> d_eq (held_amount (unhold rid amt m) rid) 0"
proof (cases "map_of m rid")
  case None
  then show ?thesis by (simp add: unhold_def)
next
  case (Some h)
  then have h: "held_amount m rid = h" by (simp add: held_amount_def)
  show ?thesis
  proof (cases "d_gt h 0")
    case True
    have "d_sub h amt = h" by (rule held.sub_zero) (use assms h True in simp_all)
    moreover have "\<not> d_lt h 0" using held.amount_not_below assms(2) h by blast
    moreover have "\<not> d_eq h 0" using held.zero_not_positive True by blast
    ultimately show ?thesis using Some h by (simp add: unhold_def held_amount_def Let_def)
  next
    case False
    then have zero: "d_eq h 0" using held.amount_cases assms(2) h by blast
    have sub: "d_eq (d_sub h amt) 0" by (rule held.sub_zeros [OF zero assms(1)])
    have "\<not> d_lt (d_sub h amt) 0" using held.amount_not_below held.amount_zero sub by blast
    with Some sub zero show ?thesis by (simp add: unhold_def held_amount_def Let_def held.zero_is_zero)
  qed
qed

lemma ledger_exact_held_amount: "ledger_exact m M \<Longrightarrow> d_amount (held_amount m rid)"
proof -
  assume exact: "ledger_exact m M"
  then consider "d_eq (held_amount m rid) 0" | "held_amount m rid \<in># claims rid M"
    by (auto simp: ledger_exact_def) (metis union_single_eq_member)
  then show ?thesis using exact held.amount_zero by cases (auto simp: claims_def ledger_exact_def)
qed

lemma ledger_exact_unhold:
  assumes exact: "ledger_exact m (add_mset it M)"
  shows "ledger_exact (unhold (it_resource it) (it_reserved_amount it) m) M"
proof -
  let ?rid = "it_resource it" and ?amt = "it_reserved_amount it"
  let ?m = "unhold ?rid ?amt m"
  have amt: "d_amount ?amt" using exact by (simp add: ledger_exact_def)
  have here: "claims ?rid M = {#} \<and> d_eq (held_amount ?m ?rid) 0 \<or> claims ?rid M = {#held_amount ?m ?rid#}"
  proof (cases "positive_claim it")
    case True
    then have "claims ?rid M = {#}" "held_amount m ?rid = ?amt"
      using exact unfolding ledger_exact_def by (auto dest!: spec [of _ ?rid])
    with held_unhold_self [of m ?rid] amt show ?thesis by simp
  next
    case False
    then have zero: "d_eq ?amt 0" using held.amount_cases [OF amt] by (simp add: positive_claim_def)
    have "claims ?rid M = {#} \<and> d_eq (held_amount m ?rid) 0 \<or> claims ?rid M = {#held_amount m ?rid#}"
      using exact False unfolding ledger_exact_def by (auto dest!: spec [of _ ?rid])
    moreover have "\<not> d_eq (held_amount m ?rid) 0" if "claims ?rid M = {#held_amount m ?rid#}"
      using claims_positive [of "held_amount m ?rid" ?rid M] that held.zero_not_positive by auto
    ultimately show ?thesis
      using held_unhold_nothing [OF zero ledger_exact_held_amount [OF exact], of ?rid] by metis
  qed
  have "claims rid M = {#} \<and> d_eq (held_amount ?m rid) 0 \<or> claims rid M = {#held_amount ?m rid#}" for rid
  proof (cases "rid = ?rid")
    case True
    with here show ?thesis by simp
  next
    case False
    with exact show ?thesis unfolding ledger_exact_def by (auto simp: held_unhold_other dest!: spec [of _ rid])
  qed
  with exact show ?thesis by (simp add: ledger_exact_def)
qed

lemma ledger_exact_release:
  "ledger_exact m (mset items + M) \<Longrightarrow> ledger_exact (release_items items m) M"
proof (induction items arbitrary: m)
  case (Cons it items)
  then have "ledger_exact (unhold (it_resource it) (it_reserved_amount it) m) (mset items + M)"
    by (intro ledger_exact_unhold) simp
  from Cons.IH [OF this] show ?case by (simp add: release_items_def)
qed (simp add: release_items_def)

text \<open>Two exact ledgers for the same claims cannot be told apart by a reader.\<close>

definition same_holds :: "Ledger \<Rightarrow> Ledger \<Rightarrow> bool" where
  "same_holds m m' \<longleftrightarrow>
     (\<forall>rid. held_amount m rid = held_amount m' rid \<or> d_eq (held_amount m rid) 0 \<and> d_eq (held_amount m' rid) 0)"

lemma ledger_exact_same: "ledger_exact m M \<Longrightarrow> ledger_exact m' M \<Longrightarrow> same_holds m m'"
  unfolding ledger_exact_def same_holds_def by (metis empty_not_add_mset single_eq_single)

section \<open>Reserve and commit\<close>

definition amounts_ok :: "ResourceMap \<Rightarrow> ResourceId list \<Rightarrow> bool" where
  "amounts_ok resources rids \<longleftrightarrow>
     (\<forall>rid \<in> set rids. \<forall>r. map_of resources rid = Some r \<longrightarrow> d_amount (hold_amount r))"

lemma reserve_members_exact:
  assumes "ledger_exact m (mset items + M)" "amounts_ok resources rids"
    and "reserve_members req resources rids m items = (failure, m', items')"
  shows "ledger_exact m' (mset items' + M)"
  using assms
proof (induction rids arbitrary: m items)
  case (Cons rid rids)
  show ?case
  proof (cases rule: reserve_members_cases [where req = req and resources = resources and rid = rid and rids = rids
        and m = m and items = items])
    case stop
    with Cons.prems show ?thesis by (auto simp: ledger_exact_touch)
  next
    case (go r)
    let ?it = "\<lparr>it_resource = rid, it_state = RS_PROVISIONAL, it_reserved_amount = hold_amount r\<rparr>"
    have amt: "d_amount (hold_amount r)" "amounts_ok resources rids"
      using Cons.prems(2) go(1) by (auto simp: amounts_ok_def)
    have "ledger_exact (hold rid (hold_amount r) (touch rid m)) (mset (items @ [?it]) + M)"
      using ledger_exact_hold [of "touch rid m" "mset items + M" ?it] Cons.prems(1) go(3) amt(1)
      by (simp add: ledger_exact_touch)
    from Cons.IH [OF this amt(2)] Cons.prems(3) go(4) show ?thesis by simp
  qed
qed simp

lemma commit_check_held: "held_amount (snd (commit_check req resources items m)) = held_amount m"
  by (rule commit_check_ledger) simp_all

lemma ledger_exact_held: "held_amount m = held_amount m' \<Longrightarrow> ledger_exact m M = ledger_exact m' M"
  by (simp add: ledger_exact_def)

section \<open>Live reservations\<close>

definition live :: "Reservation \<Rightarrow> bool" where
  "live rv \<longleftrightarrow> rv_state rv = RS_PROVISIONAL \<or> rv_state rv = RS_COMMITTED"

definition items_of :: "Reservation \<Rightarrow> ReservationItem multiset" where
  "items_of rv = (if live rv then mset (rv_items rv) else {#})"

definition live_items :: "(ReservationId, Reservation) umap \<Rightarrow> ReservationItem multiset" where
  "live_items m = sum_list (map (\<lambda>(k, rv). items_of rv) m)"

lemma live_items_Nil [simp]: "live_items [] = {#}"
  by (simp add: live_items_def)

lemma live_items_Cons [simp]: "live_items ((k, rv) # m) = items_of rv + live_items m"
  by (simp add: live_items_def)

lemma live_items_new: "map_of m k = None \<Longrightarrow> live_items (um_put k rv m) = items_of rv + live_items m"
  by (induction m) (auto split: if_splits)

lemma live_items_replace:
  "um_ok m \<Longrightarrow> map_of m k = Some rv \<Longrightarrow> live_items (um_put k rv' m) + items_of rv = items_of rv' + live_items m"
proof (induction m)
  case (Cons a m)
  obtain j w where a: "a = (j, w)" by (cases a)
  show ?case
  proof (cases "j = k")
    case True
    with Cons.prems a show ?thesis by simp
  next
    case False
    then have "live_items (um_put k rv' m) + items_of rv = items_of rv' + live_items m"
      using Cons a by (simp add: um_ok_def)
    with False a show ?thesis by (simp add: ac_simps)
  qed
qed simp

lemma live_items_member:
  "map_of m k = Some rv \<Longrightarrow> \<exists>rest. live_items m = items_of rv + rest"
proof (induction m)
  case (Cons a m)
  obtain j w where a: "a = (j, w)" by (cases a)
  show ?case
  proof (cases "j = k")
    case True
    with Cons.prems a show ?thesis by auto
  next
    case False
    with Cons a obtain rest where "live_items m = items_of rv + rest" by auto
    then have "live_items ((j, w) # m) = items_of rv + (items_of w + rest)" by (simp add: ac_simps)
    with a show ?thesis by blast
  qed
qed simp

lemma claims_union [simp]: "claims rid (A + B) = claims rid A + claims rid B"
  by (simp add: claims_def)

lemma claims_relabel:
  "(\<And>it. it_resource (f it) = it_resource it \<and> it_reserved_amount (f it) = it_reserved_amount it) \<Longrightarrow>
     claims rid (image_mset f A) = claims rid A"
  by (induction A) (simp_all add: positive_claim_def)

lemma ledger_exact_relabel:
  assumes f: "\<And>it. it_resource (f it) = it_resource it \<and> it_reserved_amount (f it) = it_reserved_amount it"
  shows "ledger_exact m (image_mset f A + B) = ledger_exact m (A + B)"
proof -
  have "(\<forall>it \<in># image_mset f A. d_amount (it_reserved_amount it)) \<longleftrightarrow> (\<forall>it \<in># A. d_amount (it_reserved_amount it))"
    by (simp add: f)
  then show ?thesis by (simp add: ledger_exact_def claims_relabel [OF f] ball_Un)
qed

section \<open>The ledger invariant\<close>

definition holding_states :: "CompositionLifecycle set" where
  "holding_states = {CL_RESERVED, CL_COMMITTED, CL_ACTIVE, CL_DRAINING, CL_DEGRADED, CL_RECOMPOSITION_REQUIRED}"

definition holders_ok ::
  "(CompositionId, Composition) umap \<Rightarrow> (ReservationId, Reservation) umap \<Rightarrow> bool" where
  "holders_ok comps resvs \<longleftrightarrow>
     (\<forall>k c. map_of comps k = Some c \<longrightarrow>
        (\<exists>rv. map_of resvs (c_reservation c) = Some rv \<and> rv_composition rv = k \<and>
           (c_lifecycle c \<in> holding_states \<longrightarrow> live rv)))"

definition ledger_inv :: "Impl \<Rightarrow> bool" where
  "ledger_inv s \<longleftrightarrow>
     ledger_exact (im_reserved_amount s) (live_items (im_reservations s)) \<and>
     (\<forall>k rv. map_of (im_reservations s) k = Some rv \<longrightarrow> Value k < im_next_resv s) \<and>
     holders_ok (im_compositions s) (im_reservations s)"

lemma ledger_invD:
  assumes "ledger_inv s"
  shows "ledger_exact (im_reserved_amount s) (live_items (im_reservations s))"
    "\<And>k rv. map_of (im_reservations s) k = Some rv \<Longrightarrow> Value k < im_next_resv s"
    "holders_ok (im_compositions s) (im_reservations s)"
  using assms by (auto simp: ledger_inv_def)

lemma ledger_inv_init: "ledger_inv (FabricEngine cfg)"
  by (simp add: ledger_inv_def FabricEngine_def ledger_exact_empty holders_ok_def)

lemma ledger_inv_same:
  assumes "ledger_inv s" "im_reserved_amount s' = im_reserved_amount s" "im_reservations s' = im_reservations s"
    "im_next_resv s' = im_next_resv s" "holders_ok (im_compositions s') (im_reservations s)"
  shows "ledger_inv s'"
  using assms by (simp add: ledger_inv_def)

lemma holders_okD:
  "holders_ok comps resvs \<Longrightarrow> map_of comps k = Some c \<Longrightarrow>
     \<exists>rv. map_of resvs (c_reservation c) = Some rv \<and> rv_composition rv = k \<and> (c_lifecycle c \<in> holding_states \<longrightarrow> live rv)"
  by (simp add: holders_ok_def)

lemma holders_ok_put:
  assumes ok: "holders_ok comps resvs" and c: "map_of comps i = Some c"
    and c': "c_reservation c' = c_reservation c" "c_lifecycle c' \<in> holding_states \<Longrightarrow> c_lifecycle c \<in> holding_states"
  shows "holders_ok (um_put i c' comps) resvs"
  using ok holders_okD [OF ok c] c' unfolding holders_ok_def by (auto simp: update_conv)

lemma holders_ok_update:
  assumes ok: "holders_ok comps resvs" and c: "map_of comps i = Some c"
    and rv: "map_of resvs j = Some rv" "rv_composition rv = i" "rv_composition rv' = i"
    and c': "c_reservation c' = c_reservation c" "c_lifecycle c' \<in> holding_states \<Longrightarrow> c_lifecycle c \<in> holding_states"
    and live': "c_lifecycle c' \<in> holding_states \<Longrightarrow> live rv'"
  shows "holders_ok (um_put i c' comps) (um_put j rv' resvs)"
  unfolding holders_ok_def
proof (intro allI impI)
  fix k d assume k: "map_of (um_put i c' comps) k = Some d"
  show "\<exists>rv. map_of (um_put j rv' resvs) (c_reservation d) = Some rv \<and> rv_composition rv = k \<and>
      (c_lifecycle d \<in> holding_states \<longrightarrow> live rv)"
  proof (cases "k = i")
    case True
    then have "d = c'" using k by (simp add: update_conv)
    with True rv c' live' holders_okD [OF ok c] show ?thesis by (auto simp: update_conv)
  next
    case False
    then have d: "map_of comps k = Some d" using k by (simp add: update_conv)
    from holders_okD [OF ok d] rv False have "c_reservation d \<noteq> j" by auto
    with holders_okD [OF ok d] show ?thesis by (simp add: update_conv)
  qed
qed

lemma holders_ok_new:
  assumes ok: "holders_ok comps resvs" and fresh: "map_of resvs (c_reservation c) = None"
    and rv: "rv_composition rv = i" "live rv"
  shows "holders_ok (um_put i c comps) (um_put (c_reservation c) rv resvs)"
  unfolding holders_ok_def
proof (intro allI impI)
  fix k d assume k: "map_of (um_put i c comps) k = Some d"
  show "\<exists>rv'. map_of (um_put (c_reservation c) rv resvs) (c_reservation d) = Some rv' \<and> rv_composition rv' = k \<and>
      (c_lifecycle d \<in> holding_states \<longrightarrow> live rv')"
  proof (cases "k = i")
    case True
    then have "d = c" using k by (simp add: update_conv)
    with True rv show ?thesis by (simp add: update_conv)
  next
    case False
    then have d: "map_of comps k = Some d" using k by (simp add: update_conv)
    with holders_okD [OF ok d] fresh show ?thesis by (auto simp: update_conv)
  qed
qed

section \<open>Registry operations and planning\<close>

context demotion
begin

lemma table_holders:
  assumes ok: "holders_ok m resvs"
  shows "holders_ok (um_map_values f m) resvs"
  unfolding holders_ok_def
proof (intro allI impI)
  fix k d assume "map_of (um_map_values f m) k = Some d"
  then obtain c where c: "map_of m k = Some c" "d = f c" by auto
  have "c_lifecycle (f c) \<in> holding_states \<Longrightarrow> c_lifecycle c \<in> holding_states"
    using demotes [of c] by (auto simp: demotes_to_def holding_states_def)
  with holders_okD [OF ok c(1)] c(2)
  show "\<exists>rv. map_of resvs (c_reservation d) = Some rv \<and> rv_composition rv = k \<and>
      (c_lifecycle d \<in> holding_states \<longrightarrow> live rv)" by auto
qed

end

lemma ledger_inv_IngestNode [inv_intros]: "ledger_inv s \<Longrightarrow> ledger_inv (IngestNodeLocked n s)"
  using IngestNode_compositions [of n s] generation_demotion.table_holders ledger_invD(3) [of s]
  by (auto intro!: ledger_inv_same [of s])

lemma ledger_inv_IngestResource [inv_intros]: "ledger_inv s \<Longrightarrow> ledger_inv (IngestResourceLocked r s)"
  using IngestResource_compositions [of r s] member_demotion.table_holders ledger_invD(3) [of s]
  by (auto intro!: ledger_inv_same [of s])

lemma ledger_inv_paths [simp]:
  "ledger_inv (s\<lparr>im_paths := x\<rparr>) = ledger_inv s" "ledger_inv (s\<lparr>im_backends := y\<rparr>) = ledger_inv s"
  "ledger_inv (s\<lparr>im_next_comp := z\<rparr>) = ledger_inv s" "ledger_inv (s\<lparr>im_draining := d\<rparr>) = ledger_inv s"
  "ledger_inv (s\<lparr>im_fenced := d\<rparr>) = ledger_inv s"
  by (simp_all add: ledger_inv_def)

lemma ledger_inv_RegisterNode [inv_intros]: "ledger_inv s \<Longrightarrow> ledger_inv (snd (RegisterNode n s))"
  by (simp add: RegisterNode_def ledger_inv_IngestNode)

lemma ledger_inv_RegisterResource [inv_intros]: "ledger_inv s \<Longrightarrow> ledger_inv (snd (RegisterResource r s))"
  by (simp add: RegisterResource_def ledger_inv_IngestResource)

lemma ledger_inv_AddBackend [inv_intros]: "ledger_inv s \<Longrightarrow> ledger_inv (AddBackend b s)"
  by (simp add: AddBackend_def split: option.split)

lemma ledger_inv_Discover [inv_intros]: "ledger_inv s \<Longrightarrow> ledger_inv (snd (Discover s))"
  by (erule Discover_keeps [where P = ledger_inv, rotated 3])
    (simp_all add: ledger_inv_IngestNode ledger_inv_IngestResource)

lemma ledger_inv_InvalidateNode [inv_intros]: "ledger_inv s \<Longrightarrow> ledger_inv (InvalidateNode rid s)"
  by (simp add: InvalidateNode_def ledger_inv_def split: option.split)

lemma ledger_inv_WithdrawResource [inv_intros]: "ledger_inv s \<Longrightarrow> ledger_inv (WithdrawResource rid s)"
  by (simp add: WithdrawResource_def ledger_inv_def recompose_demotion.table_holders split: option.split)

lemma ledger_inv_MarkEvidence [inv_intros]:
  "ledger_inv s \<Longrightarrow> ledger_inv (MarkEvidenceRevalidationRequired owner s)"
  by (simp add: MarkEvidenceRevalidationRequired_def ledger_inv_def Let_def recompose_demotion.table_holders)

lemma ledger_inv_AdvanceEpoch [inv_intros]: "ledger_inv s \<Longrightarrow> ledger_inv (AdvanceEpoch e s)"
  by (simp add: AdvanceEpoch_def ledger_inv_def revalidate_demotion.table_holders)

lemma ledger_inv_OnPolicyUpdate [inv_intros]: "ledger_inv s \<Longrightarrow> ledger_inv (OnPolicyUpdate policy gen s)"
  by (simp add: OnPolicyUpdate_def ledger_inv_def policy_demotion.table_holders)

lemma ledger_inv_OnPathUpdate [inv_intros]: "ledger_inv s \<Longrightarrow> ledger_inv (OnPathUpdate pe s)"
  by (simp add: OnPathUpdate_def ledger_inv_def recompose_demotion.table_holders)

lemma ledger_inv_OnResourceFailure [inv_intros]: "ledger_inv s \<Longrightarrow> ledger_inv (OnResourceFailure rid s)"
  by (simp add: OnResourceFailure_def ledger_inv_def Let_def failure_demotion.table_holders split: option.split)

lemma ledger_inv_Compose [inv_intros]:
  assumes ok: "keys_ok s" and inv: "ledger_inv s"
  shows "ledger_inv (snd (ComposeDeterministic req seed s))"
  using keys_okD(1) [OF ok]
  by (cases rule: ComposeDeterministic_cases [of s req seed]) (use inv in simp_all)

section \<open>Reserve, commit, drain and release\<close>

text \<open>The counter of reservation ids has not wrapped.\<close>

definition counter_ok :: "Impl \<Rightarrow> bool" where
  "counter_ok s \<longleftrightarrow> im_next_resv s + 1 \<noteq> 0"

lemma counter_self: "counter_ok s \<Longrightarrow> im_next_resv s < im_next_resv s + 1"
  using unatSuc [of "im_next_resv s"] by (simp add: counter_ok_def word_less_nat_alt add.commute)

lemma counter_step: "counter_ok s \<Longrightarrow> Value k < im_next_resv s \<Longrightarrow> Value k < im_next_resv s + 1"
  using counter_self less_trans by blast

lemma ledger_inv_Reserve [inv_intros]:
  assumes inv: "ledger_inv s" and cnt: "counter_ok s" and amt: "amounts_ok (im_resources s) (g_vertices (pl_graph plan))"
  shows "ledger_inv (snd (Reserve plan s))"
proof -
  note fresh = ledger_invD(2) [OF inv] and hold = ledger_invD(3) [OF inv]
  have exact: "ledger_exact m (mset items + live_items (im_reservations s))"
    if "reserve_members (pl_request plan) (im_resources s) (g_vertices (pl_graph plan)) (im_reserved_amount s) [] = (f, m, items)"
    for f m items
    by (rule reserve_members_exact [OF _ amt that]) (simp add: ledger_invD(1) [OF inv])
  show ?thesis
  proof (cases rule: Reserve_cases [where plan = plan and s = s])
    case refused
    with inv show ?thesis by simp
  next
    case (failed reason msg m items)
    from exact [OF failed(1)] have "ledger_exact (release_items items m) (live_items (im_reservations s))"
      by (rule ledger_exact_release)
    then show ?thesis using failed(2) hold counter_step [OF cnt] fresh by (auto simp: ledger_inv_def)
  next
    case (reserved m items)
    let ?k = "StrongId (im_next_resv s) :: ReservationId" and ?rv = "new_reservation plan s items"
    have new: "map_of (im_reservations s) ?k = None"
      using fresh [of ?k] by (cases "map_of (im_reservations s) ?k") auto
    have lv: "live ?rv" "items_of ?rv = mset items" by (simp_all add: live_def items_of_def new_reservation_def)
    have "holders_ok (um_put (pl_id plan) (reserved_composition plan s) (im_compositions s))
        (um_put (c_reservation (reserved_composition plan s)) ?rv (im_reservations s))"
      by (rule holders_ok_new [OF hold]) (use new lv in \<open>simp_all add: reserved_composition_def new_reservation_def\<close>)
    moreover have "Value k < im_next_resv s + 1" if "map_of (um_put ?k ?rv (im_reservations s)) k = Some rv" for k rv
      using that fresh counter_step [OF cnt] counter_self [OF cnt] by (auto simp: update_conv split: if_splits)
    ultimately show ?thesis
      using reserved(4) exact [OF reserved(3)] live_items_new [OF new, of ?rv] lv
      by (simp add: ledger_inv_def reserved_composition_def)
  qed
qed

lemma ledger_inv_retire:
  assumes ok: "keys_ok s" and inv: "ledger_inv s"
    and rv: "map_of (im_reservations s) j = Some rv" "live rv" "\<not> live rv'" "rv_composition rv' = rv_composition rv"
    and c: "map_of (im_compositions s) (rv_composition rv) = Some c" "c_reservation c' = c_reservation c"
      "c_lifecycle c' \<notin> holding_states"
    and led: "held_amount m = held_amount (im_reserved_amount s)"
    and s': "im_reserved_amount s' = release_items (rv_items rv) m" "im_reservations s' = um_put j rv' (im_reservations s)"
      "im_next_resv s' = im_next_resv s" "im_compositions s' = um_put (rv_composition rv) c' (im_compositions s)"
  shows "ledger_inv s'"
proof -
  have um: "um_ok (im_reservations s)" using keys_okD(4) [OF ok] by (simp add: keyed_def)
  have items: "items_of rv = mset (rv_items rv)" "items_of rv' = {#}" using rv by (simp_all add: items_of_def)
  have "mset (rv_items rv) + live_items (um_put j rv' (im_reservations s)) = live_items (im_reservations s)"
    using live_items_replace [OF um rv(1), of rv'] items by (simp add: ac_simps)
  then have "ledger_exact m (mset (rv_items rv) + live_items (um_put j rv' (im_reservations s)))"
    using ledger_invD(1) [OF inv] ledger_exact_held [OF led] by simp
  then have "ledger_exact (im_reserved_amount s') (live_items (im_reservations s'))"
    unfolding s'(1,2) by (rule ledger_exact_release)
  moreover have "holders_ok (im_compositions s') (im_reservations s')"
    unfolding s'(2,4) by (rule holders_ok_update [OF ledger_invD(3) [OF inv] c(1) rv(1)]) (use rv c in simp_all)
  moreover have "Value k < im_next_resv s'" if "map_of (im_reservations s') k = Some w" for k w
    using that ledger_invD(2) [OF inv] rv(1) unfolding s'(2,3) by (auto simp: update_conv split: if_splits)
  ultimately show ?thesis by (simp add: ledger_inv_def)
qed

lemma ledger_inv_Commit [inv_intros]:
  assumes ok: "keys_ok s" and inv: "ledger_inv s"
  shows "ledger_inv (snd (Commit resIn s))"
proof (cases rule: Commit_cases [where resIn = resIn and s = s])
  case refused
  with inv show ?thesis by simp
next
  case (rollback resv cn reason m)
  have "held_amount m = held_amount (im_reserved_amount s)"
    using commit_check_held [of "c_request cn" "im_resources s" "rv_items resv" "im_reserved_amount s"] rollback(5) by simp
  then show ?thesis
    by (intro ledger_inv_retire [OF ok inv rollback(1), where c = cn and m = m and rv' = "resv\<lparr>rv_state := RS_ROLLED_BACK\<rparr>"
          and c' = "cn\<lparr>c_lifecycle := CL_REVALIDATION_REQUIRED, c_outcome := CO_FAILED\<rparr>"])
      (simp_all add: rollback live_def holding_states_def)
next
  case (committed resv cn m)
  let ?rv = "resv\<lparr>rv_items := map (\<lambda>it. it\<lparr>it_state := RS_COMMITTED\<rparr>) (rv_items resv), rv_state := RS_COMMITTED\<rparr>"
  have led: "held_amount m = held_amount (im_reserved_amount s)"
    using commit_check_held [of "c_request cn" "im_resources s" "rv_items resv" "im_reserved_amount s"] committed(5) by simp
  have um: "um_ok (im_reservations s)" using keys_okD(4) [OF ok] by (simp add: keyed_def)
  have items: "items_of resv = mset (rv_items resv)"
      "items_of ?rv = image_mset (\<lambda>it. it\<lparr>it_state := RS_COMMITTED\<rparr>) (mset (rv_items resv))"
    using committed(2) by (simp_all add: items_of_def live_def)
  obtain rest where rest: "live_items (im_reservations s) = mset (rv_items resv) + rest"
    using live_items_member [OF committed(1)] items by auto
  have "live_items (um_put (rv_id resIn) ?rv (im_reservations s)) + mset (rv_items resv) =
      items_of ?rv + rest + mset (rv_items resv)"
    using live_items_replace [OF um committed(1), of ?rv] rest items(1) by (simp add: ac_simps)
  then have "live_items (um_put (rv_id resIn) ?rv (im_reservations s)) = items_of ?rv + rest" by simp
  then have "ledger_exact m (live_items (um_put (rv_id resIn) ?rv (im_reservations s)))"
    using ledger_invD(1) [OF inv] rest ledger_exact_held [OF led] ledger_exact_relabel by (simp add: items)
  moreover have "holders_ok (um_put (rv_composition resv) (cn\<lparr>c_lifecycle := CL_COMMITTED\<rparr>) (im_compositions s))
      (um_put (rv_id resIn) ?rv (im_reservations s))"
    by (rule holders_ok_update [OF ledger_invD(3) [OF inv] committed(3,1)])
      (simp_all add: committed live_def holding_states_def)
  moreover have "Value k < im_next_resv s" if "map_of (um_put (rv_id resIn) ?rv (im_reservations s)) k = Some w" for k w
    using that ledger_invD(2) [OF inv] committed(1) by (auto simp: update_conv split: if_splits)
  ultimately show ?thesis by (simp add: committed(6) ledger_inv_def)
qed

lemma ledger_inv_Activate [inv_intros]:
  assumes inv: "ledger_inv s"
  shows "ledger_inv (snd (Activate i s))"
proof (cases rule: Activate_cases [where i = i and s = s])
  case refused
  with inv show ?thesis by simp
next
  case (stale cn reasons ns)
  show ?thesis
    by (rule ledger_inv_same [OF inv])
      (use stale holders_ok_put [OF ledger_invD(3) [OF inv] stale(1)] in \<open>simp_all add: holding_states_def\<close>)
next
  case (activated cn)
  show ?thesis
    by (rule ledger_inv_same [OF inv])
      (use activated holders_ok_put [OF ledger_invD(3) [OF inv] activated(1)] in \<open>simp_all add: holding_states_def\<close>)
qed

lemma ledger_inv_BeginDrain [inv_intros]:
  assumes inv: "ledger_inv s"
  shows "ledger_inv (snd (BeginDrain i s))"
proof (cases "map_of (im_compositions s) i")
  case None
  with inv show ?thesis by (simp add: BeginDrain_def)
next
  case (Some c)
  show ?thesis
  proof (cases "fst (BeginDrain i s)")
    case False
    with inv Some show ?thesis by (auto simp: BeginDrain_def split: if_splits)
  next
    case True
    then have "c_lifecycle c \<in> holding_states" using Some by (auto simp: BeginDrain_def holding_states_def split: if_splits)
    then have "holders_ok (um_put i (c\<lparr>c_lifecycle := CL_DRAINING\<rparr>) (im_compositions s)) (im_reservations s)"
      by (intro holders_ok_put [OF ledger_invD(3) [OF inv] Some]) simp_all
    with inv Some show ?thesis by (auto simp: BeginDrain_def ledger_inv_def)
  qed
qed

text \<open>A composition may be released when what it reserved is still held.\<close>

definition releasable :: "CompositionId \<Rightarrow> Impl \<Rightarrow> bool" where
  "releasable i s \<longleftrightarrow>
     (case map_of (im_compositions s) i of
        None \<Rightarrow> True
      | Some c \<Rightarrow> (case map_of (im_reservations s) (c_reservation c) of None \<Rightarrow> True | Some rv \<Rightarrow> live rv))"

lemma ledger_inv_set_released:
  assumes ok: "keys_ok s" and inv: "ledger_inv s" and c: "map_of (im_compositions s) i = Some c" and rel: "releasable i s"
  shows "ledger_inv (set_released i c (release_reservation (c_reservation c) s))"
proof -
  from holders_okD [OF ledger_invD(3) [OF inv] c] obtain rv where
    rv: "map_of (im_reservations s) (c_reservation c) = Some rv" "rv_composition rv = i" by blast
  with rel c have lv: "live rv" by (simp add: releasable_def)
  show ?thesis
    by (rule ledger_inv_retire [OF ok inv rv(1) lv, where m = "im_reserved_amount s" and c = c
          and rv' = "rv\<lparr>rv_state := RS_RELEASED\<rparr>" and c' = "c\<lparr>c_lifecycle := CL_RELEASED\<rparr>"])
      (use c rv in \<open>simp_all add: live_def holding_states_def release_reservation_def\<close>)
qed

lemma ledger_inv_Release [inv_intros]:
  "keys_ok s \<Longrightarrow> ledger_inv s \<Longrightarrow> releasable i s \<Longrightarrow> ledger_inv (snd (Release i s))"
  by (simp add: Release_def ledger_inv_set_released split: option.split)

lemma ledger_inv_recompute_release [inv_intros]:
  "keys_ok s \<Longrightarrow> ledger_inv s \<Longrightarrow> releasable i s \<Longrightarrow> ledger_inv (recompute_release i s)"
  by (simp add: recompute_release_def ledger_inv_set_released split: option.split)

lemma draining_releasable:
  assumes inv: "ledger_inv s" and c: "map_of (im_compositions s) i = Some c" "c_lifecycle c \<in> holding_states"
  shows "releasable i s"
  using holders_okD [OF ledger_invD(3) [OF inv] c(1)] c by (auto simp: releasable_def)

lemma ledger_inv_EndDrain [inv_intros]:
  assumes ok: "keys_ok s" and inv: "ledger_inv s"
  shows "ledger_inv (snd (EndDrain i s))"
  using ledger_inv_set_released [OF ok inv] draining_releasable [OF inv, of i] inv
  by (auto simp: EndDrain_def holding_states_def split: option.split)

section \<open>Exclusivity\<close>

lemma claims_mem: "it \<in># M \<Longrightarrow> positive_claim it \<Longrightarrow> it_reserved_amount it \<in># claims (it_resource it) M"
  by (auto simp: claims_def)

lemma ledger_exact_at_most_one:
  assumes "ledger_exact m (add_mset it (add_mset it' M))" "it_resource it = it_resource it'"
    "positive_claim it" "positive_claim it'"
  shows False
  using assms by (auto simp: ledger_exact_def dest!: spec [of _ "it_resource it"])

lemma live_items_two:
  assumes "um_ok m" "map_of m k = Some rv" "map_of m k' = Some rv'" "k \<noteq> k'"
  shows "\<exists>rest. live_items m = items_of rv + (items_of rv' + rest)"
proof -
  let ?dead = "rv\<lparr>rv_state := RS_RELEASED\<rparr>"
  have dead: "items_of ?dead = {#}" by (simp add: items_of_def live_def)
  have split: "live_items m = items_of rv + live_items (um_put k ?dead m)"
    using live_items_replace [OF assms(1,2), of ?dead] dead by (simp add: ac_simps)
  have "map_of (um_put k ?dead m) k' = Some rv'" using assms(3,4) by (simp add: update_conv)
  from live_items_member [OF this] split show ?thesis by auto
qed

lemma ledger_exclusive:
  assumes ok: "keys_ok s" and inv: "ledger_inv s"
    and rv: "map_of (im_reservations s) k = Some rv" "live rv" "it \<in> set (rv_items rv)" "positive_claim it"
    and rv': "map_of (im_reservations s) k' = Some rv'" "live rv'" "it' \<in> set (rv_items rv')" "positive_claim it'"
    and same: "it_resource it = it_resource it'"
  shows "k = k'"
proof (rule ccontr)
  assume "k \<noteq> k'"
  have "um_ok (im_reservations s)" using keys_okD(4) [OF ok] by (simp add: keyed_def)
  from live_items_two [OF this rv(1) rv'(1) \<open>k \<noteq> k'\<close>] obtain rest where
    "live_items (im_reservations s) = items_of rv + (items_of rv' + rest)" by blast
  moreover obtain A where "items_of rv = add_mset it A" using rv
    by (metis items_of_def mset_add set_mset_mset)
  moreover obtain B where "items_of rv' = add_mset it' B" using rv'
    by (metis items_of_def mset_add set_mset_mset)
  ultimately have "live_items (im_reservations s) = add_mset it (add_mset it' (A + B + rest))" by (simp add: ac_simps)
  with ledger_invD(1) [OF inv] ledger_exact_at_most_one rv(4) rv'(4) same show False by metis
qed

lemma ledger_held_iff:
  assumes inv: "ledger_inv s"
  shows "d_gt (held_amount (im_reserved_amount s) rid) 0 \<longleftrightarrow>
    (\<exists>it \<in># live_items (im_reservations s). it_resource it = rid \<and> positive_claim it)"
proof
  assume "d_gt (held_amount (im_reserved_amount s) rid) 0"
  then have "claims rid (live_items (im_reservations s)) \<noteq> {#}"
    using ledger_invD(1) [OF inv] held.zero_not_positive [of "held_amount (im_reserved_amount s) rid"]
    by (auto simp: ledger_exact_def dest!: spec [of _ rid])
  then obtain x where "x \<in># claims rid (live_items (im_reservations s))" by (rule multiset_nonemptyE)
  then show "\<exists>it \<in># live_items (im_reservations s). it_resource it = rid \<and> positive_claim it"
    by (auto simp: claims_def)
next
  assume "\<exists>it \<in># live_items (im_reservations s). it_resource it = rid \<and> positive_claim it"
  then obtain it where "it \<in># live_items (im_reservations s)" "it_resource it = rid" "positive_claim it" by blast
  then have "claims rid (live_items (im_reservations s)) \<noteq> {#}" using claims_mem by fastforce
  with ledger_exact_free [OF ledger_invD(1) [OF inv], of rid] show
    "d_gt (held_amount (im_reserved_amount s) rid) 0" by blast
qed

section \<open>Correctness of reserve, commit, drain and release\<close>

definition reserved_item :: "ResourceId \<Rightarrow> Resource \<Rightarrow> ReservationItem" where
  "reserved_item rid r = \<lparr>it_resource = rid, it_state = RS_PROVISIONAL, it_reserved_amount = hold_amount r\<rparr>"

lemma reserve_members_success:
  assumes "reserve_members req resources rids m items = (None, m', items')"
  shows "\<exists>members. map (map_of resources) rids = map Some members \<and> (\<forall>r \<in> set members. eligible r req) \<and>
    (\<forall>rid \<in> set rids. \<not> d_gt (held_amount m rid) 0) \<and> items' = items @ map2 reserved_item rids members"
  using assms
proof (induction rids arbitrary: m items)
  case (Cons rid rids)
  show ?case
  proof (cases rule: reserve_members_cases [where req = req and resources = resources and rid = rid and rids = rids
        and m = m and items = items])
    case stop
    with Cons.prems show ?thesis by simp
  next
    case (go r)
    let ?m = "hold rid (hold_amount r) (touch rid m)"
    from go(4) Cons.prems have "reserve_members req resources rids ?m (items @ [reserved_item rid r]) = (None, m', items')"
      by (simp add: reserved_item_def)
    from Cons.IH [OF this] obtain members where tail: "map (map_of resources) rids = map Some members"
      "\<forall>r \<in> set members. eligible r req" "\<forall>j \<in> set rids. \<not> d_gt (held_amount ?m j) 0"
      "items' = (items @ [reserved_item rid r]) @ map2 reserved_item rids members" by blast
    have free: "\<not> d_gt (held_amount m rid) 0" using go(3) by simp
    have "\<not> d_gt (held_amount m j) 0" if "j \<in> set rids" for j
      using that tail(3) free by (cases "j = rid") (auto simp: held_hold)
    with free tail go(1,2) show ?thesis by (intro exI [of _ "r # members"]) simp
  qed
qed simp

text \<open>What a successful reservation records.\<close>

definition reserved_exactly :: "CompositionPlan \<Rightarrow> Impl \<Rightarrow> Resource list \<Rightarrow> Reservation \<Rightarrow> Impl \<Rightarrow> bool" where
  "reserved_exactly plan s members rv s' \<longleftrightarrow>
     map (map_of (im_resources s)) (g_vertices (pl_graph plan)) = map Some members \<and>
     (\<forall>r \<in> set members. eligible_spec r (pl_request plan)) \<and>
     (\<forall>rid \<in> set (g_vertices (pl_graph plan)). \<not> d_gt (held_amount (im_reserved_amount s) rid) 0) \<and>
     rv_state rv = RS_PROVISIONAL \<and> rv_composition rv = pl_id plan \<and>
     rv_items rv = map2 reserved_item (g_vertices (pl_graph plan)) members \<and>
     map_of (im_reservations s') (rv_id rv) = Some rv \<and>
     map_of (im_compositions s') (pl_id plan) = Some (reserved_composition plan s) \<and>
     c_reservation (reserved_composition plan s) = rv_id rv"




text \<open>The second member of this plan does not exist, so the hold on the first is undone.\<close>

definition ex_broken_plan :: CompositionPlan where
  "ex_broken_plan = ex_plan\<lparr>pl_graph := \<lparr>g_vertices = [StrongId 1, StrongId 99], g_edges = []\<rparr>\<rparr>"

lemma ex_registry_inv: "keys_ok ex_registry" "ledger_inv ex_registry"
  by (simp_all add: ex_registry_def inv_intros keys_ok_init ledger_inv_init)

lemma ex_registry_resources: "im_resources ex_registry = [(StrongId 1, ex_resource 1 RC_COMPUTE)]"
  by code_simp

lemma ex_amount: "d_amount (hold_amount (ex_resource 1 RC_COMPUTE))"
  by code_simp

lemma ex_amounts_ok: "amounts_ok (im_resources ex_registry) rids"
  by (simp add: amounts_ok_def ex_registry_resources ex_amount del: hold_amount.simps)


definition still_held :: "Composition \<Rightarrow> Reservation \<Rightarrow> Impl \<Rightarrow> bool" where
  "still_held c rv s \<longleftrightarrow>
     (\<forall>it \<in> set (rv_items rv). (case map_of (im_resources s) (it_resource it) of None \<Rightarrow> False | Some r \<Rightarrow> eligible_spec r (c_request c)) \<and>
        \<not> d_lt (held_amount (im_reserved_amount s) (it_resource it)) (it_reserved_amount it))"

lemma commit_check_exact:
  "fst (commit_check req resources items m) = None \<longleftrightarrow>
     (\<forall>it \<in> set items. (case map_of resources (it_resource it) of None \<Rightarrow> False | Some r \<Rightarrow> eligible_spec r req) \<and>
        \<not> d_lt (held_amount m (it_resource it)) (it_reserved_amount it))"
proof (induction items arbitrary: m)
  case (Cons it items)
  then show ?case by (auto simp: Let_def eligible_iff [symmetric] split: option.split prod.split)
qed simp


definition ex_reserved :: Impl where
  "ex_reserved = snd (Reserve ex_plan ex_registry)"

definition ex_reservation :: Reservation where
  "ex_reservation = re_reservation (fst (Reserve ex_plan ex_registry))"

lemma ex_reserved_tables:
  "map_of (im_reservations ex_reserved) (rv_id ex_reservation) = Some ex_reservation"
  "rv_state ex_reservation = RS_PROVISIONAL" "rv_composition ex_reservation = StrongId 1"
  "map_of (im_compositions ex_reserved) (StrongId 1) = Some (reserved_composition ex_plan ex_registry)"
  "c_lifecycle (reserved_composition ex_plan ex_registry) = CL_RESERVED"
  by code_simp+


lemma released_zero:
  assumes exact: "ledger_exact m (mset items + M)" and it: "it \<in> set items" "positive_claim it"
  shows "d_eq (held_amount (release_items items m) (it_resource it)) 0"
proof -
  let ?rid = "it_resource it"
  have "it_reserved_amount it \<in># claims ?rid (mset items)" using it by (intro claims_mem) simp_all
  then obtain A where "claims ?rid (mset items) = add_mset (it_reserved_amount it) A" by (meson multi_member_split)
  then have "claims ?rid M = {#}"
    using exact by (auto simp: ledger_exact_def dest!: spec [of _ ?rid])
  with ledger_exact_release [OF exact] show ?thesis by (auto simp: ledger_exact_def dest!: spec [of _ ?rid])
qed

lemma live_exact:
  assumes "keys_ok s" "ledger_inv s" "map_of (im_reservations s) j = Some rv" "live rv"
  shows "\<exists>M. ledger_exact (im_reserved_amount s) (mset (rv_items rv) + M)"
  using live_items_member [OF assms(3)] ledger_invD(1) [OF assms(2)] assms(4) by (auto simp: items_of_def)

definition given_back :: "Reservation \<Rightarrow> Impl \<Rightarrow> bool" where
  "given_back rv s \<longleftrightarrow>
     (\<forall>it \<in> set (rv_items rv). positive_claim it \<longrightarrow> d_eq (held_amount (im_reserved_amount s) (it_resource it)) 0)"

lemma release_given_back:
  assumes "keys_ok s" "ledger_inv s" "map_of (im_reservations s) j = Some rv" "live rv"
    and led: "held_amount m = held_amount (im_reserved_amount s)" and s': "im_reserved_amount s' = release_items (rv_items rv) m"
  shows "given_back rv s'"
proof -
  obtain M where "ledger_exact m (mset (rv_items rv) + M)"
    using live_exact [OF assms(1-4)] ledger_exact_held [OF led] by blast
  from released_zero [OF this] show ?thesis by (simp add: given_back_def s')
qed


lemma ex_reserved_inv: "keys_ok ex_reserved" "ledger_inv ex_reserved"
proof -
  show "keys_ok ex_reserved" by (simp add: ex_reserved_def inv_intros ex_registry_inv)
  have "counter_ok ex_registry" by code_simp
  then show "ledger_inv ex_reserved"
    unfolding ex_reserved_def by (rule ledger_inv_Reserve [OF ex_registry_inv(2) _ ex_amounts_ok])
qed


text \<open>
  Ending the drain of a draining composition always succeeds, gives back every hold of
  its reservation, and leaves composition and reservation released.
\<close>

theorem drain_gives_back:
  assumes "keys_ok s" "ledger_inv s" "map_of (im_compositions s) i = Some c" "c_lifecycle c = CL_DRAINING"
  shows "\<exists>rv. map_of (im_reservations s) (c_reservation c) = Some rv \<and> fst (EndDrain i s) \<and>
    given_back rv (snd (EndDrain i s)) \<and>
    map_of (im_compositions (snd (EndDrain i s))) i = Some (c\<lparr>c_lifecycle := CL_RELEASED\<rparr>) \<and>
    map_of (im_reservations (snd (EndDrain i s))) (c_reservation c) = Some (rv\<lparr>rv_state := RS_RELEASED\<rparr>)"
proof -
  obtain rv where rv: "map_of (im_reservations s) (c_reservation c) = Some rv" "live rv"
    using holders_okD [OF ledger_invD(3) [OF assms(2)] assms(3)] assms(4) by (auto simp: holding_states_def)
  have run: "EndDrain i s = (True, (set_released i c (release_reservation (c_reservation c) s))\<lparr>im_draining := im_draining s - {i}\<rparr>)"
    using assms(3,4) by (simp add: EndDrain_def)
  have "given_back rv (snd (EndDrain i s))"
    by (rule release_given_back [OF assms(1,2) rv, of "im_reserved_amount s"]) (simp_all add: run release_reservation_def rv)
  with rv run show ?thesis by (auto simp: release_reservation_def update_conv)
qed

definition ex_draining :: Impl where
  "ex_draining = snd (BeginDrain (StrongId 1) (snd (Commit ex_reservation ex_reserved)))"

lemma ex_draining_inv: "keys_ok ex_draining" "ledger_inv ex_draining"
  by (simp_all add: ex_draining_def inv_intros ex_reserved_inv)

theorem drain_gives_back_witness:
  "\<exists>c rv. map_of (im_compositions ex_draining) (StrongId 1) = Some c \<and> fst (EndDrain (StrongId 1) ex_draining) \<and>
     given_back rv (snd (EndDrain (StrongId 1) ex_draining))"
proof -
  have "map_option c_lifecycle (map_of (im_compositions ex_draining) (StrongId 1)) = Some CL_DRAINING" by code_simp
  then obtain c where "map_of (im_compositions ex_draining) (StrongId 1) = Some c" "c_lifecycle c = CL_DRAINING" by auto
  with drain_gives_back [OF ex_draining_inv this] show ?thesis by blast
qed


definition reload_safe :: "DurableState \<Rightarrow> Impl \<Rightarrow> bool" where
  "reload_safe state s \<longleftrightarrow>
     im_epoch s = ds_epoch state \<and> im_reservations s = [] \<and>
     (\<forall>k c. map_of (im_compositions s) k = Some c \<longrightarrow> c_lifecycle c \<notin> {CL_ACTIVE, CL_COMMITTED} \<and>
        c_outcome c = CO_OUTCOME_UNKNOWN) \<and>
     (\<forall>k r req. map_of (im_resources s) k = Some r \<and> \<not> ev_durable (r_evidence r) \<longrightarrow> \<not> eligible r req)"

text \<open>
  Loading a durable state never restores authority: afterwards nothing is active or
  committed, every outcome is unknown, and resources without durable evidence are ineligible.
\<close>

theorem load_restores_no_authority: "reload_safe state (snd (Load (Inr state) s))"
proof -
  have "\<not> eligible r req"
    if "map_of (im_resources (snd (Load (Inr state) s))) k = Some r" "\<not> ev_durable (r_evidence r)" for k r req
    using that by (intro not_current_ineligible)
      (auto simp: Load_def Let_def dest!: put_by_id_member dest: expire_evidence_not_current)
  moreover have "c_outcome c = CO_OUTCOME_UNKNOWN"
    if "map_of (im_compositions (snd (Load (Inr state) s))) k = Some c" for k c
    using that by (auto simp: Load_def Let_def reimport_composition_def dest!: put_by_id_member)
  ultimately show ?thesis
    unfolding reload_safe_def using Load_no_active [of state s] by (auto simp: Load_def Let_def)
qed

end
