(* ===== verification/Fabric_Lifecycle.thy ===== *)
theory Fabric_Lifecycle
  imports Fabric_Ledger
begin

text \<open>
  The engine as a state machine.  Every public member function of \<open>FabricEngine\<close> that
  changes state is an event; a function that keeps the mutex throughout is one event, and
  \<open>Recompute\<close>, which drops the mutex between its phases, is the sequence of its phases, so
  that other events may fall between them.  \<open>reachable G\<close> is the set of states some sequence
  of events admitted by the guard \<open>G\<close> leads to, for every configuration and every behaviour
  of the backends.
\<close>

section \<open>Events\<close>

datatype engine_event =
    Ev_AddBackend "Backend option"
  | Ev_BackendsChange "Backend list"
  | Ev_Discover
  | Ev_RegisterNode Node
  | Ev_RegisterResource Resource
  | Ev_InvalidateNode ResourceId
  | Ev_WithdrawResource ResourceId
  | Ev_MarkEvidence WorkerBootId
  | Ev_AdvanceEpoch CoordinatorEpoch
  | Ev_Compose CompositionRequest u64
  | Ev_Reserve CompositionPlan
  | Ev_Commit Reservation
  | Ev_Activate CompositionId
  | Ev_OnResourceUpdate Resource
  | Ev_OnNodeUpdate Node
  | Ev_OnPolicyUpdate PolicyId PolicyGeneration
  | Ev_OnPathUpdate PathEvidence
  | Ev_OnResourceFailure ResourceId
  | Ev_BeginDrain CompositionId
  | Ev_EndDrain CompositionId
  | Ev_Release CompositionId
  | Ev_RecomputeRelease CompositionId
  | Ev_Load "string + DurableState"

fun run_event :: "engine_event \<Rightarrow> Impl \<Rightarrow> Impl" where
  "run_event (Ev_AddBackend b) s = AddBackend b s"
| "run_event (Ev_BackendsChange bs) s = s\<lparr>im_backends := bs\<rparr>"
| "run_event Ev_Discover s = snd (Discover s)"
| "run_event (Ev_RegisterNode n) s = snd (RegisterNode n s)"
| "run_event (Ev_RegisterResource r) s = snd (RegisterResource r s)"
| "run_event (Ev_InvalidateNode rid) s = InvalidateNode rid s"
| "run_event (Ev_WithdrawResource rid) s = WithdrawResource rid s"
| "run_event (Ev_MarkEvidence w) s = MarkEvidenceRevalidationRequired w s"
| "run_event (Ev_AdvanceEpoch e) s = AdvanceEpoch e s"
| "run_event (Ev_Compose req seed) s = snd (ComposeDeterministic req seed s)"
| "run_event (Ev_Reserve plan) s = snd (Reserve plan s)"
| "run_event (Ev_Commit resv) s = snd (Commit resv s)"
| "run_event (Ev_Activate i) s = snd (Activate i s)"
| "run_event (Ev_OnResourceUpdate r) s = OnResourceUpdate r s"
| "run_event (Ev_OnNodeUpdate n) s = OnNodeUpdate n s"
| "run_event (Ev_OnPolicyUpdate p g) s = OnPolicyUpdate p g s"
| "run_event (Ev_OnPathUpdate pe) s = OnPathUpdate pe s"
| "run_event (Ev_OnResourceFailure rid) s = OnResourceFailure rid s"
| "run_event (Ev_BeginDrain i) s = snd (BeginDrain i s)"
| "run_event (Ev_EndDrain i) s = snd (EndDrain i s)"
| "run_event (Ev_Release i) s = snd (Release i s)"
| "run_event (Ev_RecomputeRelease i) s = recompute_release i s"
| "run_event (Ev_Load loaded) s = snd (Load loaded s)"

definition run_events :: "engine_event list \<Rightarrow> Impl \<Rightarrow> Impl" where
  "run_events es s = foldl (\<lambda>s e. run_event e s) s es"

inductive reachable :: "(engine_event \<Rightarrow> Impl \<Rightarrow> bool) \<Rightarrow> Impl \<Rightarrow> bool" for G where
  reachable_init: "reachable G (FabricEngine cfg)"
| reachable_step: "reachable G s \<Longrightarrow> G e s \<Longrightarrow> reachable G (run_event e s)"

text \<open>Any event, with a decoded file whose policy table is a well-formed \<open>std::map\<close>.\<close>

fun any_event :: "engine_event \<Rightarrow> Impl \<Rightarrow> bool" where
  "any_event (Ev_Load loaded) s = durable_ok loaded"
| "any_event _ s = True"

text \<open>
  The discipline under which the ledger is exact: no reload over a live ledger, held amounts
  that are finite and not negative, and no second release of a reservation.
\<close>

fun disciplined :: "engine_event \<Rightarrow> Impl \<Rightarrow> bool" where
  "disciplined (Ev_Load loaded) s = False"
| "disciplined (Ev_Reserve plan) s =
     (counter_ok s \<and> amounts_ok (im_resources s) (g_vertices (pl_graph plan)))"
| "disciplined (Ev_Release i) s = releasable i s"
| "disciplined (Ev_RecomputeRelease i) s = releasable i s"
| "disciplined _ s = True"

section \<open>Invariants of reachable states\<close>

locale engine_invariant =
  fixes guard :: "engine_event \<Rightarrow> Impl \<Rightarrow> bool" and inv :: "Impl \<Rightarrow> bool"
  assumes inv_init: "inv (FabricEngine cfg)"
    and inv_step: "inv s \<Longrightarrow> guard e s \<Longrightarrow> inv (run_event e s)"
begin

lemma always: "reachable guard s \<Longrightarrow> inv s"
  by (induction rule: reachable.induct) (simp_all add: inv_init inv_step)

lemma after: "reachable guard s \<Longrightarrow> guard e s \<Longrightarrow> inv (run_event e s)"
  by (rule inv_step [OF always])

end

lemma keys_ok_backends [simp]: "keys_ok (s\<lparr>im_backends := bs\<rparr>) = keys_ok s"
  by (simp add: keys_ok_def)

lemma authority_inv_backends [simp]: "authority_inv (s\<lparr>im_backends := bs\<rparr>) = authority_inv s"
  by (simp add: authority_inv_def bound_to_def)

lemma keys_ok_step: "keys_ok s \<Longrightarrow> any_event e s \<Longrightarrow> keys_ok (run_event e s)"
  by (cases e) (simp_all add: inv_intros OnResourceUpdate_def OnNodeUpdate_def)

interpretation tables: engine_invariant any_event keys_ok
  by unfold_locales (simp_all add: keys_ok_init keys_ok_step)

interpretation authority: engine_invariant any_event "\<lambda>s. keys_ok s \<and> authority_inv s"
proof unfold_locales
  show "keys_ok (FabricEngine cfg) \<and> authority_inv (FabricEngine cfg)" for cfg
    by (simp add: keys_ok_init authority_inv_init)
  show "keys_ok (run_event e s) \<and> authority_inv (run_event e s)"
    if "keys_ok s \<and> authority_inv s" "any_event e s" for e s
    using that keys_ok_step by (cases e) (simp_all add: inv_intros OnResourceUpdate_def OnNodeUpdate_def)
qed

lemma disciplined_any: "disciplined e s \<Longrightarrow> any_event e s"
  by (cases e) simp_all

interpretation ledger: engine_invariant disciplined "\<lambda>s. keys_ok s \<and> ledger_inv s"
proof unfold_locales
  show "keys_ok (FabricEngine cfg) \<and> ledger_inv (FabricEngine cfg)" for cfg
    by (simp add: keys_ok_init ledger_inv_init)
  show "keys_ok (run_event e s) \<and> ledger_inv (run_event e s)"
    if "keys_ok s \<and> ledger_inv s" "disciplined e s" for e s
    using that keys_ok_step disciplined_any
    by (cases e) (simp_all add: inv_intros OnResourceUpdate_def OnNodeUpdate_def)
qed

lemma disciplined_reachable: "reachable disciplined s \<Longrightarrow> reachable any_event s"
  by (induction rule: reachable.induct) (auto intro: reachable.intros disciplined_any)

section \<open>Recompute as a sequence of events\<close>

definition recompute_events :: "CompositionId \<Rightarrow> Impl \<Rightarrow> engine_event list" where
  "recompute_events i s =
     (case map_of (im_compositions s) i of
        None \<Rightarrow> []
      | Some c \<Rightarrow>
        (let (cr, s1) = ComposeDeterministic (c_request c) 0 s in
         if \<not> compose_ok cr then [Ev_Compose (c_request c) 0]
         else let (rr, s2) = Reserve (cr_plan cr) (recompute_release i s1) in
           [Ev_Compose (c_request c) 0, Ev_RecomputeRelease i, Ev_Reserve (cr_plan cr)] @
           (if \<not> reserve_ok rr then []
            else let (cc, s3) = Commit (re_reservation rr) s2 in
              Ev_Commit (re_reservation rr) #
              (if \<not> commit_ok cc then [] else [Ev_Activate (c_id (cm_composition cc))]))))"

lemma Recompute_run: "snd (Recompute i s) = run_events (recompute_events i s) s"
  by (auto simp: Recompute_def recompute_events_def run_events_def Let_def split: option.split prod.splits)

lemma run_events_reachable:
  "reachable any_event s \<Longrightarrow> (\<And>e s. e \<in> set es \<Longrightarrow> any_event e s) \<Longrightarrow> reachable any_event (run_events es s)"
proof (induction es arbitrary: s)
  case (Cons e es)
  have "reachable any_event (run_event e s)" by (rule reachable_step) (use Cons.prems in simp_all)
  with Cons show ?case by (simp add: run_events_def)
qed (simp add: run_events_def)

lemma Recompute_reachable: "reachable any_event s \<Longrightarrow> reachable any_event (snd (Recompute i s))"
  unfolding Recompute_run
  by (erule run_events_reachable)
    (auto simp: recompute_events_def Let_def split: option.splits prod.splits if_splits)

section \<open>How a composition moves through its lifecycle\<close>

definition lifecycle_step :: "CompositionLifecycle \<Rightarrow> CompositionLifecycle \<Rightarrow> bool" where
  "lifecycle_step l l' \<longleftrightarrow>
     demotes_to l l' \<or>
     l = CL_RESERVED \<and> l' = CL_COMMITTED \<or>
     l = CL_COMMITTED \<and> l' = CL_ACTIVE \<or>
     l \<in> {CL_ACTIVE, CL_COMMITTED, CL_DEGRADED} \<and> l' = CL_DRAINING \<or>
     l' = CL_RELEASED"

type_synonym Compositions = "(CompositionId, Composition) umap"

definition demoted :: "Compositions \<Rightarrow> Compositions \<Rightarrow> bool" where
  "demoted m m' \<longleftrightarrow>
     (\<forall>k c'. map_of m' k = Some c' \<longrightarrow> (\<exists>c. map_of m k = Some c \<and> c' = c\<lparr>c_lifecycle := c_lifecycle c'\<rparr> \<and>
        demotes_to (c_lifecycle c) (c_lifecycle c')))"

definition moves :: "Compositions \<Rightarrow> Compositions \<Rightarrow> bool" where
  "moves m m' \<longleftrightarrow>
     (\<forall>k c'. map_of m' k = Some c' \<longrightarrow> c_lifecycle c' = CL_RESERVED \<or>
        (\<exists>c. map_of m k = Some c \<and> lifecycle_step (c_lifecycle c) (c_lifecycle c')))"

lemma demoted_refl [simp]: "demoted m m"
  by (simp add: demoted_def demotes_to_def)

lemma demotes_to_trans: "demotes_to a b \<Longrightarrow> demotes_to b c \<Longrightarrow> demotes_to a c"
  by (auto simp: demotes_to_def)

lemma demoted_trans: "demoted a b \<Longrightarrow> demoted b c \<Longrightarrow> demoted a c"
  unfolding demoted_def
proof (intro allI impI)
  fix k c' assume ab: "\<forall>k c'. map_of b k = Some c' \<longrightarrow> (\<exists>c. map_of a k = Some c \<and> c' = c\<lparr>c_lifecycle := c_lifecycle c'\<rparr> \<and> demotes_to (c_lifecycle c) (c_lifecycle c'))"
    and bc: "\<forall>k c'. map_of c k = Some c' \<longrightarrow> (\<exists>d. map_of b k = Some d \<and> c' = d\<lparr>c_lifecycle := c_lifecycle c'\<rparr> \<and> demotes_to (c_lifecycle d) (c_lifecycle c'))"
    and k: "map_of c k = Some c'"
  then obtain d where d: "map_of b k = Some d" "c' = d\<lparr>c_lifecycle := c_lifecycle c'\<rparr>" "demotes_to (c_lifecycle d) (c_lifecycle c')" by blast
  with ab obtain e where e: "map_of a k = Some e" "d = e\<lparr>c_lifecycle := c_lifecycle d\<rparr>" "demotes_to (c_lifecycle e) (c_lifecycle d)" by blast
  have "c' = e\<lparr>c_lifecycle := c_lifecycle c'\<rparr>" by (subst d(2), subst e(2)) simp
  with e demotes_to_trans [OF e(3) d(3)] show "\<exists>c. map_of a k = Some c \<and> c' = c\<lparr>c_lifecycle := c_lifecycle c'\<rparr> \<and> demotes_to (c_lifecycle c) (c_lifecycle c')"
    by blast
qed

context demotion
begin

lemma table_demoted: "demoted m (um_map_values f m)"
  unfolding demoted_def using only_lifecycle demotes by auto

end

text \<open>Events that only take authority away.\<close>

fun demoting :: "engine_event \<Rightarrow> bool" where
  "demoting (Ev_Reserve _) = False"
| "demoting (Ev_Commit _) = False"
| "demoting (Ev_Activate _) = False"
| "demoting (Ev_BeginDrain _) = False"
| "demoting (Ev_EndDrain _) = False"
| "demoting (Ev_Release _) = False"
| "demoting (Ev_RecomputeRelease _) = False"
| "demoting (Ev_Load _) = False"
| "demoting _ = True"

lemma demoted_IngestNode: "demoted (im_compositions s) (im_compositions (IngestNodeLocked n s))"
  using IngestNode_compositions [of n s] generation_demotion.table_demoted by auto

lemma demoted_IngestResource: "demoted (im_compositions s) (im_compositions (IngestResourceLocked r s))"
  using IngestResource_compositions [of r s] member_demotion.table_demoted by auto

lemma demoted_Discover: "demoted (im_compositions s) (im_compositions (snd (Discover s)))"
  by (rule Discover_keeps [where P = "\<lambda>t. demoted (im_compositions s) (im_compositions t)"])
    (auto intro: demoted_trans demoted_IngestNode demoted_IngestResource)

lemma demoted_Compose:
  assumes "keys_ok s"
  shows "demoted (im_compositions s) (im_compositions (snd (ComposeDeterministic req seed s)))"
  using keys_okD(1) [OF assms] by (cases rule: ComposeDeterministic_cases [of s req seed]) simp_all

lemma demoting_step:
  "keys_ok s \<Longrightarrow> demoting e \<Longrightarrow> demoted (im_compositions s) (im_compositions (run_event e s))"
  by (cases e)
    (simp_all add: demoted_IngestNode demoted_IngestResource demoted_Discover demoted_Compose
      AddBackend_def RegisterNode_def RegisterResource_def InvalidateNode_def WithdrawResource_def
      MarkEvidenceRevalidationRequired_def AdvanceEpoch_def OnResourceUpdate_def OnNodeUpdate_def
      OnPolicyUpdate_def OnPathUpdate_def OnResourceFailure_def Let_def
      recompose_demotion.table_demoted revalidate_demotion.table_demoted policy_demotion.table_demoted
      failure_demotion.table_demoted split: option.split)

lemma demoted_moves: "demoted m m' \<Longrightarrow> moves m m'"
  unfolding demoted_def moves_def lifecycle_step_def by blast

lemma moves_refl: "moves m m"
  by (rule demoted_moves) simp

lemma moves_put:
  "c_lifecycle c' = CL_RESERVED \<or> (\<exists>c. map_of m i = Some c \<and> lifecycle_step (c_lifecycle c) (c_lifecycle c')) \<Longrightarrow>
     moves m (um_put i c' m)"
  using moves_refl [of m] unfolding moves_def by (auto simp: update_conv)

lemma moves_step:
  assumes ok: "keys_ok s" and e: "\<And>loaded. e \<noteq> Ev_Load loaded"
  shows "moves (im_compositions s) (im_compositions (run_event e s))"
proof (cases "demoting e")
  case True
  with ok show ?thesis by (intro demoted_moves demoting_step)
next
  case False
  have put: "moves (im_compositions s) (um_put i c' (im_compositions s))"
    if "map_of (im_compositions s) i = Some c" "lifecycle_step (c_lifecycle c) (c_lifecycle c')" for i c c'
    by (rule moves_put) (use that in blast)
  from False e show ?thesis
  proof (cases e)
    case (Ev_Reserve plan)
    show ?thesis unfolding Ev_Reserve run_event.simps
      by (cases rule: Reserve_cases [where plan = plan and s = s])
        (auto simp: moves_refl reserved_composition_def intro!: moves_put)
  next
    case (Ev_Commit resv)
    show ?thesis unfolding Ev_Commit run_event.simps
      by (cases rule: Commit_cases [where resIn = resv and s = s])
        (auto simp: moves_refl lifecycle_step_def demotes_to_def intro!: put)
  next
    case (Ev_Activate i)
    show ?thesis unfolding Ev_Activate run_event.simps
      by (cases rule: Activate_cases [where i = i and s = s])
        (auto simp: moves_refl lifecycle_step_def demotes_to_def intro!: put)
  qed (auto simp: moves_refl BeginDrain_def EndDrain_def Release_def recompute_release_def lifecycle_step_def
      intro!: put split: option.split)
qed

text \<open>Authority is only ever gained by \<open>Activate\<close>.\<close>

lemma active_step:
  assumes ok: "keys_ok s" and k: "map_of (im_compositions (run_event e s)) k = Some c'" "c_lifecycle c' = CL_ACTIVE"
  shows "map_of (im_compositions s) k = Some c' \<or>
    e = Ev_Activate k \<and> (\<exists>c. map_of (im_compositions s) k = Some c \<and> c_lifecycle c = CL_COMMITTED \<and>
      c_id c \<notin> im_fenced s \<and> fst (RevalidationHolds c (im_resources s) (im_epoch s)) \<and>
      c' = c\<lparr>c_lifecycle := CL_ACTIVE, c_outcome := CO_SUCCESS\<rparr>)"
proof (cases "demoting e")
  case True
  from demoting_step [OF ok True] k obtain c where c: "map_of (im_compositions s) k = Some c"
    "c' = c\<lparr>c_lifecycle := c_lifecycle c'\<rparr>" "demotes_to (c_lifecycle c) (c_lifecycle c')"
    unfolding demoted_def by blast
  then have "c_lifecycle c = CL_ACTIVE" using k(2) by (auto simp: demotes_to_def)
  with c k(2) show ?thesis by (metis Composition.update_convs(9) Composition.surjective)
next
  case False
  then show ?thesis
  proof (cases e)
    case (Ev_Reserve plan)
    then show ?thesis using k
      by (cases rule: Reserve_cases [where plan = plan and s = s])
        (auto simp: update_conv reserved_composition_def split: if_splits)
  next
    case (Ev_Commit resv)
    then show ?thesis using k
      by (cases rule: Commit_cases [where resIn = resv and s = s]) (auto simp: update_conv split: if_splits)
  next
    case (Ev_Activate i)
    then show ?thesis using k
      by (cases rule: Activate_cases [where i = i and s = s]) (auto simp: update_conv split: if_splits)
  next
    case (Ev_Load loaded)
    then show ?thesis using k Load_no_active by (cases loaded) (fastforce simp: Load_def [of "Inl _"])+
  qed (use k in \<open>auto simp: BeginDrain_def EndDrain_def Release_def recompute_release_def update_conv
      split: option.splits if_splits\<close>)
qed

section \<open>Correctness of the engine as a whole\<close>

text \<open>A run from an empty engine to an active composition.\<close>

definition ex_trace :: "engine_event list" where
  "ex_trace =
     [Ev_RegisterNode ex_node, Ev_RegisterResource (ex_resource 1 RC_COMPUTE), Ev_Reserve ex_plan,
      Ev_Commit ex_reservation, Ev_Activate (StrongId 1)]"

definition ex_active :: Impl where
  "ex_active = run_events ex_trace (FabricEngine ex_config)"

lemma ex_active_reachable: "reachable any_event ex_active"
  unfolding ex_active_def by (rule run_events_reachable [OF reachable_init]) (auto simp: ex_trace_def)

lemma ex_active_composition:
  "\<exists>c. map_of (im_compositions ex_active) (StrongId 1) = Some c \<and> c_lifecycle c = CL_ACTIVE"
proof -
  have "map_option c_lifecycle (map_of (im_compositions ex_active) (StrongId 1)) = Some CL_ACTIVE" by code_simp
  then show ?thesis by auto
qed

lemma ex_reserved_disciplined: "reachable disciplined ex_reserved"
proof -
  have "reachable disciplined (run_event (Ev_RegisterResource (ex_resource 1 RC_COMPUTE))
      (run_event (Ev_RegisterNode ex_node) (FabricEngine ex_config)))"
    by (intro reachable_step reachable_init) simp_all
  then have "reachable disciplined ex_registry" by (simp add: ex_registry_def)
  moreover have "counter_ok ex_registry" by code_simp
  ultimately have "reachable disciplined (run_event (Ev_Reserve ex_plan) ex_registry)"
    by (intro reachable_step) (simp_all add: ex_amounts_ok)
  then show ?thesis by (simp add: ex_reserved_def)
qed

lemma keyed_values:
  assumes "keyed key m"
  shows "distinct (map key (map snd m))" "v \<in> set (map snd m) \<longleftrightarrow> map_of m (key v) = Some v"
    "length m = card (dom (map_of m))"
proof -
  have fsts: "map key (map snd m) = map fst m" using assms by (auto simp: keyed_def)
  have dist: "distinct (map fst m)" using assms by (simp add: keyed_def um_ok_def)
  show "distinct (map key (map snd m))" unfolding fsts by (rule dist)
  show "v \<in> set (map snd m) \<longleftrightarrow> map_of m (key v) = Some v"
    using keyed_member [OF assms] by (auto dest: map_of_SomeD intro: rev_image_eqI)
  show "length m = card (dom (map_of m))"
    using distinct_card [OF dist] by (simp add: dom_map_of_conv_image_fst)
qed

text \<open>
  C21. The registry is well typed in every reachable state: each table files an entry under the identity
  the entry carries and under no other, a snapshot lists exactly the entries the queries find, none
  twice, and the counters agree with the queries.
\<close>

theorem registry_typed:
  assumes "reachable any_event s"
  shows "(\<forall>r. r \<in> set (sn_resources (Snapshot s)) \<longleftrightarrow> GetResource s (r_id r) = Some r) \<and>
    (\<forall>n. n \<in> set (sn_nodes (Snapshot s)) \<longleftrightarrow> GetNode s (n_id n) = Some n) \<and>
    (\<forall>c. c \<in> set (sn_compositions (Snapshot s)) \<longleftrightarrow> GetComposition s (c_id c) = Some c) \<and>
    (\<forall>rv. rv \<in> set (sn_reservations (Snapshot s)) \<longleftrightarrow> GetReservation s (rv_id rv) = Some rv) \<and>
    distinct (map r_id (sn_resources (Snapshot s))) \<and> distinct (map n_id (sn_nodes (Snapshot s))) \<and>
    distinct (map c_id (sn_compositions (Snapshot s))) \<and> distinct (map rv_id (sn_reservations (Snapshot s))) \<and>
    (\<forall>i r. GetResource s i = Some r \<longrightarrow> r_id r = i) \<and> (\<forall>i n. GetNode s i = Some n \<longrightarrow> n_id n = i) \<and>
    (\<forall>i c. GetComposition s i = Some c \<longrightarrow> c_id c = i) \<and> (\<forall>i rv. GetReservation s i = Some rv \<longrightarrow> rv_id rv = i) \<and>
    ResourceCount s = card (dom (GetResource s)) \<and> NodeCount s = card (dom (GetNode s)) \<and>
    CompositionCount s = card (dom (GetComposition s))"
proof -
  note ok = keys_okD(1-4) [OF tables.always [OF assms]]
  note queries = GetResource_def GetNode_def GetComposition_def GetReservation_def ResourceCount_def NodeCount_def
    CompositionCount_def Snapshot_def RegistrySnapshot.simps
  show ?thesis unfolding queries
    using ok [THEN keyed_values(1)] ok [THEN keyed_values(2)] ok(1-3) [THEN keyed_values(3)] ok [THEN keyed_lookup] by blast
qed

theorem registry_typed_witness:
  "\<exists>c. GetComposition ex_active (StrongId 1) = Some c \<and> c_id c = StrongId 1 \<and> c \<in> set (sn_compositions (Snapshot ex_active)) \<and>
     CompositionCount ex_active = card (dom (GetComposition ex_active))"
proof -
  obtain c where c: "GetComposition ex_active (StrongId 1) = Some c" using ex_active_composition by (auto simp: GetComposition_def)
  with registry_typed [OF ex_active_reachable] show ?thesis by metis
qed

text \<open>
  C1. Whatever sequence of engine calls led here, an active composition is bound to the
  current coordinator epoch, is not fenced, and the generations recorded for its members are
  the generations the registry holds now.
\<close>

theorem active_is_current:
  assumes "reachable any_event s" "map_of (im_compositions s) i = Some c" "c_lifecycle c = CL_ACTIVE"
  shows "au_coordinator_epoch (c_authority c) = im_epoch s \<and> c_id c \<notin> im_fenced s \<and>
    generations_hold (im_resources s) c"
  using authority_invD [OF conjunct2 [OF authority.always [OF assms(1)]] assms(2,3)] by (simp add: bound_to_def)

theorem active_is_current_witness:
  "\<exists>c. map_of (im_compositions ex_active) (StrongId 1) = Some c \<and> c_lifecycle c = CL_ACTIVE \<and>
     au_coordinator_epoch (c_authority c) = im_epoch ex_active \<and> c_id c \<notin> im_fenced ex_active \<and>
     generations_hold (im_resources ex_active) c"
  using ex_active_composition active_is_current [OF ex_active_reachable, of "StrongId 1"] by blast





text \<open>
  C4. Only activation grants authority: a composition that is active after a step was active
  before it, unchanged, or the step is the activation of this composition, which was committed,
  not fenced, and revalidated against the registry and the epoch.
\<close>

theorem authority_only_by_activation:
  assumes "reachable any_event s" "map_of (im_compositions (run_event e s)) k = Some c'" "c_lifecycle c' = CL_ACTIVE"
  shows "map_of (im_compositions s) k = Some c' \<or>
    e = Ev_Activate k \<and> (\<exists>c. map_of (im_compositions s) k = Some c \<and> c_lifecycle c = CL_COMMITTED \<and>
      c_id c \<notin> im_fenced s \<and> fst (RevalidationHolds c (im_resources s) (im_epoch s)) \<and>
      c' = c\<lparr>c_lifecycle := CL_ACTIVE, c_outcome := CO_SUCCESS\<rparr>)"
  by (rule active_step [OF tables.always [OF assms(1)] assms(2,3)])

definition ex_committed :: Impl where
  "ex_committed = run_events (butlast ex_trace) (FabricEngine ex_config)"

lemma ex_active_step: "ex_active = run_event (Ev_Activate (StrongId 1)) ex_committed"
  by (simp add: ex_active_def ex_committed_def ex_trace_def run_events_def)

lemma ex_committed_reachable: "reachable any_event ex_committed"
  unfolding ex_committed_def by (rule run_events_reachable [OF reachable_init]) (auto simp: ex_trace_def)

theorem authority_only_by_activation_witness:
  "\<exists>c. map_of (im_compositions ex_committed) (StrongId 1) = Some c \<and> c_lifecycle c \<in> {CL_COMMITTED, CL_ACTIVE}"
proof -
  obtain c' where c': "map_of (im_compositions (run_event (Ev_Activate (StrongId 1)) ex_committed)) (StrongId 1) = Some c'"
    "c_lifecycle c' = CL_ACTIVE" using ex_active_composition ex_active_step by auto
  from authority_only_by_activation [OF ex_committed_reachable c'] c' show ?thesis by auto
qed



lemma fences_grow: "keys_ok s \<Longrightarrow> im_fenced s \<subseteq> im_fenced (run_event e s)"
proof -
  assume ok: "keys_ok s"
  have discover: "im_fenced s \<subseteq> im_fenced (snd (Discover s))"
    by (rule Discover_keeps [where P = "\<lambda>t. im_fenced s \<subseteq> im_fenced t"]) auto
  have compose: "im_fenced (snd (ComposeDeterministic req seed s)) = im_fenced s" for req seed
    using keys_okD(1) [OF ok] by (cases rule: ComposeDeterministic_cases [of s req seed]) simp_all
  show ?thesis
  proof (cases e)
    case (Ev_Reserve plan)
    then show ?thesis by (cases rule: Reserve_cases [where plan = plan and s = s]) simp_all
  next
    case (Ev_Commit resv)
    then show ?thesis by (cases rule: Commit_cases [where resIn = resv and s = s]) simp_all
  next
    case (Ev_Activate i)
    then show ?thesis by (cases rule: Activate_cases [where i = i and s = s]) simp_all
  qed (auto simp: discover compose AddBackend_def RegisterNode_def RegisterResource_def InvalidateNode_def
      WithdrawResource_def MarkEvidenceRevalidationRequired_def AdvanceEpoch_def OnResourceUpdate_def OnNodeUpdate_def
      OnPolicyUpdate_def OnPathUpdate_def OnResourceFailure_def BeginDrain_def EndDrain_def Release_def
      recompute_release_def Load_def Let_def dest: subsetD [OF discover] split: option.splits sum.splits)
qed

text \<open>
  C8. Release is final: a successful release fences the composition's id, the fence is never
  lifted by any later step, and a fenced id never belongs to an active composition.
\<close>

theorem release_is_final:
  assumes "reachable any_event s"
  shows "(fst (Release i s) \<longrightarrow> i \<in> im_fenced (snd (Release i s))) \<and>
    im_fenced s \<subseteq> im_fenced (run_event e s) \<and>
    (\<forall>k c. map_of (im_compositions s) k = Some c \<and> c_id c \<in> im_fenced s \<longrightarrow> c_lifecycle c \<noteq> CL_ACTIVE)"
proof -
  have "fst (Release i s) \<longrightarrow> i \<in> im_fenced (snd (Release i s))" by (simp add: Release_def split: option.split)
  moreover have "c_lifecycle c \<noteq> CL_ACTIVE" if "map_of (im_compositions s) k = Some c" "c_id c \<in> im_fenced s" for k c
    using authority_invD [OF conjunct2 [OF authority.always [OF assms]] that(1)] that(2) by (auto simp: bound_to_def)
  ultimately show ?thesis using fences_grow [OF tables.always [OF assms]] by blast
qed

theorem release_is_final_witness:
  "fst (Release (StrongId 1) ex_active) \<and> StrongId 1 \<in> im_fenced (snd (Release (StrongId 1) ex_active))"
proof -
  have "fst (Release (StrongId 1) ex_active)" by code_simp
  with release_is_final [OF ex_active_reachable, of "StrongId 1"] show ?thesis by blast
qed

section \<open>Correctness of recomposition\<close>

definition replaced :: "CompositionId \<Rightarrow> Impl \<Rightarrow> bool" where
  "replaced i s \<longleftrightarrow>
     i \<in> im_fenced s \<and> map_option c_lifecycle (map_of (im_compositions s) i) = Some CL_RELEASED \<and>
     (\<exists>j c. j \<noteq> i \<and> map_of (im_compositions s) j = Some c \<and> c_lifecycle c = CL_ACTIVE)"

lemma Reserve_ok_cases:
  assumes "reserve_ok (fst (Reserve plan s))"
  obtains m items where
    "Reserve plan s =
       (\<lparr>re_outcome = CO_SUCCESS, re_reservation = new_reservation plan s items, re_reasons = [], re_notes = []\<rparr>,
        s\<lparr>im_next_resv := im_next_resv s + 1, im_reserved_amount := m, im_next_rs := im_next_rs s + 1,
          im_compositions := um_put (pl_id plan) (reserved_composition plan s) (im_compositions s),
          im_reservations := um_put (StrongId (im_next_resv s)) (new_reservation plan s items) (im_reservations s)\<rparr>)"
  using assms
  by (cases rule: Reserve_cases [where plan = plan and s = s]) (auto simp: reserve_ok_def reserve_rejected_def intro: that)

lemma Commit_ok_cases:
  assumes "commit_ok (fst (Commit resIn s))"
    and rv: "map_of (im_reservations s) (rv_id resIn) = Some rv" and c: "map_of (im_compositions s) (rv_composition rv) = Some c"
  shows "cm_composition (fst (Commit resIn s)) = c\<lparr>c_lifecycle := CL_COMMITTED\<rparr> \<and>
    im_compositions (snd (Commit resIn s)) = um_put (rv_composition rv) (c\<lparr>c_lifecycle := CL_COMMITTED\<rparr>) (im_compositions s) \<and>
    im_fenced (snd (Commit resIn s)) = im_fenced s"
  using assms by (cases rule: Commit_cases [where resIn = resIn and s = s]) (auto simp: commit_ok_def commit_rejected_def)

lemma Activate_ok_cases:
  assumes "activate_ok (fst (Activate i s))"
  obtains c where "map_of (im_compositions s) i = Some c" "c_id c \<notin> im_fenced s"
    "snd (Activate i s) = s\<lparr>im_compositions := um_put i (c\<lparr>c_lifecycle := CL_ACTIVE, c_outcome := CO_SUCCESS\<rparr>) (im_compositions s)\<rparr>"
  using assms
  by (cases rule: Activate_cases [where i = i and s = s]) (auto simp: activate_ok_def activate_rejected_def intro: that)

text \<open>Reserving, committing and activating a plan in a row, for an id that is fenced elsewhere.\<close>

lemma reserve_commit_activate:
  assumes old: "i \<in> im_fenced s" "map_option c_lifecycle (map_of (im_compositions s) i) = Some CL_RELEASED"
    and res: "Reserve plan s = (rr, s3)" "reserve_ok rr"
    and com: "Commit (re_reservation rr) s3 = (cc, s4)" "commit_ok cc"
    and act: "Activate (c_id (cm_composition cc)) s4 = (ar, s5)" "activate_ok ar"
  shows "replaced i s5"
proof -
  let ?j = "pl_id plan" and ?cn = "reserved_composition plan s"
  obtain m items where run: "Reserve plan s =
       (\<lparr>re_outcome = CO_SUCCESS, re_reservation = new_reservation plan s items, re_reasons = [], re_notes = []\<rparr>,
        s\<lparr>im_next_resv := im_next_resv s + 1, im_reserved_amount := m, im_next_rs := im_next_rs s + 1,
          im_compositions := um_put (pl_id plan) (reserved_composition plan s) (im_compositions s),
          im_reservations := um_put (StrongId (im_next_resv s)) (new_reservation plan s items) (im_reservations s)\<rparr>)"
    by (rule Reserve_ok_cases [of plan s]) (simp_all add: res)
  have rr: "re_reservation rr = new_reservation plan s items"
    and s3: "map_of (im_reservations s3) (StrongId (im_next_resv s)) = Some (new_reservation plan s items)"
      "im_compositions s3 = um_put ?j ?cn (im_compositions s)" "im_fenced s3 = im_fenced s"
    using run res(1) by (auto simp: update_conv)
  have "cm_composition cc = ?cn\<lparr>c_lifecycle := CL_COMMITTED\<rparr> \<and>
      im_compositions s4 = um_put ?j (?cn\<lparr>c_lifecycle := CL_COMMITTED\<rparr>) (im_compositions s3) \<and> im_fenced s4 = im_fenced s3"
    using Commit_ok_cases [of "re_reservation rr" s3 "new_reservation plan s items" ?cn] com s3
    by (simp add: rr new_reservation_def update_conv)
  then have s4: "c_id (cm_composition cc) = ?j" "im_fenced s4 = im_fenced s"
      "im_compositions s4 = um_put ?j (?cn\<lparr>c_lifecycle := CL_COMMITTED\<rparr>) (um_put ?j ?cn (im_compositions s))"
    by (simp_all add: reserved_composition_def s3)
  obtain d where d: "map_of (im_compositions s4) ?j = Some d" "c_id d \<notin> im_fenced s4"
      "s5 = s4\<lparr>im_compositions := um_put ?j (d\<lparr>c_lifecycle := CL_ACTIVE, c_outcome := CO_SUCCESS\<rparr>) (im_compositions s4)\<rparr>"
    using Activate_ok_cases [of ?j s4] act by (auto simp: s4(1))
  have "d = ?cn\<lparr>c_lifecycle := CL_COMMITTED\<rparr>" using d(1) by (simp add: s4(3) update_conv)
  then have ne: "?j \<noteq> i" using d(2) old(1) by (auto simp: s4(2) reserved_composition_def)
  show ?thesis
    unfolding replaced_def d(3) using old ne by (auto simp: s4(2,3) update_conv)
qed

lemma recompute_replaced:
  assumes "reachable any_event s" "fst (Recompute i s)"
  shows "replaced i (snd (Recompute i s))"
proof -
  have ok: "keys_ok s" by (rule tables.always [OF assms(1)])
  obtain c where c: "map_of (im_compositions s) i = Some c" using assms(2) by (cases "map_of (im_compositions s) i") (auto simp: Recompute_def)
  obtain cr s1 where compose: "ComposeDeterministic (c_request c) 0 s = (cr, s1)" by fastforce
  have "im_compositions s1 = im_compositions s \<and> im_fenced s1 = im_fenced s"
    using keys_okD(1) [OF ok] compose by (cases rule: ComposeDeterministic_cases [of s "c_request c" 0]) auto
  then have s1: "keys_ok s1" "im_compositions s1 = im_compositions s" "im_fenced s1 = im_fenced s"
    using keys_ok_Compose [OF ok, of "c_request c" 0] compose by simp_all
  let ?s2 = "recompute_release i s1"
  have s2: "keys_ok ?s2" "i \<in> im_fenced ?s2" "map_option c_lifecycle (map_of (im_compositions ?s2) i) = Some CL_RELEASED"
    using s1 c keyed_lookup [OF keys_okD(3) [OF ok] c] keys_ok_recompute_release [OF s1(1), of i]
    by (auto simp: recompute_release_def update_conv)
  obtain rr s3 where res: "Reserve (cr_plan cr) ?s2 = (rr, s3)" by fastforce
  obtain cc s4 where com: "Commit (re_reservation rr) s3 = (cc, s4)" by fastforce
  obtain ar s5 where act: "Activate (c_id (cm_composition cc)) s4 = (ar, s5)" by fastforce
  have steps: "reserve_ok rr" "commit_ok cc" "activate_ok ar" "snd (Recompute i s) = s5"
    using assms(2) c compose res com act by (auto simp: Recompute_def split: if_splits)
  show ?thesis
    using reserve_commit_activate [OF s2(2,3) res steps(1) com steps(2) act steps(3)] steps(4) by simp
qed

text \<open>
  C10. Recomposition replaces: when it reports success, the old composition is released and
  fenced, and a composition with a different id is active.
\<close>

theorem recompute_replaces:
  assumes "reachable any_event s" "fst (Recompute i s)"
  shows "replaced i (snd (Recompute i s))"
  by (rule recompute_replaced [OF assms])

definition ex_composed :: Impl where
  "ex_composed = run_events
     [Ev_RegisterNode ex_node, Ev_RegisterResource (ex_resource 1 RC_COMPUTE), Ev_Compose (pl_request ex_plan) 0,
      Ev_Reserve ex_plan, Ev_Commit ex_reservation, Ev_Activate (StrongId 1)] (FabricEngine ex_config)"

lemma ex_composed_reachable: "reachable any_event ex_composed"
  unfolding ex_composed_def by (rule run_events_reachable [OF reachable_init]) auto

lemma ex_composed_recomputes: "fst (Recompute (StrongId 1) ex_composed)"
  by code_simp

theorem recompute_replaces_witness: "replaced (StrongId 1) (snd (Recompute (StrongId 1) ex_composed))"
  by (rule recompute_replaces [OF ex_composed_reachable ex_composed_recomputes])

section \<open>Outside the ledger discipline\<close>

text \<open>
  Releasing a composition whose commit was rolled back gives back its hold a second time.
  Here the second release takes the hold of another, live reservation out of the ledger.
\<close>

definition ex_double_release :: Impl where
  "ex_double_release = run_events
     [Ev_RegisterNode ex_node, Ev_RegisterResource (ex_resource 1 RC_COMPUTE), Ev_Reserve ex_plan,
      Ev_InvalidateNode (StrongId 1), Ev_Commit ex_reservation,
      Ev_RegisterResource (ex_resource 1 RC_COMPUTE), Ev_Reserve (ex_plan\<lparr>pl_id := StrongId 2\<rparr>),
      Ev_Release (StrongId 1)] (FabricEngine ex_config)"

lemma double_release_frees_foreign_hold:
  "map_option live (map_of (im_reservations ex_double_release) (StrongId 2)) = Some True \<and>
   map_option (\<lambda>rv. map it_resource (rv_items rv)) (map_of (im_reservations ex_double_release) (StrongId 2)) = Some [StrongId 1] \<and>
   \<not> d_gt (held_amount (im_reserved_amount ex_double_release) (StrongId 1)) 0"
  by code_simp

end
