(* ===== verification/Fabric_Clib.thy ===== *)
theory Fabric_Clib
  imports Fabric_Prelude
begin

text \<open>
  What the programs use of the C and C++ standard libraries on text: reading numbers with \<open>atoi\<close> and
  \<open>strtoull\<close>, searching strings, and the conversions of \<open>printf\<close>.
\<close>

section \<open>Reading numbers\<close>

definition is_space :: "char \<Rightarrow> bool" where
  "is_space c \<longleftrightarrow> c = CHR '' '' \<or> of_char c \<in> {9..13 :: nat}"

definition is_digit :: "char \<Rightarrow> bool" where
  "is_digit c \<longleftrightarrow> of_char c \<in> {48..57 :: nat}"

text \<open>Blanks, a sign and digits; whether the sign is a minus, and the value of the digits.\<close>

definition scan_number :: "string \<Rightarrow> bool \<times> int" where
  "scan_number s =
     (let s1 = dropWhile is_space s;
          neg = (case s1 of c # _ \<Rightarrow> c = CHR ''-'' | [] \<Rightarrow> False);
          s2 = (case s1 of c # cs \<Rightarrow> if c = CHR ''-'' \<or> c = CHR ''+'' then cs else s1 | [] \<Rightarrow> [])
      in (neg, dec_val (takeWhile is_digit s2)))"

text \<open>\<open>std::strtoull(s, nullptr, 10)\<close>: it saturates, and a minus negates modulo \<open>2 ^ 64\<close>.\<close>

definition strtoull :: "string \<Rightarrow> u64" where
  "strtoull s = (let (neg, v) = scan_number s in
     if 2 ^ 64 \<le> v then - 1 else if neg then - word_of_int v else word_of_int v)"

text \<open>\<open>std::atoi\<close>, which saturates in the C library of Windows.\<close>

definition atoi :: "string \<Rightarrow> int" where
  "atoi s = (let (neg, v) = scan_number s in
     if neg then max (- (2 ^ 31)) (- v) else min (2 ^ 31 - 1) v)"

section \<open>Strings\<close>

text \<open>\<open>a.rfind(p, 0) == 0\<close>\<close>

fun starts_with :: "string \<Rightarrow> string \<Rightarrow> bool" where
  "starts_with [] a = True"
| "starts_with (c # cs) [] = False"
| "starts_with (c # cs) (d # ds) = (c = d \<and> starts_with cs ds)"

text \<open>\<open>a.find(c)\<close>, with \<open>None\<close> for \<open>npos\<close>\<close>

fun find_char :: "char \<Rightarrow> string \<Rightarrow> nat option" where
  "find_char c [] = None"
| "find_char c (d # ds) = (if d = c then Some 0 else map_option Suc (find_char c ds))"

section \<open>Conversions of printf\<close>

text \<open>\<open>%-ns\<close>: the text, filled up with blanks on the right.\<close>

definition pad_right :: "nat \<Rightarrow> string \<Rightarrow> string" where
  "pad_right n s = s @ replicate (n - length s) (CHR '' '')"

text \<open>\<open>%zu\<close> and \<open>%llu\<close>; \<open>%d\<close>\<close>

definition size_string :: "nat \<Rightarrow> string" where
  "size_string n = dec_string (int n)"

definition int_string :: "int \<Rightarrow> string" where
  "int_string i = (if i < 0 then CHR ''-'' # dec_string (- i) else dec_string i)"

section \<open>Laws\<close>

lemma digit_is_digit: "c \<in> set ''0123456789'' \<Longrightarrow> is_digit c \<and> \<not> is_space c \<and> c \<noteq> CHR ''-'' \<and> c \<noteq> CHR ''+''"
  by (auto simp: is_digit_def is_space_def)

lemma dec_string_nonempty: "dec_string n \<noteq> []"
  by (simp add: dec_string.simps [of n])

lemma scan_number_digits:
  assumes "s \<noteq> []" "set s \<subseteq> set ''0123456789''"
  shows "scan_number s = (False, dec_val s)"
proof -
  have all: "is_digit c" "\<not> is_space c" "c \<noteq> CHR ''-''" "c \<noteq> CHR ''+''" if "c \<in> set s" for c
    using assms(2) that digit_is_digit [of c] by blast+
  have digits: "takeWhile is_digit s = s" using all(1) by (simp add: takeWhile_eq_all_conv)
  obtain c cs where s: "s = c # cs" using assms(1) by (cases s) auto
  then have "dropWhile is_space s = s" using all(2) by simp
  with digits s all(3,4) [of c] show ?thesis by (simp add: scan_number_def Let_def)
qed

lemma scan_number_dec: "0 \<le> n \<Longrightarrow> scan_number (dec_string n) = (False, n)"
  by (simp only: scan_number_digits [OF dec_string_nonempty dec_string_digits] dec_val_dec_string)

lemma strtoull_to_string [simp]: "strtoull (to_string v) = v"
proof -
  have "uint v < 2 ^ 64" using uint_lt2p [of v] by simp
  then show ?thesis by (simp add: strtoull_def to_string_def scan_number_dec)
qed

lemma atoi_int_string: "0 \<le> i \<Longrightarrow> i < 2 ^ 31 \<Longrightarrow> atoi (int_string i) = i"
  by (simp add: atoi_def int_string_def scan_number_dec)

lemma digit_val_nonneg: "is_digit c \<Longrightarrow> 0 \<le> digit_val c"
proof -
  assume "is_digit c"
  then have "48 \<le> (of_char c :: nat)" by (simp add: is_digit_def)
  then have "int 48 \<le> int (of_char c)" by (simp only: of_nat_le_iff)
  then show ?thesis unfolding digit_val_def by (simp only: of_nat_of_char)
qed

lemma atoi_bounds: "- (2 ^ 31) \<le> atoi s \<and> atoi s < 2 ^ 31"
proof -
  have "0 \<le> foldl (\<lambda>a c. 10 * a + digit_val c) a ds" if "0 \<le> a" "\<forall>c \<in> set ds. is_digit c" for a ds
    using that by (induction ds arbitrary: a) (simp_all add: digit_val_nonneg)
  then have "0 \<le> snd (scan_number s)" unfolding scan_number_def Let_def dec_val_def
    by (auto dest: set_takeWhileD)
  then show ?thesis by (auto simp: atoi_def case_prod_beta Let_def)
qed

lemma starts_with_append [simp]: "starts_with p (p @ s)"
  by (induction p) simp_all

lemma starts_with_iff: "starts_with p a \<longleftrightarrow> (\<exists>s. a = p @ s)"
  by (induction p a rule: starts_with.induct) auto

lemma find_char_append: "c \<notin> set a \<Longrightarrow> find_char c (a @ c # b) = Some (length a)"
  by (induction a) auto

lemma pad_right_length: "length (pad_right n s) = max n (length s)"
  by (simp add: pad_right_def)

end
