(* ===== verification/Fabric_Synthetic.thy ===== *)
theory Fabric_Synthetic
  imports Fabric_Lifecycle Fabric_Clib
begin

text \<open>
  The synthetic multi-node backend, \<open>backends/synthetic/synthetic_backend.cpp\<close>: four nodes, seven
  resources and the paths between the nodes, with the functions that change them.  Every member
  function keeps the backend's mutex for its whole body, so each is one function on the state.
\<close>

section \<open>State\<close>

record PathState =
  ps_available :: bool
  ps_bw :: double
  ps_lat :: double
  ps_gen :: PathGeneration

record SyntheticBackend =
  sb_nodes :: "Node list"
  sb_resources :: "Resource list"
  sb_paths :: "(string, PathState) omap"
  sb_node_gen :: NodeGeneration

definition path_name :: "NodeId \<Rightarrow> NodeId \<Rightarrow> string" where
  "path_name f t = id_ToString f @ ''->'' @ id_ToString t"

section \<open>Construction\<close>

definition MakeBase :: "ResourceId \<Rightarrow> ResourceGeneration \<Rightarrow> ResourceClass \<Rightarrow> NodeId \<Rightarrow> string \<Rightarrow> Resource" where
  "MakeBase i gen cls node provider = Resource_default\<lparr>
     r_id := i, r_generation := gen, r_resource_class := cls, r_node_id := node, r_provider := provider,
     r_health := RH_HEALTHY, r_readiness := RD_READY, r_reachability := RB_REACHABLE,
     r_evidence := Evidence_default\<lparr>ev_id := StrongId (Value i * 1000 + 1), ev_generation := StrongGeneration 1,
       ev_source := SRC_BACKEND, ev_state := ES_FRESH, ev_timestamp_ms := 1000, ev_max_age_ms := 3600000,
       ev_confidence := d_1, ev_provenance := provider @ ''/synthetic'', ev_durable := True\<rparr>,
     r_synthetic := True,
     r_failure_domain := FailureDomain_default\<lparr>fd_id := StrongId (Value node * 10 + 1), fd_type := FD_HOST,
       fd_name := ''host-'' @ id_ToString node, fd_synthetic := True\<rparr>\<rparr>"

definition AddCap :: "CapabilityKind \<Rightarrow> CapabilityState \<Rightarrow> string \<Rightarrow> Resource \<Rightarrow> Resource" where
  "AddCap kind state detail r = r\<lparr>r_capabilities := r_capabilities r @
     [Capability_default\<lparr>cb_kind := kind, cb_state := state, cb_generation := StrongGeneration 1,
       cb_evidence := ev_id (r_evidence r), cb_detail := detail\<rparr>]\<rparr>"

definition gib :: "u64 \<Rightarrow> double" where
  "gib n = d_mul (d_of_u64 n) (d_of_u64 (push_bit 30 1))"

definition node_a :: "NodeGeneration \<Rightarrow> Node" where
  "node_a ng = Node_default\<lparr>n_id := StrongId 1, n_generation := ng, n_hostname := ''node-a'', n_provider := ''synthetic'',
     n_backend := BK_SYNTHETIC, n_health := RH_HEALTHY, n_reachability := RB_REACHABLE,
     n_failure_domain := FailureDomain_default\<lparr>fd_id := StrongId 1, fd_type := FD_HOST, fd_name := ''rack-1'',
       fd_synthetic := True\<rparr>,
     n_lifecycle := NL_VALIDATED, n_synthetic := True\<rparr>"

definition node_like :: "Node \<Rightarrow> u64 \<Rightarrow> string \<Rightarrow> string \<Rightarrow> Node" where
  "node_like a i hostname rack = a\<lparr>n_id := StrongId i, n_hostname := hostname,
     n_failure_domain := (n_failure_domain a)\<lparr>fd_id := StrongId i, fd_name := rack\<rparr>\<rparr>"

definition topology_nodes :: "NodeGeneration \<Rightarrow> Node list" where
  "topology_nodes ng = (let a = node_a ng in
     [a, node_like a 2 ''node-b'' ''rack-2'', node_like a 3 ''node-c'' ''rack-3'', node_like a 4 ''node-d'' ''rack-4''])"

definition base :: "u64 \<Rightarrow> ResourceClass \<Rightarrow> u64 \<Rightarrow> Capacity \<Rightarrow> Resource" where
  "base i cls node capacity =
     (MakeBase (StrongId i) (StrongGeneration 1) cls (StrongId node) ''synthetic'')\<lparr>r_capacity := capacity\<rparr>"

definition accelerator :: "u64 \<Rightarrow> u64 \<Rightarrow> Resource" where
  "accelerator i node =
     AddCap CK_COMPUTE_PRECISION CS_SUPPORTED ''fp64'' (AddCap CK_ARCH_GENERATION CS_SUPPORTED ''12.0''
       (AddCap CK_CUDA_EXECUTION CS_SUPPORTED ''12.0''
         (base i RC_ACCELERATOR node (Capacity_default\<lparr>cp_compute_units := d_of_u64 40, cp_accelerator_memory_bytes := gib 24\<rparr>))))"

definition topology_resources :: "Resource list" where
  "topology_resources =
     (let cpu = AddCap CK_PERSISTENT_STORAGE CS_SUPPORTED [] (AddCap CK_COHERENT_MEMORY_ACCESS CS_SUPPORTED []
            (AddCap CK_HOST_MEMORY_ACCESS CS_SUPPORTED [] (AddCap CK_CPU_EXECUTION CS_SUPPORTED []
              (base 101 RC_COMPUTE 1 (Capacity_default\<lparr>cp_compute_units := d_of_u64 32, cp_host_memory_bytes := gib 64,
                cp_network_latency_us := d_of_u64 1\<rparr>)))));
          gpu = accelerator 102 1;
          hm = AddCap CK_HOST_MEMORY_ACCESS CS_SUPPORTED []
            (base 107 RC_HOST_MEMORY 1 (Capacity_default\<lparr>cp_host_memory_bytes := gib 64\<rparr>));
          mem = AddCap CK_HOST_MEMORY_ACCESS CS_SUPPORTED [] (AddCap CK_EXPANDED_MEMORY_ACCESS CS_SUPPORTED []
            (base 103 RC_EXPANDED_MEMORY 2 (Capacity_default\<lparr>cp_expanded_memory_bytes := gib 256\<rparr>)));
          stor = AddCap CK_PERSISTENT_STORAGE CS_SUPPORTED []
            (base 104 RC_STORAGE 3 (Capacity_default\<lparr>cp_storage_bytes := d_mul (d_of_u64 2) (d_of_u64 (push_bit 40 1)),
              cp_network_bandwidth_mbps := d_of_u64 50000\<rparr>));
          nic = AddCap CK_NETWORK_PROTOCOL CS_SUPPORTED ''tcp'' (AddCap CK_DIRECT_NETWORK_ACCESS CS_SUPPORTED []
            (base 105 RC_NETWORK_ENDPOINT 3 (Capacity_default\<lparr>cp_network_bandwidth_mbps := d_of_u64 100000\<rparr>)));
          gpu2 = accelerator 106 4
      in [cpu, gpu, hm, mem, stor, nic, gpu2])"

definition addPath :: "(string, PathState) omap \<Rightarrow> u64 \<times> u64 \<times> u64 \<times> u64 \<Rightarrow> (string, PathState) omap" where
  "addPath paths = (\<lambda>(f, t, bw, lat).
     let p = \<lparr>ps_available = True, ps_bw = d_of_u64 bw, ps_lat = d_of_u64 lat, ps_gen = StrongGeneration 1\<rparr> in
     om_put (path_name (StrongId t) (StrongId f)) p (om_put (path_name (StrongId f) (StrongId t)) p paths))"

definition topology_paths :: "(string, PathState) omap" where
  "topology_paths = foldl addPath []
     [(1, 2, 100000, 3), (1, 3, 50000, 5), (2, 3, 50000, 8), (1, 4, 100000, 2), (4, 2, 100000, 4), (4, 3, 50000, 6)]"

definition MakeSyntheticBackend :: "NodeGeneration \<Rightarrow> SyntheticBackend" where
  "MakeSyntheticBackend ng =
     \<lparr>sb_nodes = topology_nodes ng, sb_resources = topology_resources, sb_paths = topology_paths, sb_node_gen = ng\<rparr>"

section \<open>The backend interface\<close>

definition DiscoverNodes :: "SyntheticBackend \<Rightarrow> Node list" where
  "DiscoverNodes b = sb_nodes b"

definition DiscoverResources :: "SyntheticBackend \<Rightarrow> Resource list" where
  "DiscoverResources b = sb_resources b"

definition ResolvePath :: "SyntheticBackend \<Rightarrow> PathRequirement \<Rightarrow> PathEvidence option" where
  "ResolvePath b q =
     (case map_of (sb_paths b) (path_name (pr_from q) (pr_to q)) of
        None \<Rightarrow> None
      | Some p \<Rightarrow>
        if \<not> ps_available p then None
        else let i = Value (pr_from q) * 100 + Value (pr_to q) in
          Some (PathEvidence_default\<lparr>pe_id := StrongId i, pe_generation := ps_gen p, pe_requirement := q,
            pe_available := True, pe_verified := True, pe_bandwidth_mbps := ps_bw p, pe_latency_us := ps_lat p,
            pe_provider := ''synthetic'', pe_source := ''synthetic'',
            pe_evidence := Evidence_default\<lparr>ev_id := StrongId i, ev_generation := StrongGeneration 1,
              ev_source := SRC_BACKEND, ev_state := ES_FRESH, ev_timestamp_ms := 1000, ev_max_age_ms := 3600000,
              ev_confidence := d_1, ev_durable := True\<rparr>\<rparr>))"

definition Describe :: "SyntheticBackend \<Rightarrow> string" where
  "Describe b = ''synthetic nodes='' @ size_string (length (sb_nodes b)) @
     '' resources='' @ size_string (length (sb_resources b))"

definition as_backend :: "SyntheticBackend \<Rightarrow> Backend" where
  "as_backend b = \<lparr>bk_kind = BK_SYNTHETIC, bk_name = ''synthetic'', bk_DiscoverNodes = DiscoverNodes b,
     bk_DiscoverResources = DiscoverResources b, bk_ResolvePath = ResolvePath b, bk_SupportsRealExecution = False\<rparr>"

section \<open>Simulation control\<close>

definition for_resource :: "(Resource \<Rightarrow> bool) \<Rightarrow> (Resource \<Rightarrow> Resource) \<Rightarrow> SyntheticBackend \<Rightarrow> SyntheticBackend" where
  "for_resource sel f b = b\<lparr>sb_resources := map (\<lambda>r. if sel r then f r else r) (sb_resources b)\<rparr>"

definition for_node :: "NodeId \<Rightarrow> (Node \<Rightarrow> Node) \<Rightarrow> SyntheticBackend \<Rightarrow> SyntheticBackend" where
  "for_node i f b = b\<lparr>sb_nodes := map (\<lambda>n. if n_id n = i then f n else n) (sb_nodes b)\<rparr>"

definition for_path :: "NodeId \<Rightarrow> NodeId \<Rightarrow> (PathState \<Rightarrow> PathState) \<Rightarrow> SyntheticBackend \<Rightarrow> SyntheticBackend" where
  "for_path f t g b =
     (case map_of (sb_paths b) (path_name f t) of
        None \<Rightarrow> b
      | Some p \<Rightarrow> b\<lparr>sb_paths := om_put (path_name f t) (g p) (sb_paths b)\<rparr>)"

definition evidence_state :: "EvidenceState \<Rightarrow> Resource \<Rightarrow> Resource" where
  "evidence_state st r = r\<lparr>r_evidence := (r_evidence r)\<lparr>ev_state := st\<rparr>\<rparr>"

definition SetResourceHealth :: "ResourceId \<Rightarrow> ResourceHealth \<Rightarrow> SyntheticBackend \<Rightarrow> SyntheticBackend" where
  "SetResourceHealth i h = for_resource (\<lambda>r. r_id r = i) (\<lambda>r.
     evidence_state (if h = RH_HEALTHY then ES_FRESH else ES_REVALIDATION_REQUIRED) (r\<lparr>r_health := h\<rparr>))"

definition SetResourceReachability :: "ResourceId \<Rightarrow> Reachability \<Rightarrow> SyntheticBackend \<Rightarrow> SyntheticBackend" where
  "SetResourceReachability i rc = for_resource (\<lambda>r. r_id r = i) (\<lambda>r.
     evidence_state (if rc = RB_REACHABLE then ES_FRESH else ES_REVALIDATION_REQUIRED) (r\<lparr>r_reachability := rc\<rparr>))"

definition SetResourceGeneration :: "ResourceId \<Rightarrow> ResourceGeneration \<Rightarrow> SyntheticBackend \<Rightarrow> SyntheticBackend" where
  "SetResourceGeneration i g = for_resource (\<lambda>r. r_id r = i) (\<lambda>r. r\<lparr>r_generation := g,
     r_evidence := (r_evidence r)\<lparr>ev_generation := StrongGeneration (gen_Value g), ev_state := ES_FRESH,
       ev_timestamp_ms := ev_timestamp_ms (r_evidence r) + 1\<rparr>\<rparr>)"

definition SetResourceUnavailable :: "ResourceId \<Rightarrow> SyntheticBackend \<Rightarrow> SyntheticBackend" where
  "SetResourceUnavailable i = for_resource (\<lambda>r. r_id r = i) (\<lambda>r. r\<lparr>r_health := RH_OFFLINE,
     r_reachability := RB_UNREACHABLE, r_readiness := RD_NOT_READY,
     r_evidence := (r_evidence r)\<lparr>ev_state := ES_REVALIDATION_REQUIRED, ev_durable := False\<rparr>\<rparr>)"

definition SetResourceBack :: "ResourceId \<Rightarrow> SyntheticBackend \<Rightarrow> SyntheticBackend" where
  "SetResourceBack i = for_resource (\<lambda>r. r_id r = i) (\<lambda>r. r\<lparr>r_health := RH_HEALTHY,
     r_reachability := RB_REACHABLE, r_readiness := RD_READY,
     r_evidence := (r_evidence r)\<lparr>ev_state := ES_FRESH, ev_max_age_ms := 3600000, ev_durable := True\<rparr>\<rparr>)"

definition SetNodeHealth :: "NodeId \<Rightarrow> ResourceHealth \<Rightarrow> SyntheticBackend \<Rightarrow> SyntheticBackend" where
  "SetNodeHealth i h = for_node i (\<lambda>n. n\<lparr>n_health := h\<rparr>)"

definition SetPathAvailable :: "NodeId \<Rightarrow> NodeId \<Rightarrow> bool \<Rightarrow> SyntheticBackend \<Rightarrow> SyntheticBackend" where
  "SetPathAvailable f t available = for_path f t (\<lambda>p. p\<lparr>ps_available := available, ps_gen := gen_Next (ps_gen p)\<rparr>)"

definition SetPathBandwidth :: "NodeId \<Rightarrow> NodeId \<Rightarrow> double \<Rightarrow> SyntheticBackend \<Rightarrow> SyntheticBackend" where
  "SetPathBandwidth f t mbps = for_path f t (\<lambda>p. p\<lparr>ps_bw := mbps, ps_gen := gen_Next (ps_gen p)\<rparr>)"

definition SetPathLatency :: "NodeId \<Rightarrow> NodeId \<Rightarrow> double \<Rightarrow> SyntheticBackend \<Rightarrow> SyntheticBackend" where
  "SetPathLatency f t us = for_path f t (\<lambda>p. p\<lparr>ps_lat := us, ps_gen := gen_Next (ps_gen p)\<rparr>)"

definition RemoveNode :: "NodeId \<Rightarrow> SyntheticBackend \<Rightarrow> SyntheticBackend" where
  "RemoveNode i b = for_resource (\<lambda>r. r_node_id r = i) (\<lambda>r.
       evidence_state ES_REVALIDATION_REQUIRED (r\<lparr>r_health := RH_OFFLINE, r_reachability := RB_UNREACHABLE\<rparr>))
     (b\<lparr>sb_nodes := filter (\<lambda>n. n_id n \<noteq> i) (sb_nodes b)\<rparr>)"

definition ReincarnateNode :: "NodeId \<Rightarrow> NodeGeneration \<Rightarrow> WorkerBootId \<Rightarrow> SyntheticBackend \<Rightarrow> SyntheticBackend" where
  "ReincarnateNode i gen boot b = for_resource (\<lambda>r. r_node_id r = i) (\<lambda>r.
       r\<lparr>r_generation := StrongGeneration (gen_Value gen), r_health := RH_HEALTHY, r_reachability := RB_REACHABLE,
         r_readiness := RD_READY, r_evidence := (r_evidence r)\<lparr>ev_owner := id_ToString boot, ev_state := ES_FRESH,
           ev_durable := False, ev_max_age_ms := 3600000\<rparr>\<rparr>)
     (for_node i (\<lambda>n. n\<lparr>n_generation := gen, n_worker_boot := boot, n_health := RH_HEALTHY\<rparr>) b)"

definition Dump :: "SyntheticBackend \<Rightarrow> string" where
  "Dump b =
     concat (map (\<lambda>n. ''node '' @ id_ToString (n_id n) @ '' '' @ n_hostname n @ '' gen='' @
       to_string (gen_Value (n_generation n)) @ [CHR 0x0A]) (sb_nodes b)) @
     concat (map (\<lambda>r. ''res '' @ id_ToString (r_id r) @ '' cls='' @ ResourceClass_ToString (r_resource_class r) @
       '' gen='' @ to_string (gen_Value (r_generation r)) @ '' health='' @ ResourceHealth_ToString (r_health r) @
       [CHR 0x0A]) (sb_resources b))"

section \<open>What discovery takes over\<close>

lemma path_name_PathKey: "path_name = PathKey"
  by (simp add: fun_eq_iff path_name_def PathKey_def)

lemma ingest_lookup:
  "map_of (im_resources (IngestResourceLocked r s)) i =
     (if IsValid (r_id r) \<and> i = r_id r then Some r else map_of (im_resources s) i)"
  by (simp add: IngestResourceLocked_def Let_def update_conv split: option.split)

lemma discover_resource_ingest:
  "\<exists>y. snd (discover_resource acc r) = IngestResourceLocked (r\<lparr>r_synthetic := y\<rparr>) (snd acc)"
proof (cases "map_of (im_nodes (snd acc)) (r_node_id r)")
  case None
  then have "snd (discover_resource acc r) = IngestResourceLocked (r\<lparr>r_synthetic := r_synthetic r\<rparr>) (snd acc)"
    by (simp add: discover_resource_def case_prod_beta)
  then show ?thesis by (rule exI)
next
  case (Some n)
  then have "snd (discover_resource acc r) = IngestResourceLocked (r\<lparr>r_synthetic := n_synthetic n\<rparr>) (snd acc)"
    by (simp add: discover_resource_def case_prod_beta Let_def)
  then show ?thesis by (rule exI)
qed

lemma discover_resources_other:
  "i \<notin> r_id ` set rs \<Longrightarrow>
     map_of (im_resources (snd (foldl discover_resource acc rs))) i = map_of (im_resources (snd acc)) i"
proof (induction rs arbitrary: acc)
  case (Cons r rs)
  moreover obtain y where "snd (discover_resource acc r) = IngestResourceLocked (r\<lparr>r_synthetic := y\<rparr>) (snd acc)"
    using discover_resource_ingest by blast
  ultimately show ?case by (simp add: ingest_lookup)
qed simp

lemma discover_resources_found:
  assumes "distinct (map r_id rs)" "r \<in> set rs" "IsValid (r_id r)"
  shows "\<exists>y. map_of (im_resources (snd (foldl discover_resource acc rs))) (r_id r) = Some (r\<lparr>r_synthetic := y\<rparr>)"
  using assms
proof (induction rs arbitrary: acc)
  case (Cons a rs)
  show ?case
  proof (cases "r = a")
    case True
    with Cons.prems have "r_id a \<notin> r_id ` set rs" by simp
    moreover obtain y where "snd (discover_resource acc a) = IngestResourceLocked (a\<lparr>r_synthetic := y\<rparr>) (snd acc)"
      using discover_resource_ingest by blast
    ultimately have "map_of (im_resources (snd (foldl discover_resource acc (a # rs)))) (r_id r) = Some (r\<lparr>r_synthetic := y\<rparr>)"
      using True Cons.prems(3) by (simp add: discover_resources_other ingest_lookup)
    then show ?thesis by blast
  next
    case False
    with Cons show ?thesis by simp
  qed
qed simp

lemma discover_paths_resources: "im_resources (foldl discover_path s ps) = im_resources s"
  by (induction ps arbitrary: s) (auto simp: discover_path_def split: prod.split option.split)

lemma Discover_resource:
  assumes "im_backends s = [b]" "distinct (map r_id (bk_DiscoverResources b))" "r \<in> set (bk_DiscoverResources b)" "IsValid (r_id r)"
  shows "\<exists>y. GetResource (snd (Discover s)) (r_id r) = Some (r\<lparr>r_synthetic := y\<rparr>)"
  using discover_resources_found [OF assms(2-4)] assms(1)
  by (simp add: Discover_def discover_backend_def GetResource_def discover_paths_resources Let_def split: prod.split)
    (metis snd_conv)

section \<open>The topology is fixed\<close>

datatype control =
    Ctl_SetResourceHealth ResourceId ResourceHealth
  | Ctl_SetResourceReachability ResourceId Reachability
  | Ctl_SetResourceGeneration ResourceId ResourceGeneration
  | Ctl_SetResourceUnavailable ResourceId
  | Ctl_SetResourceBack ResourceId
  | Ctl_SetNodeHealth NodeId ResourceHealth
  | Ctl_SetPathAvailable NodeId NodeId bool
  | Ctl_SetPathBandwidth NodeId NodeId double
  | Ctl_SetPathLatency NodeId NodeId double
  | Ctl_RemoveNode NodeId
  | Ctl_ReincarnateNode NodeId NodeGeneration WorkerBootId

fun run_control :: "control \<Rightarrow> SyntheticBackend \<Rightarrow> SyntheticBackend" where
  "run_control (Ctl_SetResourceHealth i h) b = SetResourceHealth i h b"
| "run_control (Ctl_SetResourceReachability i rc) b = SetResourceReachability i rc b"
| "run_control (Ctl_SetResourceGeneration i g) b = SetResourceGeneration i g b"
| "run_control (Ctl_SetResourceUnavailable i) b = SetResourceUnavailable i b"
| "run_control (Ctl_SetResourceBack i) b = SetResourceBack i b"
| "run_control (Ctl_SetNodeHealth i h) b = SetNodeHealth i h b"
| "run_control (Ctl_SetPathAvailable f t a) b = SetPathAvailable f t a b"
| "run_control (Ctl_SetPathBandwidth f t w) b = SetPathBandwidth f t w b"
| "run_control (Ctl_SetPathLatency f t l) b = SetPathLatency f t l b"
| "run_control (Ctl_RemoveNode i) b = RemoveNode i b"
| "run_control (Ctl_ReincarnateNode i g w) b = ReincarnateNode i g w b"

inductive topology :: "SyntheticBackend \<Rightarrow> bool" where
  topology_init: "topology (MakeSyntheticBackend ng)"
| topology_step: "topology b \<Longrightarrow> topology (run_control c b)"

text \<open>What no control function touches: who a resource is, where it is and what it can do.\<close>

definition fixture :: "Resource \<Rightarrow> ResourceId \<times> ResourceClass \<times> NodeId \<times> Capacity \<times> Capability list \<times> FailureDomain" where
  "fixture r = (r_id r, r_resource_class r, r_node_id r, r_capacity r, r_capabilities r, r_failure_domain r)"

definition topology_inv :: "SyntheticBackend \<Rightarrow> bool" where
  "topology_inv b \<longleftrightarrow> map fixture (sb_resources b) = map fixture topology_resources \<and>
     map fst (sb_paths b) = map fst topology_paths \<and>
     distinct (map n_id (sb_nodes b)) \<and> n_id ` set (sb_nodes b) \<subseteq> StrongId ` {1, 2, 3, 4}"

lemma for_resource_fixture:
  "(\<And>r. fixture (f r) = fixture r) \<Longrightarrow> map fixture (sb_resources (for_resource sel f b)) = map fixture (sb_resources b)"
  by (simp add: for_resource_def)

lemma om_put_keys: "om_ok m \<Longrightarrow> map_of m k = Some v \<Longrightarrow> map fst (om_put k w m) = map fst m"
proof (induction k w m rule: om_put.induct)
  case (2 k w a b m)
  have "\<not> k < a"
  proof
    assume "k < a"
    moreover have "k \<in> fst ` set ((a, b) # m)" using 2(3) by (metis fst_conv image_eqI map_of_SomeD)
    ultimately show False using 2(2) by (auto simp: om_ok_def)
  qed
  with 2 show ?case by (auto simp: om_ok_def split: if_splits)
qed simp

lemma for_path_inv:
  "om_ok (sb_paths b) \<Longrightarrow> om_ok (sb_paths (for_path f t g b)) \<and> map fst (sb_paths (for_path f t g b)) = map fst (sb_paths b)"
  by (auto simp: for_path_def om_put_keys om_ok_put split: option.split)

lemma for_path_frame [simp]:
  "sb_resources (for_path f t g b) = sb_resources b" "sb_nodes (for_path f t g b) = sb_nodes b"
  by (simp_all add: for_path_def split: option.split)

lemma for_resource_frame [simp]:
  "sb_nodes (for_resource sel f b) = sb_nodes b" "sb_paths (for_resource sel f b) = sb_paths b"
  by (simp_all add: for_resource_def)

lemma for_node_frame [simp]:
  "sb_resources (for_node i f b) = sb_resources b" "sb_paths (for_node i f b) = sb_paths b"
  by (simp_all add: for_node_def)

lemma for_node_ids: "(\<And>n. n_id (f n) = n_id n) \<Longrightarrow> map n_id (sb_nodes (for_node i f b)) = map n_id (sb_nodes b)"
  by (simp add: for_node_def)

lemmas control_defs = SetResourceHealth_def SetResourceReachability_def SetResourceGeneration_def SetResourceUnavailable_def
  SetResourceBack_def SetNodeHealth_def SetPathAvailable_def SetPathBandwidth_def SetPathLatency_def RemoveNode_def
  ReincarnateNode_def

lemma control_resources: "map fixture (sb_resources (run_control c b)) = map fixture (sb_resources b)"
  by (cases c) (simp_all add: control_defs for_resource_fixture fixture_def evidence_state_def)

lemma control_paths:
  "om_ok (sb_paths b) \<Longrightarrow> om_ok (sb_paths (run_control c b)) \<and> map fst (sb_paths (run_control c b)) = map fst (sb_paths b)"
  by (cases c) (simp_all add: control_defs for_path_inv)

lemma control_nodes: "map n_id (sb_nodes (run_control c b)) = filter (\<lambda>i. \<forall>j. c = Ctl_RemoveNode j \<longrightarrow> i \<noteq> j) (map n_id (sb_nodes b))"
  by (cases c) (simp_all add: control_defs for_node_ids filter_map comp_def)

lemma topology_inv_init: "om_ok (sb_paths (MakeSyntheticBackend ng)) \<and> topology_inv (MakeSyntheticBackend ng)"
proof -
  have "om_ok topology_paths" by code_simp
  moreover have "map n_id (topology_nodes ng) = [StrongId 1, StrongId 2, StrongId 3, StrongId 4]"
    by (simp add: topology_nodes_def node_like_def node_a_def Let_def)
  ultimately show ?thesis by (simp add: MakeSyntheticBackend_def topology_inv_def flip: set_map)
qed

lemma topology_inv_always: "topology b \<Longrightarrow> om_ok (sb_paths b) \<and> topology_inv b"
proof (induction rule: topology.induct)
  case (topology_step b c)
  then have "distinct (map n_id (sb_nodes (run_control c b)))"
      "set (map n_id (sb_nodes (run_control c b))) \<subseteq> StrongId ` {1, 2, 3, 4}"
    unfolding control_nodes topology_inv_def by (auto simp del: map_map)
  with topology_step control_paths show ?case by (auto simp: topology_inv_def control_resources)
qed (rule topology_inv_init)

text \<open>
  No control function changes what the topology is: whatever is simulated, the seven resources keep
  their identities, classes, nodes, capacities, capabilities and failure domains, the table of paths
  keeps its keys, and the nodes are distinct ones among the four of the constructor.
\<close>

theorem topology_fixed: "topology b \<Longrightarrow> topology_inv b"
  by (simp add: topology_inv_always)

theorem topology_fixed_witness:
  "topology_inv (run_control (Ctl_RemoveNode (StrongId 2)) (MakeSyntheticBackend (StrongGeneration 1)))"
  by (rule topology_fixed) (intro topology.intros)

text \<open>
  Paths are directed: making one unavailable stops the backend from answering for exactly that ordered
  pair of nodes.
\<close>

theorem path_loss_directed:
  "ResolvePath (SetPathAvailable f t False b) q = (if pr_from q = f \<and> pr_to q = t then None else ResolvePath b q)"
  by (auto simp: SetPathAvailable_def for_path_def ResolvePath_def path_name_PathKey split: option.split)

section \<open>What the engine learns\<close>

lemma topology_ids:
  assumes "topology b"
  shows "map r_id (sb_resources b) = map StrongId [101, 102, 107, 103, 104, 105, 106]"
proof -
  have ids: "map r_id rs = map fst (map fixture rs)" for rs by (simp add: fixture_def comp_def)
  have "map fixture (sb_resources b) = map fixture topology_resources"
    using topology_inv_always [OF assms] by (simp add: topology_inv_def)
  then have "map r_id (sb_resources b) = map r_id topology_resources" by (simp only: ids)
  then show ?thesis by (simp add: topology_resources_def accelerator_def AddCap_def base_def MakeBase_def Let_def)
qed

text \<open>
  What \<open>FabricEngine::Discover\<close> relies on of a backend: the resources it answers carry identities
  that are valid and pairwise distinct.  \<open>answers\<close> is the backend the engine sees for a state,
  \<open>sound\<close> the states the backend can be in.
\<close>

locale backend_contract =
  fixes answers :: "'b \<Rightarrow> Backend" and sound :: "'b \<Rightarrow> bool"
  assumes ids_distinct: "sound b \<Longrightarrow> distinct (map r_id (bk_DiscoverResources (answers b)))"
    and ids_valid: "sound b \<Longrightarrow> r \<in> set (bk_DiscoverResources (answers b)) \<Longrightarrow> IsValid (r_id r)"
begin

lemma discovered:
  assumes "sound b" "im_backends s = [answers b]" "r \<in> set (bk_DiscoverResources (answers b))"
  shows "\<exists>y. GetResource (snd (Discover s)) (r_id r) = Some (r\<lparr>r_synthetic := y\<rparr>)"
  using assms by (intro Discover_resource [OF assms(2)]) (auto intro: ids_distinct ids_valid)

end

lemma listed_ids_valid:
  assumes "map r_id rs = map StrongId ns" "0 \<notin> set ns" "r \<in> set rs"
  shows "IsValid (r_id r)"
proof -
  have "r_id r \<in> set (map r_id rs)" using assms(3) by simp
  then show ?thesis using assms(2) unfolding assms(1) by (auto simp: IsValid_def)
qed

interpretation synthetic: backend_contract as_backend topology
proof
  fix b assume "topology b"
  note ids = topology_ids [OF this]
  show "distinct (map r_id (bk_DiscoverResources (as_backend b)))"
    by (simp add: as_backend_def DiscoverResources_def ids)
  show "IsValid (r_id r)" if "r \<in> set (bk_DiscoverResources (as_backend b))" for r
    using that by (intro listed_ids_valid [OF ids]) (simp_all add: as_backend_def DiscoverResources_def)
qed

subsection \<open>What a first discovery registers\<close>

lemma um_put_new: "k \<notin> fst ` set m \<Longrightarrow> um_put k v m = m @ [(k, v)]"
  by (induction m) auto

lemma map_of_new: "k \<notin> fst ` set m \<Longrightarrow> map_of m k = None"
  by (simp add: map_of_eq_None_iff)

lemma discover_nodes_new:
  assumes "distinct (map n_id ns)" "\<forall>n \<in> set ns. IsValid (n_id n)" "fst ` set (im_nodes (snd acc)) \<inter> n_id ` set ns = {}"
  shows "snd (foldl discover_node acc ns) = (snd acc)\<lparr>im_nodes := im_nodes (snd acc) @ map (\<lambda>n. (n_id n, n)) ns\<rparr>"
  using assms
proof (induction ns arbitrary: acc)
  case (Cons n ns)
  have new: "n_id n \<notin> fst ` set (im_nodes (snd acc))" using Cons.prems(3) by auto
  then have step: "snd (discover_node acc n) = (snd acc)\<lparr>im_nodes := im_nodes (snd acc) @ [(n_id n, n)]\<rparr>"
    using Cons.prems(2) by (simp add: discover_node_def IngestNodeLocked_def um_put_new map_of_new case_prod_beta Let_def)
  have "fst ` set (im_nodes (snd (discover_node acc n))) \<inter> n_id ` set ns = {}"
    unfolding step using Cons.prems(1,3) by auto
  with Cons.IH [of "discover_node acc n"] Cons.prems(1,2) show ?case by (simp add: step)
qed simp

text \<open>A resource as \<open>Discover\<close> registers it: it takes the node's word for whether it is synthetic.\<close>

definition placed :: "(NodeId, Node) umap \<Rightarrow> Resource \<Rightarrow> Resource" where
  "placed nodes r = (case map_of nodes (r_node_id r) of None \<Rightarrow> r | Some n \<Rightarrow> r\<lparr>r_synthetic := n_synthetic n\<rparr>)"

lemma placed_id [simp]: "r_id (placed nodes r) = r_id r"
  by (simp add: placed_def split: option.split)

lemma discover_resources_new:
  assumes "distinct (map r_id rs)" "\<forall>r \<in> set rs. IsValid (r_id r)" "fst ` set (im_resources (snd acc)) \<inter> r_id ` set rs = {}"
  shows "snd (foldl discover_resource acc rs) =
    (snd acc)\<lparr>im_resources := im_resources (snd acc) @ map (\<lambda>r. (r_id r, placed (im_nodes (snd acc)) r)) rs\<rparr>"
  using assms
proof (induction rs arbitrary: acc)
  case (Cons r rs)
  have new: "r_id r \<notin> fst ` set (im_resources (snd acc))" using Cons.prems(3) by auto
  have "snd (discover_resource acc r) = IngestResourceLocked (placed (im_nodes (snd acc)) r) (snd acc)"
    by (simp add: discover_resource_def placed_def case_prod_beta Let_def)
  also have "\<dots> = (snd acc)\<lparr>im_resources := im_resources (snd acc) @ [(r_id r, placed (im_nodes (snd acc)) r)]\<rparr>"
    using new Cons.prems(2) by (simp add: IngestResourceLocked_def um_put_new map_of_new Let_def)
  finally have step: "snd (discover_resource acc r) = \<dots>" .
  have "fst ` set (im_resources (snd (discover_resource acc r))) \<inter> r_id ` set rs = {}"
    unfolding step using Cons.prems(1,3) by auto
  with Cons.IH [of "discover_resource acc r"] Cons.prems(1,2) show ?case by (simp add: step)
qed simp

lemma discover_path_keeps: "\<exists>x. discover_path s p = s\<lparr>im_paths := x\<rparr>"
proof -
  have "\<exists>x. s = s\<lparr>im_paths := x\<rparr>" by (rule exI [of _ "im_paths s"]) simp
  then show ?thesis by (auto simp: discover_path_def split: prod.split option.split)
qed

lemma discover_paths_keep: "\<exists>x. foldl discover_path s ps = s\<lparr>im_paths := x\<rparr>"
proof (induction ps arbitrary: s)
  case Nil
  show ?case by (rule exI [of _ "im_paths s"]) simp
next
  case (Cons p ps)
  obtain x where "discover_path s p = s\<lparr>im_paths := x\<rparr>" using discover_path_keeps by blast
  with Cons.IH [of "discover_path s p"] show ?case by auto
qed

text \<open>A backend whose first discovery is complete: all nodes and resources have distinct, valid identities.\<close>

locale complete_backend = backend_contract +
  assumes nodes_distinct: "sound b \<Longrightarrow> distinct (map n_id (bk_DiscoverNodes (answers b)))"
    and nodes_valid: "sound b \<Longrightarrow> n \<in> set (bk_DiscoverNodes (answers b)) \<Longrightarrow> IsValid (n_id n)"
begin

lemma first_discovery:
  assumes "sound b" "im_backends s = [answers b]" "im_nodes s = []" "im_resources s = []"
  shows "\<exists>paths. snd (Discover s) =
    (let nodes = map (\<lambda>n. (n_id n, n)) (bk_DiscoverNodes (answers b)) in
     s\<lparr>im_nodes := nodes, im_resources := map (\<lambda>r. (r_id r, placed nodes r)) (bk_DiscoverResources (answers b)), im_paths := paths\<rparr>)"
proof -
  let ?acc = "(\<lparr>dr_nodes = [], dr_resources = []\<rparr>, s)"
  let ?nodes = "map (\<lambda>n. (n_id n, n)) (bk_DiscoverNodes (answers b))"
  have nodes: "snd (foldl discover_node ?acc (bk_DiscoverNodes (answers b))) = s\<lparr>im_nodes := ?nodes\<rparr>"
    using discover_nodes_new [of "bk_DiscoverNodes (answers b)" ?acc] nodes_distinct nodes_valid assms by simp
  have "snd (discover_backend ?acc (answers b)) =
      s\<lparr>im_nodes := ?nodes, im_resources := map (\<lambda>r. (r_id r, placed ?nodes r)) (bk_DiscoverResources (answers b))\<rparr>"
    using discover_resources_new [of "bk_DiscoverResources (answers b)" "foldl discover_node ?acc (bk_DiscoverNodes (answers b))"]
      ids_distinct ids_valid assms nodes by (simp add: discover_backend_def)
  then show ?thesis using discover_paths_keep assms(2)
    by (simp add: Discover_def Let_def case_prod_beta)
qed

end

lemma start_nodes: "map n_id (bk_DiscoverNodes (as_backend (MakeSyntheticBackend g))) = map StrongId [1, 2, 3, 4]"
  by (simp add: as_backend_def DiscoverNodes_def MakeSyntheticBackend_def topology_nodes_def node_a_def node_like_def Let_def)

lemma listed_nodes_valid:
  assumes "map n_id ns = map StrongId is" "0 \<notin> set is" "n \<in> set ns"
  shows "IsValid (n_id n)"
proof -
  have "n_id n \<in> set (map n_id ns)" using assms(3) by simp
  then show ?thesis using assms(2) unfolding assms(1) by (auto simp: IsValid_def)
qed

interpretation synthetic_start: complete_backend "\<lambda>g. as_backend (MakeSyntheticBackend g)" "\<lambda>_. True"
proof
  fix g
  show "distinct (map r_id (bk_DiscoverResources (as_backend (MakeSyntheticBackend g))))"
    by (rule synthetic.ids_distinct [OF topology_init])
  show "IsValid (r_id r)" if "r \<in> set (bk_DiscoverResources (as_backend (MakeSyntheticBackend g)))" for r
    using that by (rule synthetic.ids_valid [OF topology_init])
  show "distinct (map n_id (bk_DiscoverNodes (as_backend (MakeSyntheticBackend g))))" by (simp add: start_nodes)
  show "IsValid (n_id n)" if "n \<in> set (bk_DiscoverNodes (as_backend (MakeSyntheticBackend g)))" for n
    using that by (intro listed_nodes_valid [OF start_nodes]) simp_all
qed

lemma topology_lookup:
  assumes "topology b" "im_backends s = [as_backend b]" "r \<in> set (sb_resources b)"
  shows "\<exists>y. GetResource (snd (Discover s)) (r_id r) = Some (r\<lparr>r_synthetic := y\<rparr>)"
  using assms by (intro synthetic.discovered) (simp_all add: as_backend_def DiscoverResources_def)

text \<open>
  A resource the backend takes offline is out of reach of the planner after the next discovery: the
  engine's entry for it is eligible for no request.
\<close>

theorem unavailable_not_eligible:
  assumes "topology b" "i \<in> r_id ` set (sb_resources b)" "im_backends s = [as_backend (SetResourceUnavailable i b)]"
  shows "\<exists>r. GetResource (snd (Discover s)) i = Some r \<and> (\<forall>req. \<not> eligible r req)"
proof -
  obtain r where r: "r \<in> set (sb_resources b)" "r_id r = i" using assms(2) by blast
  let ?off = "r\<lparr>r_health := RH_OFFLINE, r_reachability := RB_UNREACHABLE, r_readiness := RD_NOT_READY,
     r_evidence := (r_evidence r)\<lparr>ev_state := ES_REVALIDATION_REQUIRED, ev_durable := False\<rparr>\<rparr>"
  have "?off \<in> set (sb_resources (SetResourceUnavailable i b))"
    using r by (force simp: SetResourceUnavailable_def for_resource_def)
  moreover have "topology (SetResourceUnavailable i b)"
    using topology_step [OF assms(1), of "Ctl_SetResourceUnavailable i"] by simp
  ultimately obtain y where "GetResource (snd (Discover s)) i = Some (?off\<lparr>r_synthetic := y\<rparr>)"
    using topology_lookup [OF _ assms(3)] r(2) by fastforce
  moreover have "\<not> eligible (?off\<lparr>r_synthetic := y\<rparr>) req" for req
    by (rule not_current_ineligible) (simp add: IsCurrent_def)
  ultimately show ?thesis by blast
qed

definition ex_fabric :: "SyntheticBackend \<Rightarrow> Impl" where
  "ex_fabric b = AddBackend (Some (as_backend b)) (FabricEngine ex_config)"

lemma ex_fabric_backends: "im_backends (ex_fabric b) = [as_backend b]"
  by (simp add: ex_fabric_def AddBackend_def FabricEngine_def)

theorem unavailable_not_eligible_witness:
  "\<exists>r. GetResource (snd (Discover (ex_fabric (SetResourceUnavailable (StrongId 102) (MakeSyntheticBackend (StrongGeneration 1))))))
      (StrongId 102) = Some r \<and> (\<forall>req. \<not> eligible r req)"
  by (rule unavailable_not_eligible [OF topology_init _ ex_fabric_backends])
    (simp flip: set_map add: topology_ids [OF topology_init])

text \<open>
  As long as the registered generation of a resource is the old one nothing is known; once another one
  was ingested, no composition with the resource is active.
\<close>

definition old_or_demoted :: "ResourceId \<Rightarrow> ResourceGeneration \<Rightarrow> Impl \<Rightarrow> bool" where
  "old_or_demoted i g t \<longleftrightarrow> map_option r_generation (map_of (im_resources t) i) = Some g \<or>
     (\<forall>k c. map_of (im_compositions t) k = Some c \<longrightarrow> is_member i c \<longrightarrow> c_lifecycle c \<noteq> CL_ACTIVE)"

lemma demote_not_active:
  "is_member i (member_demote j c) = is_member i c" "is_member i (generation_demote c) = is_member i c"
  "c_lifecycle (generation_demote c) \<noteq> CL_ACTIVE"
  "is_member i c \<Longrightarrow> c_lifecycle (member_demote i c) \<noteq> CL_ACTIVE"
  "c_lifecycle (member_demote j c) = CL_ACTIVE \<Longrightarrow> c_lifecycle c = CL_ACTIVE"
  by (auto simp: member_demote_def generation_demote_def is_member_def split: if_splits)

lemma old_or_demoted_node: "old_or_demoted i g s \<Longrightarrow> old_or_demoted i g (IngestNodeLocked n s)"
  using IngestNode_compositions [of n s] by (auto simp: old_or_demoted_def demote_not_active)

lemma old_or_demoted_resource:
  assumes "old_or_demoted i g s"
  shows "old_or_demoted i g (IngestResourceLocked r s)"
proof (cases "IsValid (r_id r) \<and> r_id r = i \<and> (\<exists>old. map_of (im_resources s) i = Some old \<and> r_generation old \<noteq> r_generation r)")
  case True
  then have "im_compositions (IngestResourceLocked r s) = um_map_values (member_demote i) (im_compositions s)"
    by (auto simp: IngestResourceLocked_def)
  then show ?thesis by (auto simp: old_or_demoted_def demote_not_active)
next
  case False
  then have "map_option r_generation (map_of (im_resources (IngestResourceLocked r s)) i) = Some g"
    if "map_option r_generation (map_of (im_resources s) i) = Some g"
    using that by (auto simp: ingest_lookup)
  moreover have "im_compositions (IngestResourceLocked r s) = im_compositions s \<or>
      im_compositions (IngestResourceLocked r s) = um_map_values (member_demote (r_id r)) (im_compositions s)"
    by (rule IngestResource_compositions)
  ultimately show ?thesis using assms demote_not_active(1,5) by (auto simp: old_or_demoted_def) (metis | blast)+
qed

text \<open>
  A node that comes back under another generation takes authority away: after the next discovery no
  composition with one of its resources is active.
\<close>

theorem reincarnation_revokes:
  assumes "topology b" "im_backends s = [as_backend (ReincarnateNode (r_node_id r) gen boot b)]"
    and "r \<in> set (sb_resources b)" "GetResource s (r_id r) = Some old" "gen_Value (r_generation old) \<noteq> gen_Value gen"
    and "GetComposition (snd (Discover s)) k = Some c" "is_member (r_id r) c"
  shows "c_lifecycle c \<noteq> CL_ACTIVE"
proof -
  let ?s' = "snd (Discover s)"
  let ?b' = "ReincarnateNode (r_node_id r) gen boot b"
  let ?r' = "r\<lparr>r_generation := StrongGeneration (gen_Value gen), r_health := RH_HEALTHY, r_reachability := RB_REACHABLE,
      r_readiness := RD_READY, r_evidence := (r_evidence r)\<lparr>ev_owner := id_ToString boot, ev_state := ES_FRESH,
        ev_durable := False, ev_max_age_ms := 3600000\<rparr>\<rparr>"
  have "?r' \<in> set (sb_resources ?b')"
    using assms(3) by (force simp: ReincarnateNode_def for_resource_def)
  moreover have "topology ?b'"
    using topology_step [OF assms(1), of "Ctl_ReincarnateNode (r_node_id r) gen boot"] by simp
  ultimately obtain y where new: "GetResource ?s' (r_id r) = Some (?r'\<lparr>r_synthetic := y\<rparr>)"
    using topology_lookup [OF _ assms(2)] by fastforce
  have "old_or_demoted (r_id r) (r_generation old) ?s'"
    by (rule Discover_keeps [OF old_or_demoted_node old_or_demoted_resource])
      (use assms(4) in \<open>simp_all add: old_or_demoted_def GetResource_def\<close>)
  moreover have "r_generation old \<noteq> StrongGeneration (gen_Value gen)" using assms(5) by auto
  ultimately show ?thesis using new assms(6,7) by (simp add: old_or_demoted_def GetResource_def GetComposition_def)
qed

definition ex_reborn :: Impl where
  "ex_reborn = (snd (Discover (ex_fabric (MakeSyntheticBackend (StrongGeneration 1)))))
     \<lparr>im_backends := [as_backend (ReincarnateNode (StrongId 1) (StrongGeneration 2) (StrongId 7)
        (MakeSyntheticBackend (StrongGeneration 1)))],
      im_compositions := [(StrongId 1, Composition_default\<lparr>c_id := StrongId 1, c_lifecycle := CL_ACTIVE,
        c_graph := \<lparr>g_vertices = [StrongId 101], g_edges = []\<rparr>\<rparr>)]\<rparr>"

lemma member_kept_node:
  "\<exists>c. GetComposition s k = Some c \<and> is_member i c \<Longrightarrow> \<exists>c. GetComposition (IngestNodeLocked n s) k = Some c \<and> is_member i c"
  using IngestNode_compositions [of n s] by (auto simp: GetComposition_def demote_not_active)

lemma member_kept_resource:
  "\<exists>c. GetComposition s k = Some c \<and> is_member i c \<Longrightarrow> \<exists>c. GetComposition (IngestResourceLocked r s) k = Some c \<and> is_member i c"
  using IngestResource_compositions [of r s] by (auto simp: GetComposition_def demote_not_active)

theorem reincarnation_revokes_witness:
  "\<exists>c. GetComposition (snd (Discover ex_reborn)) (StrongId 1) = Some c \<and> is_member (StrongId 101) c \<and> c_lifecycle c \<noteq> CL_ACTIVE"
proof -
  let ?b = "MakeSyntheticBackend (StrongGeneration 1)"
  let ?r = "hd topology_resources"
  have r: "?r \<in> set (sb_resources ?b)" "r_id ?r = StrongId 101" "r_node_id ?r = StrongId 1"
    by (simp_all add: MakeSyntheticBackend_def topology_resources_def Let_def AddCap_def base_def MakeBase_def)
  have "im_backends ex_reborn = [as_backend (ReincarnateNode (r_node_id ?r) (StrongGeneration 2) (StrongId 7) ?b)]"
    by (simp add: ex_reborn_def r(3))
  note revoked = reincarnation_revokes [OF topology_init this r(1), unfolded r(2)]
  have "r_generation ?r = StrongGeneration 1"
    by (simp add: topology_resources_def Let_def AddCap_def base_def MakeBase_def)
  with topology_lookup [OF topology_init ex_fabric_backends r(1), unfolded r(2)]
  obtain old where old: "GetResource ex_reborn (StrongId 101) = Some old" "gen_Value (r_generation old) \<noteq> 2"
    by (auto simp: ex_reborn_def GetResource_def)
  have "\<exists>c. GetComposition (snd (Discover ex_reborn)) (StrongId 1) = Some c \<and> is_member (StrongId 101) c"
    by (rule Discover_keeps [OF member_kept_node member_kept_resource])
      (simp_all add: GetComposition_def ex_reborn_def is_member_def)
  then obtain c where "GetComposition (snd (Discover ex_reborn)) (StrongId 1) = Some c" "is_member (StrongId 101) c" by auto
  with revoked old show ?thesis by auto
qed

end
