(* ===== verification/Fabric_System.thy ===== *)
theory Fabric_System
  imports Fabric_Synthetic
begin

text \<open>
  The single-host backend, \<open>backends/system/system_backend.cpp\<close>.  What Windows reports of the host is a
  record.
\<close>

section \<open>The host as a backend\<close>

record HostInfo =
  hi_computer_name :: "string option"
  hi_processors :: u32
  hi_total_phys :: u64
  hi_free_bytes :: u64

record SystemBackend =
  ss_node :: Node
  ss_res :: "Resource list"

definition GetHostName :: "HostInfo \<Rightarrow> string" where
  "GetHostName h = (case hi_computer_name h of Some name \<Rightarrow> name | None \<Rightarrow> ''localhost'')"

definition host_node :: "HostInfo \<Rightarrow> Node" where
  "host_node h = Node_default\<lparr>n_id := StrongId 9000, n_generation := StrongGeneration 1, n_hostname := GetHostName h,
     n_provider := ''windows/host'', n_backend := BK_REAL, n_health := RH_HEALTHY, n_reachability := RB_REACHABLE,
     n_lifecycle := NL_VALIDATED,
     n_failure_domain := FailureDomain_default\<lparr>fd_id := StrongId 9001, fd_type := FD_HOST, fd_name := ''single-host'',
       fd_synthetic := False\<rparr>,
     n_synthetic := False\<rparr>"

definition d_09 :: double where "d_09 = 0x3FECCCCCCCCCCCCD"

definition host_resource :: "Node \<Rightarrow> u64 \<Rightarrow> ResourceClass \<Rightarrow> string \<Rightarrow> Resource" where
  "host_resource node i cls prov = Resource_default\<lparr>r_id := StrongId i, r_generation := StrongGeneration 1, r_resource_class := cls,
     r_node_id := n_id node, r_provider := prov, r_health := RH_HEALTHY, r_readiness := RD_READY,
     r_reachability := RB_REACHABLE,
     r_evidence := Evidence_default\<lparr>ev_id := StrongId (i * 7 + 1), ev_generation := StrongGeneration 1,
       ev_source := SRC_BACKEND, ev_state := ES_FRESH, ev_timestamp_ms := 1000, ev_max_age_ms := 3600000,
       ev_confidence := d_09, ev_provenance := ''system/'' @ prov, ev_durable := True\<rparr>,
     r_synthetic := False, r_failure_domain := n_failure_domain node\<rparr>"

definition MakeSystemBackend :: "HostInfo \<Rightarrow> SystemBackend" where
  "MakeSystemBackend h =
     (let node = host_node h;
          cpu = AddCap CK_HOST_MEMORY_ACCESS CS_SUPPORTED [] (AddCap CK_CPU_EXECUTION CS_SUPPORTED []
            ((host_resource node 9101 RC_COMPUTE ''host/cpu'')
              \<lparr>r_capacity := Capacity_default\<lparr>cp_compute_units := d_of_u64 (ucast (hi_processors h))\<rparr>\<rparr>));
          mem = AddCap CK_HOST_MEMORY_ACCESS CS_SUPPORTED []
            ((host_resource node 9102 RC_HOST_MEMORY ''host/memory'')
              \<lparr>r_capacity := Capacity_default\<lparr>cp_host_memory_bytes := d_of_u64 (hi_total_phys h)\<rparr>\<rparr>);
          stor = AddCap CK_PERSISTENT_STORAGE CS_SUPPORTED []
            ((host_resource node 9103 RC_STORAGE ''host/storage'')
              \<lparr>r_capacity := Capacity_default\<lparr>cp_storage_bytes := d_of_u64 (hi_free_bytes h)\<rparr>\<rparr>);
          nic = AddCap CK_DIRECT_NETWORK_ACCESS CS_SUPPORTED []
            ((host_resource node 9104 RC_NETWORK_ENDPOINT ''host/network'')
              \<lparr>r_capacity := Capacity_default\<lparr>cp_network_bandwidth_mbps := d_1000\<rparr>\<rparr>)
      in \<lparr>ss_node = node, ss_res = [cpu, mem, stor, nic]\<rparr>)"

text \<open>
  \<open>snprintf\<close> into 256 bytes keeps the first 255 characters; a host name holds no zero character.
\<close>

definition system_Describe :: "SystemBackend \<Rightarrow> string" where
  "system_Describe b = take 255 (''system host='' @ n_hostname (ss_node b) @ '' resources='' @ size_string (length (ss_res b)))"

definition system_backend :: "SystemBackend \<Rightarrow> Backend" where
  "system_backend b = \<lparr>bk_kind = BK_REAL, bk_name = ''system'', bk_DiscoverNodes = [ss_node b],
     bk_DiscoverResources = ss_res b, bk_ResolvePath = (\<lambda>_. None), bk_SupportsRealExecution = True\<rparr>"

lemmas host_defs = MakeSystemBackend_def host_resource_def host_node_def AddCap_def Let_def

lemma host_ids: "map r_id (ss_res (MakeSystemBackend h)) = map StrongId [9101, 9102, 9103, 9104]"
  by (simp add: host_defs)

interpretation host: complete_backend "\<lambda>h. system_backend (MakeSystemBackend h)" "\<lambda>_. True"
proof
  fix h
  show "distinct (map r_id (bk_DiscoverResources (system_backend (MakeSystemBackend h))))"
    by (simp add: system_backend_def host_ids)
  show "IsValid (r_id r)" if "r \<in> set (bk_DiscoverResources (system_backend (MakeSystemBackend h)))" for r
    using that by (intro listed_ids_valid [OF host_ids]) (simp_all add: system_backend_def)
  show "distinct (map n_id (bk_DiscoverNodes (system_backend (MakeSystemBackend h))))" by (simp add: system_backend_def)
  show "IsValid (n_id n)" if "n \<in> set (bk_DiscoverNodes (system_backend (MakeSystemBackend h)))" for n
    using that by (simp add: system_backend_def host_defs IsValid_def)
qed

lemma host_state:
  "\<forall>r \<in> set (ss_res (MakeSystemBackend h)). r_node_id r = StrongId 9000 \<and> r_health r = RH_HEALTHY \<and>
     r_readiness r = RD_READY \<and> r_reachability r = RB_REACHABLE \<and> IsCurrent (r_evidence r) \<and> r_resource_class r \<noteq> RC_ACCELERATOR"
  by (simp add: host_defs IsCurrent_def)

lemma host_supported:
  "\<forall>r \<in> set (ss_res (MakeSystemBackend h)). fst (scan_capabilities r (ClassCapabilityKinds (r_resource_class r)) (False, False, False))"
  by (simp add: host_defs scan_capabilities_def FindCapability_def Resource_default_def)

text \<open>
  Whatever the host reports, everything the single-host backend publishes can be planned with: after
  discovery each of its resources is registered on the one node of the host and is eligible for every
  request.
\<close>

theorem host_resources_eligible:
  assumes "im_backends s = [system_backend (MakeSystemBackend h)]" "r \<in> set (ss_res (MakeSystemBackend h))"
  shows "\<exists>q. GetResource (snd (Discover s)) (r_id r) = Some q \<and> r_node_id q = StrongId 9000 \<and> (\<forall>req. eligible q req)"
proof -
  have answered: "r \<in> set (bk_DiscoverResources (system_backend (MakeSystemBackend h)))"
    using assms(2) by (simp add: system_backend_def)
  have valid: "IsValid (r_id r)" using answered by (intro host.ids_valid) simp_all
  have "\<exists>y. GetResource (snd (Discover s)) (r_id r) = Some (r\<lparr>r_synthetic := y\<rparr>)"
    using answered by (intro host.discovered [OF _ assms(1)]) simp_all
  then obtain y where y: "GetResource (snd (Discover s)) (r_id r) = Some (r\<lparr>r_synthetic := y\<rparr>)" by blast
  have "scan_capabilities (r\<lparr>r_synthetic := y\<rparr>) = scan_capabilities r"
    by (simp add: fun_eq_iff scan_capabilities_def FindCapability_def)
  then have "eligible (r\<lparr>r_synthetic := y\<rparr>) req" for req
    using host_state [of h] host_supported [of h] assms(2) valid
    by (auto simp: ResourceEligible_def accepted_def Let_def split: prod.split)
  with y host_state [of h] assms(2) show ?thesis by simp
qed

definition ex_host :: HostInfo where
  "ex_host = \<lparr>hi_computer_name = None, hi_processors = 8, hi_total_phys = 1024, hi_free_bytes = 0\<rparr>"

theorem host_resources_eligible_witness:
  "\<exists>q. GetResource (snd (Discover (AddBackend (Some (system_backend (MakeSystemBackend ex_host))) (FabricEngine ex_config)))) (StrongId 9101)
     = Some q \<and> r_node_id q = StrongId 9000 \<and> (\<forall>req. eligible q req)"
proof -
  let ?r = "hd (ss_res (MakeSystemBackend ex_host))"
  have "?r \<in> set (ss_res (MakeSystemBackend ex_host))" by (simp add: MakeSystemBackend_def Let_def)
  moreover have "r_id ?r = StrongId 9101" by (simp add: host_defs)
  ultimately show ?thesis
    using host_resources_eligible [of "AddBackend (Some (system_backend (MakeSystemBackend ex_host))) (FabricEngine ex_config)" ex_host ?r]
    by (simp add: AddBackend_def FabricEngine_def)
qed

end
