(* ===== verification/Fabric_Protocol.thy ===== *)
theory Fabric_Protocol
  imports Fabric_Bytes
begin

text \<open>
  The framed TCP protocol: \<open>include/dfabric/protocol.hpp\<close> and \<open>src/dfabric/protocol.cpp\<close>.
  A decoder is its buffer; \<open>Feed\<close> appends a chunk and decodes as many complete frames as the
  buffer holds, so that any splitting of a byte stream into chunks decodes to the same frames.
\<close>

section \<open>Frame types\<close>

datatype FrameType =
    FT_HELLO | FT_REGISTER | FT_PUBLISH_NODE | FT_PUBLISH_RESOURCE | FT_HEARTBEAT | FT_COMPOSE_REQ
  | FT_RESERVE_REQ | FT_COMMIT_REQ | FT_ACTIVATE_REQ | FT_QUERY_STATE | FT_ACK | FT_NACK | FT_COMPOSE_RESP
  | FT_RESERVE_RESP | FT_COMMIT_RESP | FT_ACTIVATE_RESP | FT_STATE_RESP | FT_ERR | FT_BYE | FT_SAVE_REQ
  | FT_SAVE_RESP | FT_RELEASE_REQ | FT_RELEASE_RESP

fun FrameType_value :: "FrameType \<Rightarrow> u32" where
  "FrameType_value FT_HELLO = 1"
| "FrameType_value FT_REGISTER = 2"
| "FrameType_value FT_PUBLISH_NODE = 3"
| "FrameType_value FT_PUBLISH_RESOURCE = 4"
| "FrameType_value FT_HEARTBEAT = 5"
| "FrameType_value FT_COMPOSE_REQ = 6"
| "FrameType_value FT_RESERVE_REQ = 7"
| "FrameType_value FT_COMMIT_REQ = 8"
| "FrameType_value FT_ACTIVATE_REQ = 9"
| "FrameType_value FT_QUERY_STATE = 10"
| "FrameType_value FT_ACK = 11"
| "FrameType_value FT_NACK = 12"
| "FrameType_value FT_COMPOSE_RESP = 13"
| "FrameType_value FT_RESERVE_RESP = 14"
| "FrameType_value FT_COMMIT_RESP = 15"
| "FrameType_value FT_ACTIVATE_RESP = 16"
| "FrameType_value FT_STATE_RESP = 17"
| "FrameType_value FT_ERR = 18"
| "FrameType_value FT_BYE = 19"
| "FrameType_value FT_SAVE_REQ = 20"
| "FrameType_value FT_SAVE_RESP = 21"
| "FrameType_value FT_RELEASE_REQ = 22"
| "FrameType_value FT_RELEASE_RESP = 23"

definition FrameType_table :: "FrameType list" where
  "FrameType_table =
     [FT_HELLO, FT_REGISTER, FT_PUBLISH_NODE, FT_PUBLISH_RESOURCE, FT_HEARTBEAT, FT_COMPOSE_REQ,
      FT_RESERVE_REQ, FT_COMMIT_REQ, FT_ACTIVATE_REQ, FT_QUERY_STATE, FT_ACK, FT_NACK, FT_COMPOSE_RESP,
      FT_RESERVE_RESP, FT_COMMIT_RESP, FT_ACTIVATE_RESP, FT_STATE_RESP, FT_ERR, FT_BYE, FT_SAVE_REQ,
      FT_SAVE_RESP, FT_RELEASE_REQ, FT_RELEASE_RESP]"

fun FrameType_ToString :: "FrameType \<Rightarrow> string" where
  "FrameType_ToString FT_HELLO = ''HELLO''"
| "FrameType_ToString FT_REGISTER = ''REGISTER''"
| "FrameType_ToString FT_PUBLISH_NODE = ''PUBLISH_NODE''"
| "FrameType_ToString FT_PUBLISH_RESOURCE = ''PUBLISH_RESOURCE''"
| "FrameType_ToString FT_HEARTBEAT = ''HEARTBEAT''"
| "FrameType_ToString FT_COMPOSE_REQ = ''COMPOSE_REQ''"
| "FrameType_ToString FT_RESERVE_REQ = ''RESERVE_REQ''"
| "FrameType_ToString FT_COMMIT_REQ = ''COMMIT_REQ''"
| "FrameType_ToString FT_ACTIVATE_REQ = ''ACTIVATE_REQ''"
| "FrameType_ToString FT_QUERY_STATE = ''QUERY_STATE''"
| "FrameType_ToString FT_ACK = ''ACK''"
| "FrameType_ToString FT_NACK = ''NACK''"
| "FrameType_ToString FT_COMPOSE_RESP = ''COMPOSE_RESP''"
| "FrameType_ToString FT_RESERVE_RESP = ''RESERVE_RESP''"
| "FrameType_ToString FT_COMMIT_RESP = ''COMMIT_RESP''"
| "FrameType_ToString FT_ACTIVATE_RESP = ''ACTIVATE_RESP''"
| "FrameType_ToString FT_STATE_RESP = ''STATE_RESP''"
| "FrameType_ToString FT_ERR = ''ERROR''"
| "FrameType_ToString FT_BYE = ''BYE''"
| "FrameType_ToString FT_SAVE_REQ = ''SAVE_REQ''"
| "FrameType_ToString FT_SAVE_RESP = ''SAVE_RESP''"
| "FrameType_ToString FT_RELEASE_REQ = ''RELEASE_REQ''"
| "FrameType_ToString FT_RELEASE_RESP = ''RELEASE_RESP''"

fun MaxFrameLen :: "FrameType \<Rightarrow> u32" where
  "MaxFrameLen FT_HELLO = 4096"
| "MaxFrameLen FT_REGISTER = 4096"
| "MaxFrameLen FT_PUBLISH_NODE = 65536"
| "MaxFrameLen FT_PUBLISH_RESOURCE = 65536"
| "MaxFrameLen FT_HEARTBEAT = 256"
| "MaxFrameLen FT_COMPOSE_REQ = 8192"
| "MaxFrameLen FT_RESERVE_REQ = 262144"
| "MaxFrameLen FT_COMMIT_REQ = 8192"
| "MaxFrameLen FT_ACTIVATE_REQ = 8192"
| "MaxFrameLen FT_QUERY_STATE = 1024"
| "MaxFrameLen FT_ACK = 1024"
| "MaxFrameLen FT_NACK = 4096"
| "MaxFrameLen FT_COMPOSE_RESP = 524288"
| "MaxFrameLen FT_RESERVE_RESP = 524288"
| "MaxFrameLen FT_COMMIT_RESP = 524288"
| "MaxFrameLen FT_ACTIVATE_RESP = 524288"
| "MaxFrameLen FT_STATE_RESP = 524288"
| "MaxFrameLen FT_ERR = 4096"
| "MaxFrameLen FT_BYE = 256"
| "MaxFrameLen FT_SAVE_REQ = 1024"
| "MaxFrameLen FT_SAVE_RESP = 4096"
| "MaxFrameLen FT_RELEASE_REQ = 1024"
| "MaxFrameLen FT_RELEASE_RESP = 1024"

text \<open>
  \<open>static_cast<FrameType>\<close> of a raw value that names no enumerator is \<open>None\<close>; \<open>MaxFrameLen\<close>
  of such a value is the fall-through 0.
\<close>

definition frame_type_of :: "u32 \<Rightarrow> FrameType option" where
  "frame_type_of v = List.find (\<lambda>t. FrameType_value t = v) FrameType_table"

definition MaxFrameLen_raw :: "u32 \<Rightarrow> u32" where
  "MaxFrameLen_raw v = (case frame_type_of v of None \<Rightarrow> 0 | Some t \<Rightarrow> MaxFrameLen t)"

definition GlobalMaxFrameLen :: u32 where
  "GlobalMaxFrameLen =
     foldl (\<lambda>m v. let x = MaxFrameLen_raw (word_of_nat v) in if m < x then x else m) 0 [1..<24]"

definition kFrameMagic :: u32 where "kFrameMagic = 0x31465044"
definition kFrameVersion :: u8 where "kFrameVersion = 1"
definition kHeaderLen :: nat where "kHeaderLen = 4 + 1 + 4 + 8 + 4"

record Frame =
  fr_type :: FrameType
  fr_correlation :: u64
  fr_payload :: bytes

section \<open>Encoding\<close>

definition frame_header :: "FrameType \<Rightarrow> u64 \<Rightarrow> nat \<Rightarrow> bytes" where
  "frame_header type correlation payload_len =
     PutU32 kFrameMagic @ [kFrameVersion] @ PutU32 (FrameType_value type) @ PutU64 correlation @
     PutU32 (word_of_nat payload_len)"

definition Encode :: "FrameType \<Rightarrow> u64 \<Rightarrow> bytes \<Rightarrow> bytes" where
  "Encode type correlation payload =
     (let max_len = MaxFrameLen type in
      if max_len = 0 \<or> unat max_len < length payload then []
      else let v = frame_header type correlation (length payload) @ payload
           in v @ PutU64 (Fnv v))"

section \<open>Decoding\<close>

datatype parse_result = Need_More | Bad_Frame string | Got_Frame Frame nat

text \<open>One turn of the decoding loop on a buffer.\<close>

definition parse_frame :: "bytes \<Rightarrow> parse_result" where
  "parse_frame buffer =
     (if length buffer < kHeaderLen then Need_More
      else if GetU32 buffer 0 \<noteq> kFrameMagic then Bad_Frame ''bad frame magic''
      else if buffer ! 4 \<noteq> kFrameVersion then Bad_Frame ''unsupported frame version''
      else case frame_type_of (GetU32 buffer 5) of
        None \<Rightarrow> Bad_Frame ''unknown frame type''
      | Some type \<Rightarrow>
        (let max_len = MaxFrameLen type; payLen = GetU32 buffer 17 in
         if max_len = 0 then Bad_Frame ''unknown frame type''
         else if max_len < payLen \<or> GlobalMaxFrameLen < payLen then Bad_Frame ''oversized frame''
         else let total_len = kHeaderLen + unat payLen + 8 in
           if length buffer < total_len then Need_More
           else if GetU64 buffer (kHeaderLen + unat payLen) \<noteq> Fnv (take (kHeaderLen + unat payLen) buffer)
             then Bad_Frame ''frame checksum mismatch''
           else Got_Frame \<lparr>fr_type = type, fr_correlation = GetU64 buffer 9,
                  fr_payload = take (unat payLen) (drop kHeaderLen buffer)\<rparr> total_len))"

record feed_result =
  fe_ok :: bool
  fe_buffer :: bytes
  fe_frames :: "Frame list"
  fe_err :: string

lemma parse_frame_total:
  "parse_frame buffer = Got_Frame f total_len \<Longrightarrow> kHeaderLen < total_len \<and> total_len \<le> length buffer"
  by (auto simp: parse_frame_def Let_def kHeaderLen_def split: if_splits option.splits)

function feed_loop :: "bytes \<Rightarrow> Frame list \<Rightarrow> feed_result" where
  "feed_loop buffer out =
     (case parse_frame buffer of
        Need_More \<Rightarrow> \<lparr>fe_ok = True, fe_buffer = buffer, fe_frames = out, fe_err = []\<rparr>
      | Bad_Frame err \<Rightarrow> \<lparr>fe_ok = False, fe_buffer = buffer, fe_frames = out, fe_err = err\<rparr>
      | Got_Frame f total_len \<Rightarrow> feed_loop (drop total_len buffer) (out @ [f]))"
  by pat_completeness auto
termination
  by (relation "measure (\<lambda>(buffer, out). length buffer)") (auto dest: parse_frame_total simp: kHeaderLen_def)

declare feed_loop.simps [simp del]

text \<open>\<open>Feed\<close> on a decoder with the given buffer; the frames are those appended to \<open>out\<close>.\<close>

definition Feed :: "bytes \<Rightarrow> bytes \<Rightarrow> feed_result" where
  "Feed buffer data = feed_loop (buffer @ data) []"

definition HasPartial :: "bytes \<Rightarrow> bool" where
  "HasPartial buffer \<longleftrightarrow> buffer \<noteq> []"

definition BufferedBytes :: "bytes \<Rightarrow> nat" where
  "BufferedBytes buffer = length buffer"

section \<open>The type table\<close>

lemma FrameType_value_inject: "FrameType_value a = FrameType_value b \<Longrightarrow> a = b"
  by (cases a; cases b) simp_all

lemma FrameType_table_all: "t \<in> set FrameType_table"
  by (cases t) (simp_all add: FrameType_table_def)

lemma frame_type_of_value [simp]: "frame_type_of (FrameType_value t) = Some t"
proof -
  have "frame_type_of (FrameType_value t) \<noteq> None"
    using FrameType_table_all [of t] by (auto simp: frame_type_of_def find_None_iff)
  then obtain t' where t': "frame_type_of (FrameType_value t) = Some t'" by blast
  then have "FrameType_value t' = FrameType_value t" by (auto simp: frame_type_of_def find_Some_iff)
  with t' FrameType_value_inject show ?thesis by auto
qed

lemma frame_type_of_Some: "frame_type_of v = Some t \<Longrightarrow> v = FrameType_value t"
  by (auto simp: frame_type_of_def find_Some_iff)

lemma GlobalMaxFrameLen_eq: "GlobalMaxFrameLen = 524288"
  by code_simp

lemma MaxFrameLen_bounds: "0 < MaxFrameLen t" "MaxFrameLen t \<le> 524288"
  by (cases t; simp)+

section \<open>Decoding what was encoded\<close>

definition fits :: "Frame \<Rightarrow> bool" where
  "fits f \<longleftrightarrow> length (fr_payload f) \<le> unat (MaxFrameLen (fr_type f))"

abbreviation encode_frame :: "Frame \<Rightarrow> bytes" where
  "encode_frame f \<equiv> Encode (fr_type f) (fr_correlation f) (fr_payload f)"

definition frame_body :: "Frame \<Rightarrow> bytes" where
  "frame_body f = frame_header (fr_type f) (fr_correlation f) (length (fr_payload f)) @ fr_payload f"

lemma length_frame_header [simp]: "length (frame_header t c n) = kHeaderLen"
  by (simp add: frame_header_def kHeaderLen_def)

lemma encode_fits: "fits f \<Longrightarrow> encode_frame f = frame_body f @ PutU64 (Fnv (frame_body f))"
  using MaxFrameLen_bounds(1) [of "fr_type f"] by (auto simp: Encode_def fits_def frame_body_def Let_def)

lemma encode_oversized: "\<not> fits f \<Longrightarrow> encode_frame f = []"
  by (simp add: Encode_def fits_def Let_def)

lemma header_fields:
  "GetU32 (frame_header t c n @ rest) 0 = kFrameMagic"
  "(frame_header t c n @ rest) ! 4 = kFrameVersion"
  "GetU32 (frame_header t c n @ rest) 5 = FrameType_value t"
  "GetU64 (frame_header t c n @ rest) 9 = c"
  "GetU32 (frame_header t c n @ rest) 17 = word_of_nat n"
proof -
  let ?h1 = "PutU32 kFrameMagic @ [kFrameVersion]"
  let ?h2 = "?h1 @ PutU32 (FrameType_value t)" let ?h3 = "?h2 @ PutU64 c"
  show "GetU32 (frame_header t c n @ rest) 0 = kFrameMagic"
    using GetU32_Put [of "[]" kFrameMagic] by (simp add: frame_header_def)
  show "(frame_header t c n @ rest) ! 4 = kFrameVersion" by (simp add: frame_header_def nth_append)
  show "GetU32 (frame_header t c n @ rest) 5 = FrameType_value t"
    using GetU32_Put [of ?h1 "FrameType_value t"] by (simp add: frame_header_def)
  show "GetU64 (frame_header t c n @ rest) 9 = c"
    using GetU64_Put [of ?h2 c] by (simp add: frame_header_def)
  show "GetU32 (frame_header t c n @ rest) 17 = word_of_nat n"
    using GetU32_Put [of ?h3 "word_of_nat n"] by (simp add: frame_header_def)
qed

lemma fits_length:
  assumes "fits f"
  shows "unat (word_of_nat (length (fr_payload f)) :: u32) = length (fr_payload f)"
    "\<not> MaxFrameLen (fr_type f) < word_of_nat (length (fr_payload f))"
    "\<not> GlobalMaxFrameLen < word_of_nat (length (fr_payload f))"
proof -
  have le: "length (fr_payload f) \<le> unat (MaxFrameLen (fr_type f))" using assms by (simp add: fits_def)
  also have "\<dots> < 2 ^ LENGTH(32)" by (rule unsigned_less)
  finally show len: "unat (word_of_nat (length (fr_payload f)) :: u32) = length (fr_payload f)"
    by (simp add: unsigned_of_nat take_bit_nat_eq_self)
  then show fit: "\<not> MaxFrameLen (fr_type f) < word_of_nat (length (fr_payload f))"
    using le by (simp add: word_less_nat_alt)
  then show "\<not> GlobalMaxFrameLen < word_of_nat (length (fr_payload f))"
    using MaxFrameLen_bounds(2) [of "fr_type f"] unfolding GlobalMaxFrameLen_eq by simp
qed

lemma parse_encoded:
  assumes f: "fits f"
  shows "parse_frame (encode_frame f @ rest) = Got_Frame f (length (encode_frame f))"
proof -
  let ?n = "length (fr_payload f)" and ?b = "frame_body f"
  have enc: "encode_frame f @ rest = ?b @ PutU64 (Fnv ?b) @ rest" by (simp add: encode_fits [OF f])
  have len: "length ?b = kHeaderLen + ?n" by (simp add: frame_body_def)
  have sum: "GetU64 (?b @ PutU64 (Fnv ?b) @ rest) (kHeaderLen + ?n) = Fnv ?b"
    using GetU64_Put [of ?b "Fnv ?b" rest] by (simp add: len)
  have body: "?b @ PutU64 (Fnv ?b) @ rest =
      frame_header (fr_type f) (fr_correlation f) ?n @ (fr_payload f @ PutU64 (Fnv ?b) @ rest)"
    by (simp add: frame_body_def)
  have pos: "MaxFrameLen (fr_type f) \<noteq> 0" using MaxFrameLen_bounds(1) [of "fr_type f"] by auto
  note fields = header_fields [of "fr_type f" "fr_correlation f" ?n "fr_payload f @ PutU64 (Fnv ?b) @ rest",
      folded body]
  have "parse_frame (?b @ PutU64 (Fnv ?b) @ rest) =
      Got_Frame \<lparr>fr_type = fr_type f, fr_correlation = fr_correlation f,
        fr_payload = take ?n (drop kHeaderLen (?b @ PutU64 (Fnv ?b) @ rest))\<rparr> (kHeaderLen + ?n + 8)"
    unfolding parse_frame_def fields frame_type_of_value Let_def option.case fits_length(1) [OF f] sum
    using len fits_length(2,3) [OF f] pos by simp
  moreover have "take ?n (drop kHeaderLen (?b @ PutU64 (Fnv ?b) @ rest)) = fr_payload f"
    by (simp add: body del: append_assoc)
  ultimately show ?thesis using len unfolding enc by (simp add: encode_fits [OF f])
qed

lemma feed_loop_frames:
  "\<forall>f \<in> set fs. fits f \<Longrightarrow>
     feed_loop (concat (map encode_frame fs) @ rest) out = feed_loop rest (out @ fs)"
proof (induction fs arbitrary: out)
  case (Cons f fs)
  have "parse_frame (concat (map encode_frame (f # fs)) @ rest) = Got_Frame f (length (encode_frame f))"
    using parse_encoded [of f "concat (map encode_frame fs) @ rest"] Cons.prems by simp
  with Cons show ?case by (subst feed_loop.simps) simp
qed simp

section \<open>Chunks\<close>

lemma parse_append:
  assumes "kHeaderLen \<le> length b"
  shows "GetU32 (b @ d) 0 = GetU32 b 0" "(b @ d) ! 4 = b ! 4" "GetU32 (b @ d) 5 = GetU32 b 5"
    "GetU64 (b @ d) 9 = GetU64 b 9" "GetU32 (b @ d) 17 = GetU32 b 17"
  using assms by (simp_all add: kHeaderLen_def GetU32_append GetU64_append nth_append)

lemma parse_stable:
  assumes "parse_frame b \<noteq> Need_More"
  shows "parse_frame (b @ d) = parse_frame b"
proof -
  have hdr: "\<not> length b < kHeaderLen" using assms by (auto simp: parse_frame_def)
  then have le: "kHeaderLen \<le> length b" by simp
  define n where "n = kHeaderLen + unat (GetU32 b 17)"
  have full: "GetU64 (b @ d) n = GetU64 b n" "take n (b @ d) = take n b"
      "take (unat (GetU32 b 17)) (drop kHeaderLen (b @ d)) = take (unat (GetU32 b 17)) (drop kHeaderLen b)"
    if "\<not> length b < n + 8"
    using that by (auto simp: GetU64_append n_def)
  show ?thesis
    using assms hdr full unfolding parse_frame_def parse_append [OF le] Let_def n_def [symmetric]
    by (auto split: option.splits if_splits)
qed

lemma feed_loop_append:
  "feed_loop (b @ d) out =
     (let r = feed_loop b out in
      if fe_ok r then feed_loop (fe_buffer r @ d) (fe_frames r) else r\<lparr>fe_buffer := fe_buffer r @ d\<rparr>)"
proof (induction b out rule: feed_loop.induct)
  case (1 b out)
  show ?case
  proof (cases "parse_frame b")
    case Need_More
    then show ?thesis by (simp add: feed_loop.simps [of b])
  next
    case (Bad_Frame err)
    then show ?thesis using parse_stable [of b d] by (simp add: feed_loop.simps [of b] feed_loop.simps [of "b @ d"])
  next
    case (Got_Frame f n)
    then have "drop n (b @ d) = drop n b @ d" using parse_frame_total [of b f n] by simp
    then show ?thesis
      using 1 [OF Got_Frame] Got_Frame parse_stable [of b d]
      by (simp add: feed_loop.simps [of b] feed_loop.simps [of "b @ d"])
  qed
qed

lemma feed_loop_out: "feed_loop b out = (feed_loop b [])\<lparr>fe_frames := out @ fe_frames (feed_loop b [])\<rparr>"
proof (induction b arbitrary: out rule: measure_induct_rule [where f = length])
  case (less b)
  show ?case
  proof (cases "parse_frame b")
    case (Got_Frame f n)
    have small: "length (drop n b) < length b" using parse_frame_total [OF Got_Frame] by (auto simp: kHeaderLen_def)
    have "feed_loop b out = feed_loop (drop n b) (out @ [f])" "feed_loop b [] = feed_loop (drop n b) [f]"
      using Got_Frame by (simp_all add: feed_loop.simps [of b])
    with less.IH [OF small, of "out @ [f]"] less.IH [OF small, of "[f]"] show ?thesis by simp
  qed (simp_all add: feed_loop.simps [of b])
qed

lemma feed_loop_buffer: "fe_ok (feed_loop b out) \<Longrightarrow> parse_frame (fe_buffer (feed_loop b out)) = Need_More"
proof (induction b out rule: feed_loop.induct)
  case (1 b out)
  then show ?case by (cases "parse_frame b") (auto simp: feed_loop.simps [of b])
qed

text \<open>A receiver that feeds chunk after chunk until one is rejected.\<close>

fun feed_chunks :: "bytes \<Rightarrow> bytes list \<Rightarrow> feed_result" where
  "feed_chunks buffer [] = \<lparr>fe_ok = True, fe_buffer = buffer, fe_frames = [], fe_err = []\<rparr>"
| "feed_chunks buffer (data # rest) =
     (let r = Feed buffer data in
      if \<not> fe_ok r then r
      else let r' = feed_chunks (fe_buffer r) rest in r'\<lparr>fe_frames := fe_frames r @ fe_frames r'\<rparr>)"

lemma feed_chunks_whole:
  assumes "parse_frame buffer = Need_More"
  shows "fe_ok (feed_chunks buffer chunks) = fe_ok (Feed buffer (concat chunks)) \<and>
    fe_frames (feed_chunks buffer chunks) = fe_frames (Feed buffer (concat chunks)) \<and>
    fe_err (feed_chunks buffer chunks) = fe_err (Feed buffer (concat chunks))"
  using assms
proof (induction chunks arbitrary: buffer)
  case Nil
  then show ?case by (simp add: Feed_def feed_loop.simps)
next
  case (Cons data chunks)
  let ?r = "feed_loop (buffer @ data) []"
  have whole: "feed_loop (buffer @ data @ concat chunks) [] =
      (if fe_ok ?r then feed_loop (fe_buffer ?r @ concat chunks) (fe_frames ?r)
       else ?r\<lparr>fe_buffer := fe_buffer ?r @ concat chunks\<rparr>)"
    using feed_loop_append [of "buffer @ data" "concat chunks" "[]"] by (simp add: Let_def)
  show ?case
  proof (cases "fe_ok ?r")
    case True
    have "parse_frame (fe_buffer ?r) = Need_More" using True by (rule feed_loop_buffer)
    note ih = Cons.IH [OF this]
    have "feed_loop (fe_buffer ?r @ concat chunks) (fe_frames ?r) =
        (Feed (fe_buffer ?r) (concat chunks))\<lparr>fe_frames := fe_frames ?r @ fe_frames (Feed (fe_buffer ?r) (concat chunks))\<rparr>"
      unfolding Feed_def by (rule feed_loop_out)
    with True whole ih show ?thesis by (simp add: Feed_def Let_def)
  next
    case False
    with whole show ?thesis by (simp add: Feed_def Let_def)
  qed
qed

lemma need_more_bound: "parse_frame b = Need_More \<Longrightarrow> length b < kHeaderLen + 524288 + 8"
proof -
  assume need: "parse_frame b = Need_More"
  show ?thesis
  proof (cases "length b < kHeaderLen")
    case False
    with need have "length b < kHeaderLen + unat (GetU32 b 17) + 8" "\<not> GlobalMaxFrameLen < GetU32 b 17"
      by (auto simp: parse_frame_def Let_def split: if_splits option.splits)
    then show ?thesis unfolding GlobalMaxFrameLen_eq by (simp add: word_less_nat_alt)
  qed simp
qed

section \<open>Corruption\<close>

lemma parse_no_frame_on_bad_sum:
  assumes "length b = kHeaderLen + unat (GetU32 b 17) + 8" "\<not> GlobalMaxFrameLen < GetU32 b 17"
    and "GetU64 b (kHeaderLen + unat (GetU32 b 17)) \<noteq> Fnv (take (kHeaderLen + unat (GetU32 b 17)) b)"
  shows "\<exists>err. parse_frame b = Bad_Frame err"
  using assms by (simp add: parse_frame_def Let_def split: option.split)

text \<open>
  One changed byte anywhere outside the length field is rejected: in the header or payload
  the checksum differs, in the checksum the stored value differs.
\<close>

lemma corrupted_rejected:
  assumes f: "fits f" and i: "i < length (encode_frame f)" "i \<notin> {17..<21}" and b: "b \<noteq> encode_frame f ! i"
  shows "\<exists>err. parse_frame ((encode_frame f)[i := b]) = Bad_Frame err"
proof -
  let ?e = "encode_frame f" let ?n = "kHeaderLen + length (fr_payload f)" let ?d = "?e[i := b]"
  have enc: "?e = frame_body f @ PutU64 (Fnv (frame_body f))" by (rule encode_fits [OF f])
  have body: "length (frame_body f) = ?n" by (simp add: frame_body_def)
  have "GetU32 ?d 17 = GetU32 ?e 17" by (rule GetU32_cong) (use i(2) in \<open>auto simp: nth_list_update\<close>)
  also have "\<dots> = word_of_nat (length (fr_payload f))"
    unfolding enc frame_body_def append_assoc by (rule header_fields(5))
  finally have pay: "GetU32 ?d 17 = word_of_nat (length (fr_payload f))" .
  have "GetU64 ?d ?n \<noteq> Fnv (take ?n ?d)" using trailer_detects [OF enc i(1) b] body by simp
  moreover have "length ?d = ?n + 8" using body by (simp add: enc)
  ultimately show ?thesis
    using fits_length [OF f] by (intro parse_no_frame_on_bad_sum) (simp_all add: pay)
qed

section \<open>Correctness of the decoder\<close>

definition ex_frames :: "Frame list" where
  "ex_frames = [\<lparr>fr_type = FT_HELLO, fr_correlation = 1, fr_payload = [1, 2, 3]\<rparr>,
     \<lparr>fr_type = FT_HEARTBEAT, fr_correlation = 2, fr_payload = []\<rparr>]"

lemma ex_frames_fit: "\<forall>f \<in> set ex_frames. fits f"
  by code_simp

text \<open>
  C28. Round trip: a stream of encoded frames, each within the limit of its type, is decoded to
  exactly these frames in order, and nothing is left in the buffer.
\<close>

theorem stream_round_trip:
  assumes "\<forall>f \<in> set fs. fits f"
  shows "Feed [] (concat (map encode_frame fs)) = \<lparr>fe_ok = True, fe_buffer = [], fe_frames = fs, fe_err = []\<rparr>"
  using feed_loop_frames [OF assms, of "[]" "[]"] by (simp add: Feed_def feed_loop.simps parse_frame_def kHeaderLen_def)

theorem stream_round_trip_witness:
  "Feed [] (concat (map encode_frame ex_frames)) = \<lparr>fe_ok = True, fe_buffer = [], fe_frames = ex_frames, fe_err = []\<rparr>"
  by (rule stream_round_trip [OF ex_frames_fit])

text \<open>
  C29. Chunking is invisible: however a byte stream is cut into chunks, feeding them one by one
  gives the verdict, the frames and the error message of feeding the whole stream at once.
\<close>

theorem chunking_invisible:
  "fe_ok (feed_chunks [] chunks) = fe_ok (Feed [] (concat chunks)) \<and>
   fe_frames (feed_chunks [] chunks) = fe_frames (Feed [] (concat chunks)) \<and>
   fe_err (feed_chunks [] chunks) = fe_err (Feed [] (concat chunks))"
  by (rule feed_chunks_whole) (simp add: parse_frame_def kHeaderLen_def)

text \<open>
  C31. The decoder's memory is bounded: whatever the peer sends, the bytes kept after an accepted
  chunk are fewer than a header, the largest payload and a checksum.
\<close>

theorem decoder_buffer_bounded:
  assumes "fe_ok (Feed buffer data)"
  shows "length (fe_buffer (Feed buffer data)) < kHeaderLen + unat GlobalMaxFrameLen + 8"
  using need_more_bound [OF feed_loop_buffer [OF assms [unfolded Feed_def]]] unfolding Feed_def GlobalMaxFrameLen_eq by simp

theorem decoder_buffer_bounded_witness:
  "length (fe_buffer (Feed [] (take 25 (encode_frame (hd ex_frames))))) < kHeaderLen + unat GlobalMaxFrameLen + 8"
  by (rule decoder_buffer_bounded) code_simp

text \<open>
  C30. Corruption is caught: a change of any one byte of an encoded frame outside its length field
  makes the decoder reject the stream without delivering a frame.
\<close>

theorem corruption_rejected:
  assumes "fits f" "i < length (encode_frame f)" "i \<notin> {17..<21}" "b \<noteq> encode_frame f ! i"
  shows "\<not> fe_ok (Feed [] ((encode_frame f)[i := b])) \<and> fe_frames (Feed [] ((encode_frame f)[i := b])) = []"
  using corrupted_rejected [OF assms] by (auto simp: Feed_def feed_loop.simps)

theorem corruption_rejected_witness:
  "\<not> fe_ok (Feed [] ((encode_frame (hd ex_frames))[22 := 77])) \<and>
   fe_frames (Feed [] ((encode_frame (hd ex_frames))[22 := 77])) = []"
  by (rule corruption_rejected) code_simp+

text \<open>
  Hostile headers are refused early: as soon as the header bytes are there, a wrong magic or
  version, an unknown type, or a length above the limit of its type makes the decoder reject, no
  matter which bytes follow.
\<close>

theorem bad_header_rejected:
  assumes "kHeaderLen \<le> length hdr"
    and "GetU32 hdr 0 \<noteq> kFrameMagic \<or> hdr ! 4 \<noteq> kFrameVersion \<or>
      MaxFrameLen_raw (GetU32 hdr 5) = 0 \<or> MaxFrameLen_raw (GetU32 hdr 5) < GetU32 hdr 17"
  shows "\<not> fe_ok (Feed [] (hdr @ rest)) \<and> fe_frames (Feed [] (hdr @ rest)) = []"
proof -
  have "\<exists>err. parse_frame hdr = Bad_Frame err"
    using assms MaxFrameLen_bounds(1)
    by (cases "frame_type_of (GetU32 hdr 5)") (auto simp: parse_frame_def MaxFrameLen_raw_def Let_def)
  then have "\<exists>err. parse_frame (hdr @ rest) = Bad_Frame err" using parse_stable [of hdr rest] by auto
  then show ?thesis by (auto simp: Feed_def feed_loop.simps)
qed

theorem bad_header_rejected_witness:
  "\<not> fe_ok (Feed [] ((take 21 (encode_frame (hd ex_frames)))[4 := 0] @ [1, 2])) \<and>
   fe_frames (Feed [] ((take 21 (encode_frame (hd ex_frames)))[4 := 0] @ [1, 2])) = []"
  by (rule bad_header_rejected) code_simp+

end
