(* ===== verification/Fabric_Sockets.thy ===== *)
theory Fabric_Sockets
  imports Fabric_Clib
begin

text \<open>
  \<open>include/dfabric/socket.hpp\<close>: the wrappers \<open>TcpSocket\<close> and \<open>ServerSocket\<close> around Winsock, and the send
  loop of the two processes.  The operating system is its set of open handles and a log of the calls
  of \<open>closesocket\<close>; what a call of Winsock answers is an argument of the operation that makes the
  call.  A wrapper object is its one field \<open>s_\<close>.  Last come programs that use such objects in any
  order, and that none of them loses or doubles a handle.
\<close>

section \<open>Handles and the operating system\<close>

type_synonym SOCKET = u64

definition INVALID_SOCKET :: SOCKET where "INVALID_SOCKET = - 1"

text \<open>
  \<open>ws_closed\<close> logs every handle given to \<open>closesocket\<close> with whether it was open then; \<open>ws_port\<close> is the
  port a handle was bound to.
\<close>

record Winsock =
  ws_open :: "SOCKET set"
  ws_closed :: "(SOCKET \<times> bool) list"
  ws_port :: "SOCKET \<rightharpoonup> 16 word"
  ws_nonblocking :: "SOCKET set"

definition opened :: "SOCKET \<Rightarrow> Winsock \<Rightarrow> Winsock" where
  "opened s os = (if s = INVALID_SOCKET then os else os\<lparr>ws_open := insert s (ws_open os)\<rparr>)"

definition closesocket :: "SOCKET \<Rightarrow> Winsock \<Rightarrow> Winsock" where
  "closesocket s os = os\<lparr>ws_open := ws_open os - {s}, ws_closed := ws_closed os @ [(s, s \<in> ws_open os)],
     ws_port := (ws_port os)(s := None), ws_nonblocking := ws_nonblocking os - {s}\<rparr>"

text \<open>\<open>ioctlsocket(s, FIONBIO, &nb)\<close>; its answer \<open>granted\<close> is not looked at.\<close>

definition set_nonblocking :: "bool \<Rightarrow> SOCKET \<Rightarrow> Winsock \<Rightarrow> Winsock" where
  "set_nonblocking granted s os = (if granted then os\<lparr>ws_nonblocking := insert s (ws_nonblocking os)\<rparr> else os)"

definition WsaError :: "int \<Rightarrow> string" where
  "WsaError e = ''winsock error '' @ int_string e"

section \<open>TcpSocket\<close>

type_synonym TcpSocket = SOCKET

definition TcpSocket_default :: TcpSocket where "TcpSocket_default = INVALID_SOCKET"

definition tcp_Valid :: "TcpSocket \<Rightarrow> bool" where "tcp_Valid s \<longleftrightarrow> s \<noteq> INVALID_SOCKET"

text \<open>\<open>Close\<close>, which the destructor calls too: the field afterwards and the operating system.\<close>

definition socket_Close :: "SOCKET \<Rightarrow> Winsock \<Rightarrow> SOCKET \<times> Winsock" where
  "socket_Close s os = (if s \<noteq> INVALID_SOCKET then (INVALID_SOCKET, closesocket s os) else (s, os))"

text \<open>The move constructor: the new object, and what it leaves of the old one.\<close>

definition tcp_move :: "TcpSocket \<Rightarrow> TcpSocket \<times> TcpSocket" where
  "tcp_move other = (other, INVALID_SOCKET)"

text \<open>The move assignment to another object: both fields afterwards.\<close>

definition tcp_assign :: "TcpSocket \<Rightarrow> TcpSocket \<Rightarrow> Winsock \<Rightarrow> TcpSocket \<times> TcpSocket \<times> Winsock" where
  "tcp_assign this other os = (other, INVALID_SOCKET, snd (socket_Close this os))"

text \<open>One entry of the list \<open>getaddrinfo\<close> returns: what \<open>socket\<close> and then \<open>connect\<close> answer for it.\<close>

record attempt =
  at_socket :: SOCKET
  at_connects :: bool

fun connect_loop :: "attempt list \<Rightarrow> SOCKET \<Rightarrow> Winsock \<Rightarrow> SOCKET \<times> Winsock" where
  "connect_loop [] s os = (s, os)"
| "connect_loop (a # as) s os =
     (let s1 = at_socket a; os1 = opened s1 os in
      if s1 = INVALID_SOCKET then connect_loop as s1 os1
      else if at_connects a then (s1, os1)
      else connect_loop as INVALID_SOCKET (closesocket s1 os1))"

record connect_answers =
  ca_resolve :: "string \<Rightarrow> string \<Rightarrow> attempt list option"
  ca_error :: int
  ca_nonblocking :: bool

definition Connect :: "connect_answers \<Rightarrow> string \<Rightarrow> int \<Rightarrow> Winsock \<Rightarrow> (string + TcpSocket) \<times> Winsock" where
  "Connect ans host port os =
     (case ca_resolve ans host (int_string port) of
        None \<Rightarrow> (Inl (''getaddrinfo failed: '' @ WsaError (ca_error ans)), os)
      | Some addresses \<Rightarrow>
        (let (s, os1) = connect_loop addresses INVALID_SOCKET os in
         if s = INVALID_SOCKET then (Inl (''connect failed: '' @ WsaError (ca_error ans)), os1)
         else (Inr s, set_nonblocking (ca_nonblocking ans) s os1)))"

section \<open>ServerSocket\<close>

type_synonym ServerSocket = SOCKET

record listen_answers =
  la_socket :: SOCKET
  la_binds :: bool
  la_listens :: bool
  la_nonblocking :: bool

text \<open>
  \<open>Listen\<close>: its result, the field \<open>s_\<close> and the operating system.  The field is overwritten whatever it
  held, keeps the handle when \<open>bind\<close> or \<open>listen\<close> fails, and the port is cut to 16 bits.
\<close>

definition Listen :: "listen_answers \<Rightarrow> int \<Rightarrow> Winsock \<Rightarrow> bool \<times> ServerSocket \<times> Winsock" where
  "Listen ans port os =
     (let s = la_socket ans; os1 = opened s os in
      if s = INVALID_SOCKET then (False, s, os1)
      else if \<not> la_binds ans then (False, s, os1)
      else let os2 = os1\<lparr>ws_port := (ws_port os1)(s \<mapsto> word_of_int port)\<rparr> in
        if \<not> la_listens ans then (False, s, os2)
        else (True, s, set_nonblocking (la_nonblocking ans) s os2))"

definition Accept :: "SOCKET \<Rightarrow> bool \<Rightarrow> Winsock \<Rightarrow> TcpSocket \<times> Winsock" where
  "Accept cs granted os =
     (if cs = INVALID_SOCKET then (TcpSocket_default, os)
      else (cs, set_nonblocking granted cs (opened cs os)))"

section \<open>Programs with sockets\<close>

datatype holder = Tcp nat | Server nat

record Sockets =
  sk_obj :: "holder \<rightharpoonup> SOCKET"
  sk_os :: Winsock

definition no_sockets :: Sockets where
  "no_sockets = \<lparr>sk_obj = Map.empty, sk_os = \<lparr>ws_open = {}, ws_closed = [], ws_port = Map.empty, ws_nonblocking = {}\<rparr>\<rparr>"

text \<open>
  What a program can do with the wrappers; the first number names the object that is made or changed.
  \<open>Op_Listen\<close> and the two operations on an existing object need it to be there, a constructor needs
  the name to be free.
\<close>

datatype sock_op =
    Op_Default holder
  | Op_Connect nat connect_answers string int
  | Op_Listen nat listen_answers int
  | Op_Accept nat SOCKET bool
  | Op_Move nat nat
  | Op_Assign nat nat
  | Op_Close holder
  | Op_Destroy holder

fun sock_step :: "sock_op \<Rightarrow> Sockets \<Rightarrow> Sockets option" where
  "sock_step (Op_Default x) k =
     (if sk_obj k x = None then Some (k\<lparr>sk_obj := (sk_obj k)(x \<mapsto> TcpSocket_default)\<rparr>) else None)"
| "sock_step (Op_Connect n ans host port) k =
     (if sk_obj k (Tcp n) = None
      then case Connect ans host port (sk_os k) of
          (Inl _, os) \<Rightarrow> Some (k\<lparr>sk_os := os\<rparr>)
        | (Inr s, os) \<Rightarrow> Some (k\<lparr>sk_obj := (sk_obj k)(Tcp n \<mapsto> s), sk_os := os\<rparr>)
      else None)"
| "sock_step (Op_Listen n ans port) k =
     (if sk_obj k (Server n) = None then None
      else let (_, s, os) = Listen ans port (sk_os k) in
        Some (k\<lparr>sk_obj := (sk_obj k)(Server n \<mapsto> s), sk_os := os\<rparr>))"
| "sock_step (Op_Accept n cs granted) k =
     (if sk_obj k (Tcp n) = None
      then let (s, os) = Accept cs granted (sk_os k) in Some (k\<lparr>sk_obj := (sk_obj k)(Tcp n \<mapsto> s), sk_os := os\<rparr>)
      else None)"
| "sock_step (Op_Move n m) k =
     (case sk_obj k (Tcp m) of
        None \<Rightarrow> None
      | Some s \<Rightarrow> if sk_obj k (Tcp n) \<noteq> None then None
          else let (new, old) = tcp_move s in Some (k\<lparr>sk_obj := (sk_obj k)(Tcp m \<mapsto> old, Tcp n \<mapsto> new)\<rparr>))"
| "sock_step (Op_Assign n m) k =
     (case (sk_obj k (Tcp n), sk_obj k (Tcp m)) of
        (Some this, Some other) \<Rightarrow>
          if n = m then Some k
          else let (s, old, os) = tcp_assign this other (sk_os k) in
            Some (k\<lparr>sk_obj := (sk_obj k)(Tcp m \<mapsto> old, Tcp n \<mapsto> s), sk_os := os\<rparr>)
      | _ \<Rightarrow> None)"
| "sock_step (Op_Close x) k =
     (case sk_obj k x of
        None \<Rightarrow> None
      | Some s \<Rightarrow> let (s', os) = socket_Close s (sk_os k) in Some (k\<lparr>sk_obj := (sk_obj k)(x \<mapsto> s'), sk_os := os\<rparr>))"
| "sock_step (Op_Destroy x) k =
     (case sk_obj k x of
        None \<Rightarrow> None
      | Some s \<Rightarrow> Some (k\<lparr>sk_obj := (sk_obj k)(x := None), sk_os := snd (socket_Close s (sk_os k))\<rparr>))"

text \<open>What Winsock promises: a handle it hands out is not open already.\<close>

definition unused :: "SOCKET \<Rightarrow> Winsock \<Rightarrow> bool" where
  "unused s os \<longleftrightarrow> s = INVALID_SOCKET \<or> s \<notin> ws_open os"

fun answers_fresh :: "sock_op \<Rightarrow> Winsock \<Rightarrow> bool" where
  "answers_fresh (Op_Connect n ans host port) os =
     (case ca_resolve ans host (int_string port) of None \<Rightarrow> True | Some as \<Rightarrow> list_all (\<lambda>a. unused (at_socket a) os) as)"
| "answers_fresh (Op_Listen n ans port) os = unused (la_socket ans) os"
| "answers_fresh (Op_Accept n cs granted) os = unused cs os"
| "answers_fresh _ os = True"

text \<open>What the wrappers ask of a program: no server object listens while it holds a handle.\<close>

fun listens_once :: "sock_op \<Rightarrow> Sockets \<Rightarrow> bool" where
  "listens_once (Op_Listen n ans port) k = (sk_obj k (Server n) = Some INVALID_SOCKET)"
| "listens_once _ k = True"

inductive sockets :: "Sockets \<Rightarrow> bool" where
  sockets_init: "sockets no_sockets"
| sockets_step: "sockets k \<Longrightarrow> answers_fresh op (sk_os k) \<Longrightarrow> listens_once op k \<Longrightarrow> sock_step op k = Some k' \<Longrightarrow> sockets k'"

text \<open>The handles the objects hold, that no two objects hold the same one, and that no closed handle was closed again.\<close>

definition owned :: "(holder \<rightharpoonup> SOCKET) \<Rightarrow> SOCKET set" where
  "owned obj = ran obj - {INVALID_SOCKET}"

definition sole :: "(holder \<rightharpoonup> SOCKET) \<Rightarrow> bool" where
  "sole obj \<longleftrightarrow> (\<forall>x y h. obj x = Some h \<longrightarrow> obj y = Some h \<longrightarrow> h \<noteq> INVALID_SOCKET \<longrightarrow> x = y)"

definition closes_good :: "Winsock \<Rightarrow> bool" where
  "closes_good os \<longleftrightarrow> (\<forall>(h, good) \<in> set (ws_closed os). good)"

definition handles_owned :: "(holder \<rightharpoonup> SOCKET) \<Rightarrow> Winsock \<Rightarrow> bool" where
  "handles_owned obj os \<longleftrightarrow> ws_open os = owned obj \<and> sole obj \<and> closes_good os"

section \<open>Sending and receiving\<close>

datatype os_answer = Count nat | Socket_Error int

definition WSAEWOULDBLOCK :: int where "WSAEWOULDBLOCK = 10035"

definition SendSome :: "int \<Rightarrow> os_answer \<Rightarrow> int" where
  "SendSome len ans =
     (if len \<le> 0 then 0
      else case ans of
        Socket_Error e \<Rightarrow> if e = WSAEWOULDBLOCK then 0 else - 1
      | Count r \<Rightarrow> int r)"

definition RecvSome :: "os_answer \<Rightarrow> int" where
  "RecvSome ans =
     (case ans of
        Socket_Error e \<Rightarrow> if e = WSAEWOULDBLOCK then - 2 else - 1
      | Count r \<Rightarrow> int r)"

text \<open>
  The loop \<open>for (off = 0; off < size; ) { sr = SendSome(data + off, size - off); ... }\<close> of the coordinator
  and the worker, on the answers of the operating system: \<open>Sent_All\<close> when it ends, \<open>Send_Failed\<close> at
  an error, and \<open>Still_Sending\<close> when the answers run out, each with the number of bytes that went out.
\<close>

datatype send_outcome = Sent_All nat | Send_Failed nat | Still_Sending nat

fun send_loop :: "nat \<Rightarrow> nat \<Rightarrow> os_answer list \<Rightarrow> send_outcome" where
  "send_loop total_len off [] = (if off < total_len then Still_Sending off else Sent_All off)"
| "send_loop total_len off (a # as) =
     (if \<not> off < total_len then Sent_All off
      else let sr = SendSome (int (total_len - off)) a in
        if sr < 0 then Send_Failed off
        else send_loop total_len (if 0 < sr then off + nat sr else off) as)"

text \<open>What Winsock documents of \<open>send\<close>: it never reports more than it was given.\<close>

fun answers_ok :: "nat \<Rightarrow> nat \<Rightarrow> os_answer list \<Rightarrow> bool" where
  "answers_ok total_len off [] = True"
| "answers_ok total_len off (a # as) =
     (case a of Count r \<Rightarrow> off + r \<le> total_len \<and> answers_ok total_len (off + r) as | Socket_Error e \<Rightarrow> answers_ok total_len off as)"

definition accepted_bytes :: "os_answer list \<Rightarrow> nat" where
  "accepted_bytes as = sum_list (map (\<lambda>a. case a of Count r \<Rightarrow> r | Socket_Error _ \<Rightarrow> 0) as)"

definition hard_error :: "os_answer \<Rightarrow> bool" where
  "hard_error a \<longleftrightarrow> (\<exists>e. a = Socket_Error e \<and> e \<noteq> WSAEWOULDBLOCK)"

lemma send_loop_progress:
  "answers_ok total_len off as \<Longrightarrow> \<forall>a \<in> set as. \<not> hard_error a \<Longrightarrow> off \<le> total_len \<Longrightarrow> total_len \<le> off + accepted_bytes as \<Longrightarrow>
    send_loop total_len off as = Sent_All total_len"
  by (induction as arbitrary: off)
    (auto simp: accepted_bytes_def hard_error_def SendSome_def Let_def split: os_answer.splits)

text \<open>
  The send loop delivers: as long as the network reports no error other than that it would block, and
  accepts the frame's bytes in whatever portions, the loop ends and has sent exactly the whole frame.
\<close>

theorem send_loop_delivers:
  assumes "answers_ok total_len 0 as" "\<forall>a \<in> set as. \<not> hard_error a" "total_len \<le> accepted_bytes as"
  shows "send_loop total_len 0 as = Sent_All total_len"
  using send_loop_progress [of total_len 0 as] assms by simp

theorem send_loop_delivers_witness:
  "send_loop 10 0 [Count 4, Socket_Error 10035, Count 0, Count 6] = Sent_All 10"
  by (rule send_loop_delivers) (simp_all add: hard_error_def WSAEWOULDBLOCK_def accepted_bytes_def)

section \<open>No handle is lost\<close>

lemma nonblocking_keeps [simp]:
  "ws_open (set_nonblocking g s os) = ws_open os" "ws_closed (set_nonblocking g s os) = ws_closed os"
  by (simp_all add: set_nonblocking_def)

lemma opened_keeps [simp]:
  "ws_open (opened s os) = (if s = INVALID_SOCKET then ws_open os else insert s (ws_open os))"
  "ws_closed (opened s os) = ws_closed os"
  by (simp_all add: opened_def)

lemma handles_cong:
  "ws_open os' = ws_open os \<Longrightarrow> ws_closed os' = ws_closed os \<Longrightarrow> handles_owned obj os' = handles_owned obj os"
  by (simp add: handles_owned_def closes_good_def)

lemma owned_valid [simp]: "INVALID_SOCKET \<notin> owned obj"
  by (simp add: owned_def)

lemma owned_add:
  assumes "obj x = None \<or> obj x = Some INVALID_SOCKET"
  shows "owned (obj(x \<mapsto> s)) = (if s = INVALID_SOCKET then owned obj else insert s (owned obj))"
  using assms by (auto simp: owned_def ran_def) (metis option.distinct(1) option.inject)+

lemma sole_add:
  assumes "sole obj" "s = INVALID_SOCKET \<or> s \<notin> owned obj"
  shows "sole (obj(x \<mapsto> s))"
  using assms by (auto simp: sole_def owned_def ran_def)

lemma owned_drop:
  assumes "sole obj" "obj x = Some s" "v = None \<or> v = Some INVALID_SOCKET"
  shows "owned (obj(x := v)) = owned obj - {s}"
  using assms unfolding owned_def ran_def sole_def by (auto split: if_splits) (metis option.inject)+

lemma sole_drop: "sole obj \<Longrightarrow> v = None \<or> v = Some INVALID_SOCKET \<Longrightarrow> sole (obj(x := v))"
  unfolding sole_def by (auto split: if_splits)

text \<open>An object that holds nothing takes over a handle that has just been opened.\<close>

lemma handles_adopt:
  assumes "handles_owned obj os" "unused s os" "obj x = None \<or> obj x = Some INVALID_SOCKET"
  shows "handles_owned (obj(x \<mapsto> s)) (opened s os)"
  using assms(1,2) sole_add [of obj s x] owned_add [of obj x s, OF assms(3)]
  by (simp add: handles_owned_def unused_def closes_good_def)

lemma handles_close:
  assumes "handles_owned obj os" "obj x = Some s" "v = None \<or> v = Some INVALID_SOCKET"
  shows "handles_owned (obj(x := v)) (snd (socket_Close s os))"
proof -
  have "s \<noteq> INVALID_SOCKET \<Longrightarrow> s \<in> owned obj" using assms(2) by (auto simp: owned_def ran_def)
  with assms sole_drop [of obj v x] owned_drop [of obj x s v] show ?thesis
    by (auto simp: handles_owned_def socket_Close_def closesocket_def closes_good_def)
qed

lemma handles_transfer:
  assumes "handles_owned obj os" "obj x = Some s" "obj y = None \<or> obj y = Some INVALID_SOCKET" "x \<noteq> y"
  shows "handles_owned (obj(x \<mapsto> INVALID_SOCKET, y \<mapsto> s)) os"
proof -
  let ?obj = "obj(x \<mapsto> INVALID_SOCKET)"
  have sole: "sole ?obj" and drop: "owned ?obj = owned obj - {s}"
    using assms(1,2) sole_drop [of obj _ x] owned_drop [of obj x s] by (simp_all add: handles_owned_def)
  have "s \<noteq> INVALID_SOCKET \<Longrightarrow> s \<in> owned obj" using assms(2) by (auto simp: owned_def ran_def)
  moreover have "owned (?obj(y \<mapsto> s)) = (if s = INVALID_SOCKET then owned ?obj else insert s (owned ?obj))"
    using assms(3,4) by (intro owned_add) auto
  ultimately show ?thesis using assms(1) sole_add [OF sole, of s y] drop by (auto simp: handles_owned_def)
qed

text \<open>The loop over the addresses leaves at most the handle it returns open, and closes the others once.\<close>

lemma connect_loop_handles:
  assumes "list_all (\<lambda>a. unused (at_socket a) os) as" "s = INVALID_SOCKET" "connect_loop as s os = (s', os')"
  shows "unused s' os \<and> ws_open os' = ws_open (opened s' os) \<and> (closes_good os \<longrightarrow> closes_good os')"
  using assms
proof (induction as arbitrary: s os)
  case Nil
  then show ?case by (simp add: unused_def)
next
  case (Cons a as)
  let ?s = "at_socket a" let ?os = "closesocket ?s (opened ?s os)"
  show ?case
  proof (cases "?s = INVALID_SOCKET")
    case True
    with Cons.prems(3) have "connect_loop as INVALID_SOCKET os = (s', os')" by (simp add: Let_def opened_def)
    with Cons.prems(1) show ?thesis by (intro Cons.IH [OF _ refl]) simp_all
  next
    case open1: False
    show ?thesis
    proof (cases "at_connects a")
      case True
      with open1 Cons.prems(3) have "s' = ?s" "os' = opened ?s os" by (auto simp: Let_def)
      with Cons.prems(1) show ?thesis by (simp add: closes_good_def)
    next
      case False
      have same: "ws_open ?os = ws_open os" "ws_closed ?os = ws_closed os @ [(?s, True)]"
        using Cons.prems(1) open1 by (auto simp: closesocket_def unused_def)
      have "list_all (\<lambda>a. unused (at_socket a) ?os) as" using Cons.prems(1) same(1) by (simp add: unused_def)
      moreover have "connect_loop as INVALID_SOCKET ?os = (s', os')" using Cons.prems(3) open1 False by (simp add: Let_def)
      ultimately show ?thesis using Cons.IH [of ?os INVALID_SOCKET] same by (simp add: unused_def closes_good_def)
    qed
  qed
qed

lemma handles_connect:
  assumes "handles_owned obj os" "answers_fresh (Op_Connect n ans host port) os" "Connect ans host port os = (r, os')"
  shows "case r of Inl _ \<Rightarrow> handles_owned obj os' | Inr s \<Rightarrow> obj x = None \<longrightarrow> handles_owned (obj(x \<mapsto> s)) os'"
proof (cases "ca_resolve ans host (int_string port)")
  case None
  with assms show ?thesis by (auto simp: Connect_def)
next
  case (Some as)
  obtain s os1 where loop: "connect_loop as INVALID_SOCKET os = (s, os1)" by fastforce
  have fresh: "list_all (\<lambda>a. unused (at_socket a) os) as" using assms(2) Some by simp
  note left = connect_loop_handles [OF fresh refl loop]
  have grow: "handles_owned obj' (opened s os) \<Longrightarrow> handles_owned obj' os1" for obj'
    using left by (simp add: handles_owned_def closes_good_def)
  have result: "(r, os') = (if s = INVALID_SOCKET then (Inl (''connect failed: '' @ WsaError (ca_error ans)), os1)
      else (Inr s, set_nonblocking (ca_nonblocking ans) s os1))"
    unfolding assms(3) [symmetric] by (simp add: Connect_def Some loop)
  show ?thesis
  proof (cases "s = INVALID_SOCKET")
    case True
    then have "handles_owned obj os1" using grow assms(1) by (simp add: opened_def)
    with True result show ?thesis by simp
  next
    case False
    have "handles_owned (obj(x \<mapsto> s)) os1" if "obj x = None"
      by (rule grow, rule handles_adopt [OF assms(1)]) (use left that in simp_all)
    with False result show ?thesis by (simp add: handles_cong [of "set_nonblocking _ _ _"])
  qed
qed

lemma handles_listen:
  assumes "handles_owned obj os" "unused (la_socket ans) os" "obj x = Some INVALID_SOCKET" "Listen ans port os = (b, s, os')"
  shows "handles_owned (obj(x \<mapsto> s)) os'"
proof -
  have "s = la_socket ans" "ws_open os' = ws_open (opened s os)" "ws_closed os' = ws_closed (opened s os)"
    using assms(4) by (auto simp: Listen_def Let_def split: if_splits)
  with handles_adopt [of obj os s x] assms show ?thesis by (simp add: handles_owned_def closes_good_def)
qed

lemma handles_accept:
  assumes "handles_owned obj os" "unused cs os" "obj x = None" "Accept cs granted os = (s, os')"
  shows "handles_owned (obj(x \<mapsto> s)) os'"
proof -
  have "s = cs" "ws_open os' = ws_open (opened cs os)" "ws_closed os' = ws_closed (opened cs os)"
    using assms(4) by (auto simp: Accept_def TcpSocket_default_def split: if_splits)
  with handles_adopt [of obj os cs x] assms show ?thesis by (simp add: handles_owned_def closes_good_def)
qed

lemma handles_step:
  assumes "handles_owned (sk_obj k) (sk_os k)" "answers_fresh op (sk_os k)" "listens_once op k" "sock_step op k = Some k'"
  shows "handles_owned (sk_obj k') (sk_os k')"
proof (cases op)
  case (Op_Default x)
  with assms handles_adopt [of "sk_obj k" "sk_os k" INVALID_SOCKET x] show ?thesis
    by (auto simp: TcpSocket_default_def unused_def opened_def split: if_splits)
next
  case (Op_Connect n ans host port)
  obtain r os where c: "Connect ans host port (sk_os k) = (r, os)" by fastforce
  from handles_connect [OF assms(1) assms(2) [unfolded Op_Connect] c, of "Tcp n"] c assms(4) Op_Connect show ?thesis
    by (auto split: if_splits sum.splits)
next
  case (Op_Listen n ans port)
  obtain b s os where l: "Listen ans port (sk_os k) = (b, s, os)" by (cases "Listen ans port (sk_os k)") auto
  from handles_listen [OF assms(1) _ _ l, of "Server n"] assms l Op_Listen show ?thesis by (auto split: if_splits)
next
  case (Op_Accept n cs granted)
  obtain s os where a: "Accept cs granted (sk_os k) = (s, os)" by fastforce
  from handles_accept [OF assms(1) _ _ a, of "Tcp n"] assms a Op_Accept show ?thesis by (auto split: if_splits)
next
  case (Op_Move n m)
  then obtain s where s: "sk_obj k (Tcp m) = Some s" "sk_obj k (Tcp n) = None"
    "k' = k\<lparr>sk_obj := (sk_obj k)(Tcp m \<mapsto> INVALID_SOCKET, Tcp n \<mapsto> s)\<rparr>"
    using assms(4) by (auto simp: tcp_move_def split: option.splits if_splits)
  then have "m \<noteq> n" by auto
  with handles_transfer [OF assms(1) s(1), of "Tcp n"] s show ?thesis by simp
next
  case (Op_Assign n m)
  show ?thesis
  proof (cases "n = m")
    case True
    with Op_Assign assms show ?thesis by (auto split: option.splits)
  next
    case False
    with Op_Assign obtain this other where o: "sk_obj k (Tcp n) = Some this" "sk_obj k (Tcp m) = Some other"
      "k' = k\<lparr>sk_obj := (sk_obj k)(Tcp m \<mapsto> INVALID_SOCKET, Tcp n \<mapsto> other), sk_os := snd (socket_Close this (sk_os k))\<rparr>"
      using assms(4) by (auto simp: tcp_assign_def split: option.splits)
    let ?obj = "(sk_obj k)(Tcp n \<mapsto> INVALID_SOCKET)"
    have "handles_owned ?obj (snd (socket_Close this (sk_os k)))" using handles_close [OF assms(1) o(1)] by simp
    from handles_transfer [OF this, of "Tcp m" other "Tcp n"] False o show ?thesis by (simp add: fun_upd_twist)
  qed
next
  case (Op_Close x)
  then obtain s where s: "sk_obj k x = Some s" using assms(4) by (auto split: option.splits)
  have "fst (socket_Close s (sk_os k)) = INVALID_SOCKET" by (simp add: socket_Close_def)
  with handles_close [OF assms(1) s] s Op_Close assms(4) show ?thesis by (auto split: prod.splits)
next
  case (Op_Destroy x)
  then obtain s where s: "sk_obj k x = Some s" using assms(4) by (auto split: option.splits)
  with handles_close [OF assms(1) s] Op_Destroy assms(4) show ?thesis by auto
qed

lemma sockets_owned: "sockets k \<Longrightarrow> handles_owned (sk_obj k) (sk_os k)"
proof (induction rule: sockets.induct)
  case sockets_init
  show ?case by (simp add: handles_owned_def no_sockets_def owned_def sole_def closes_good_def)
next
  case (sockets_step k op k')
  then show ?case using handles_step by blast
qed


text \<open>A second \<open>Listen\<close> overwrites the handle of the first, which stays open with no owner.\<close>

lemma second_listen_leaks:
  assumes "sk_obj k = [Server n \<mapsto> h]" "h \<in> ws_open (sk_os k)" "h \<noteq> la_socket ans"
    and "sock_step (Op_Listen n ans port) k = Some k'"
  shows "h \<in> ws_open (sk_os k') \<and> (\<forall>x. sk_obj k' x \<noteq> Some h)"
  using assms by (auto simp: Listen_def Let_def split: if_splits)

definition ex_connect :: connect_answers where
  "ex_connect = \<lparr>ca_resolve = (\<lambda>_ _. Some [\<lparr>at_socket = 8, at_connects = False\<rparr>, \<lparr>at_socket = 8, at_connects = True\<rparr>]),
     ca_error = 0, ca_nonblocking = True\<rparr>"


end
