(* ===== verification/Fabric_Coordinator.thy ===== *)
theory Fabric_Coordinator
  imports Fabric_Persistence Fabric_System Fabric_Protocol Fabric_Sockets
begin

text \<open>
  The coordinator process, \<open>deploy/coordinator.cpp\<close>: its start, the handler of every frame type, what a
  connection thread does with the bytes it receives, and the process as a state machine in which the
  connections take turns.  The operating system is a record of answers: what a save finds, whether the
  marker file can be written and whether a send gets through.  An exception that leaves a handler ends
  the process, so a handler returns \<open>Inl\<close> with its text then.
\<close>

section \<open>State\<close>

record Conn =
  cn_buffer :: bytes
  cn_boot :: u64
  cn_worker :: bool
  cn_done :: bool
  cn_pending :: "Frame list"
  cn_sent :: "bytes list"

record Coordinator =
  co_engine :: Impl
  co_files :: files

record System =
  sy_state_path :: string
  sy_markdir :: string
  sy_io :: io_answers
  sy_marker_opens :: bool
  sy_sends :: "bytes list \<Rightarrow> bytes \<Rightarrow> bool"

type_synonym served = "Conn \<times> Coordinator"

definition new_conn :: Conn where
  "new_conn = \<lparr>cn_buffer = [], cn_boot = 0, cn_worker = False, cn_done = False, cn_pending = [], cn_sent = []\<rparr>"

text \<open>
  The send loop: an empty frame sends nothing; an error sets \<open>done\<close>.  Of a frame that failed, what
  reached the peer is not recorded.
\<close>

definition send_frame :: "System \<Rightarrow> bytes \<Rightarrow> Conn \<Rightarrow> Conn" where
  "send_frame sys fr c =
     (if fr = [] then c
      else if sy_sends sys (cn_sent c) fr then c\<lparr>cn_sent := cn_sent c @ [fr]\<rparr>
      else c\<lparr>cn_done := True\<rparr>)"

definition reply :: "System \<Rightarrow> FrameType \<Rightarrow> u64 \<Rightarrow> encoding \<Rightarrow> served \<Rightarrow> string + served" where
  "reply sys type corr body = (\<lambda>(c, w).
     case body of Inl what \<Rightarrow> Inl what | Inr b \<Rightarrow> Inr (send_frame sys (Encode type corr b) c, w))"

definition on_engine :: "(Impl \<Rightarrow> Impl) \<Rightarrow> served \<Rightarrow> served" where
  "on_engine f = (\<lambda>(c, w). (c, w\<lparr>co_engine := f (co_engine w)\<rparr>))"

definition WriteMarker :: "System \<Rightarrow> string \<Rightarrow> files \<Rightarrow> files" where
  "WriteMarker sys name fs =
     (if sy_markdir sys = [] then fs
      else if sy_marker_opens sys then fs(sy_markdir sys @ ''/'' @ name \<mapsto> [0x31, 0x0A])
      else fs)"

definition save_state :: "System \<Rightarrow> Coordinator \<Rightarrow> Coordinator" where
  "save_state sys w = w\<lparr>co_files := snd (engine_Save (sy_io sys) (sy_state_path sys) (co_engine w) (co_files w))\<rparr>"

definition save_and_mark :: "System \<Rightarrow> string \<Rightarrow> Coordinator \<Rightarrow> Coordinator" where
  "save_and_mark sys name w = (let w1 = save_state sys w in w1\<lparr>co_files := WriteMarker sys name (co_files w1)\<rparr>)"

section \<open>Frame handlers\<close>

definition on_hello :: "System \<Rightarrow> Frame \<Rightarrow> served \<Rightarrow> string + served" where
  "on_hello sys f = (\<lambda>(c, w).
     let boot = fst (get_U64 (MakeReader (fr_payload f))) in
     reply sys FT_ACK (fr_correlation f) (Inr []) (c\<lparr>cn_boot := boot, cn_worker := (boot \<noteq> 0)\<rparr>, w))"

fun read_ids :: "nat \<Rightarrow> Reader \<Rightarrow> NodeId list" where
  "read_ids 0 r = []"
| "read_ids (Suc n) r = (let (v, r1) = get_U64 r in StrongId v # read_ids n r1)"

fun serve_all :: "(served \<Rightarrow> string + served) list \<Rightarrow> served \<Rightarrow> string + served" where
  "serve_all [] cw = Inr cw"
| "serve_all (h # hs) cw = (case h cw of Inl what \<Rightarrow> Inl what | Inr cw' \<Rightarrow> serve_all hs cw')"

definition serve_descriptors :: "System \<Rightarrow> SyntheticBackend \<Rightarrow> u64 \<Rightarrow> NodeId \<Rightarrow> (served \<Rightarrow> string + served) list" where
  "serve_descriptors sys syn corr nid =
     map (\<lambda>nd. reply sys FT_PUBLISH_NODE corr (EncodeNode nd)) (filter (\<lambda>nd. n_id nd = nid) (DiscoverNodes syn)) @
     map (\<lambda>r. reply sys FT_PUBLISH_RESOURCE corr (EncodeResource r)) (filter (\<lambda>r. r_node_id r = nid) (DiscoverResources syn))"

definition on_register :: "System \<Rightarrow> SyntheticBackend \<Rightarrow> Frame \<Rightarrow> served \<Rightarrow> string + served" where
  "on_register sys syn f =
     (let (n, r1) = get_U32 (MakeReader (fr_payload f));
          ids = read_ids (unat n) r1
      in serve_all (concat (map (serve_descriptors sys syn (fr_correlation f)) ids) @
           [reply sys FT_ACK (fr_correlation f) (Inr [])]))"

definition stamp_node :: "u64 \<Rightarrow> Node \<Rightarrow> Node" where
  "stamp_node boot n = n\<lparr>n_worker_boot := StrongId boot, n_worker_owner := to_string boot\<rparr>"

definition on_publish_node :: "Frame \<Rightarrow> served \<Rightarrow> served" where
  "on_publish_node f = (\<lambda>(c, w).
     let (good, n, _) = DecodeNode Node_default (MakeReader (fr_payload f)) in
     if good \<and> cn_worker c then on_engine (\<lambda>s. snd (RegisterNode (stamp_node (cn_boot c) n) s)) (c, w) else (c, w))"

definition stamp_resource :: "u64 \<Rightarrow> Resource \<Rightarrow> Resource" where
  "stamp_resource boot r = r\<lparr>r_evidence := (r_evidence r)\<lparr>ev_owner := to_string boot, ev_durable := False\<rparr>,
     r_authority_owner := to_string boot\<rparr>"

definition on_publish_resource :: "Frame \<Rightarrow> served \<Rightarrow> served" where
  "on_publish_resource f = (\<lambda>(c, w).
     let (good, r, _) = DecodeResource Resource_default (MakeReader (fr_payload f)) in
     if good \<and> cn_worker c then on_engine (\<lambda>s. snd (RegisterResource (stamp_resource (cn_boot c) r) s)) (c, w) else (c, w))"

definition put_reasons :: "RejectionReason list \<Rightarrow> encoding list" where
  "put_reasons reasons = map (\<lambda>reason. put_U32 (RejectionReason_value reason)) reasons"

definition on_compose :: "System \<Rightarrow> Frame \<Rightarrow> served \<Rightarrow> string + served" where
  "on_compose sys f = (\<lambda>(c, w).
     let (_, req, _) = DecodeRequest CompositionRequest_default (MakeReader (fr_payload f));
         (cr, s') = Compose req (co_engine w)
     in reply sys FT_COMPOSE_RESP (fr_correlation f)
          (emit ([put_U32 (CompositionOutcome_value (cr_outcome cr)), EncodePlan (cr_plan cr),
             put_U32 (word_of_nat (length (cr_reasons cr)))] @ put_reasons (cr_reasons cr)))
          (c, w\<lparr>co_engine := s'\<rparr>))"

definition then_do :: "(Coordinator \<Rightarrow> Coordinator) \<Rightarrow> string + served \<Rightarrow> string + served" where
  "then_do f r = (case r of Inl what \<Rightarrow> Inl what | Inr (c, w) \<Rightarrow> Inr (c, f w))"

definition on_reserve :: "System \<Rightarrow> Frame \<Rightarrow> served \<Rightarrow> string + served" where
  "on_reserve sys f = (\<lambda>(c, w).
     let (_, plan, _) = DecodePlan CompositionPlan_default (MakeReader (fr_payload f));
         (rr, s') = Reserve plan (co_engine w)
     in then_do (\<lambda>w. if reserve_ok rr then save_and_mark sys ''reserved'' w else w)
          (reply sys FT_RESERVE_RESP (fr_correlation f)
            (emit ([put_U32 (CompositionOutcome_value (re_outcome rr)), EncodeReservation (re_reservation rr)] @
               put_reasons (re_reasons rr)))
            (c, w\<lparr>co_engine := s'\<rparr>)))"

definition on_commit :: "System \<Rightarrow> Frame \<Rightarrow> served \<Rightarrow> string + served" where
  "on_commit sys f = (\<lambda>(c, w).
     let (_, resv, _) = DecodeReservation Reservation_default (MakeReader (fr_payload f));
         (cc, s') = Commit resv (co_engine w)
     in then_do (\<lambda>w. if commit_ok cc then save_and_mark sys ''committed'' w else w)
          (reply sys FT_COMMIT_RESP (fr_correlation f)
            (emit [put_U32 (CompositionOutcome_value (cm_outcome cc)), EncodeComposition (cm_composition cc)])
            (c, w\<lparr>co_engine := s'\<rparr>)))"

definition on_activate :: "System \<Rightarrow> Frame \<Rightarrow> served \<Rightarrow> string + served" where
  "on_activate sys f = (\<lambda>(c, w).
     let cid = StrongId (fst (get_U64 (MakeReader (fr_payload f))));
         (ar, s') = Activate cid (co_engine w)
     in reply sys FT_ACTIVATE_RESP (fr_correlation f)
          (emit [put_U32 (CompositionOutcome_value (ac_outcome ar)), EncodeComposition (ac_composition ar)])
          (c, w\<lparr>co_engine := s'\<rparr>))"

definition on_query :: "System \<Rightarrow> Frame \<Rightarrow> served \<Rightarrow> string + served" where
  "on_query sys f = (\<lambda>(c, w).
     let snap = Snapshot (co_engine w) in
     reply sys FT_STATE_RESP (fr_correlation f)
       (emit [put_U64 (gen_Value (sn_epoch snap)), put_vector EncodeComposition (sn_compositions snap),
          put_vector EncodeReservation (sn_reservations snap), put_vector EncodeResource (sn_resources snap)])
       (c, w))"

definition on_release :: "System \<Rightarrow> Frame \<Rightarrow> served \<Rightarrow> string + served" where
  "on_release sys f = (\<lambda>(c, w).
     let cid = StrongId (fst (get_U64 (MakeReader (fr_payload f))));
         (good, s') = Release cid (co_engine w)
     in reply sys FT_RELEASE_RESP (fr_correlation f) (put_bool good) (c, w\<lparr>co_engine := s'\<rparr>))"

definition on_save :: "System \<Rightarrow> Frame \<Rightarrow> served \<Rightarrow> string + served" where
  "on_save sys f = (\<lambda>(c, w). reply sys FT_SAVE_RESP (fr_correlation f) (Inr []) (c, save_state sys w))"

definition handle_frame :: "System \<Rightarrow> SyntheticBackend \<Rightarrow> Frame \<Rightarrow> served \<Rightarrow> string + served" where
  "handle_frame sys syn f = (\<lambda>(c, w).
     case fr_type f of
       FT_HELLO \<Rightarrow> on_hello sys f (c, w)
     | FT_REGISTER \<Rightarrow> on_register sys syn f (c, w)
     | FT_PUBLISH_NODE \<Rightarrow> Inr (on_publish_node f (c, w))
     | FT_PUBLISH_RESOURCE \<Rightarrow> Inr (on_publish_resource f (c, w))
     | FT_COMPOSE_REQ \<Rightarrow> on_compose sys f (c, w)
     | FT_RESERVE_REQ \<Rightarrow> on_reserve sys f (c, w)
     | FT_COMMIT_REQ \<Rightarrow> on_commit sys f (c, w)
     | FT_ACTIVATE_REQ \<Rightarrow> on_activate sys f (c, w)
     | FT_QUERY_STATE \<Rightarrow> on_query sys f (c, w)
     | FT_RELEASE_REQ \<Rightarrow> on_release sys f (c, w)
     | FT_SAVE_REQ \<Rightarrow> on_save sys f (c, w)
     | FT_HEARTBEAT \<Rightarrow> reply sys FT_HEARTBEAT (fr_correlation f) (Inr []) (c, w)
     | FT_BYE \<Rightarrow> Inr (c\<lparr>cn_done := True\<rparr>, w)
     | _ \<Rightarrow> Inr (c, w))"

section \<open>Connections\<close>

datatype received = Would_Block | Peer_Closed | Net_Error | Got_Bytes bytes

definition recv_turn :: "os_answer \<Rightarrow> bytes \<Rightarrow> received" where
  "recv_turn ans buf =
     (let got = RecvSome ans in
      if got = - 2 then Would_Block
      else if got = 0 then Peer_Closed
      else if got < 0 then Net_Error
      else Got_Bytes (take (nat got) buf))"

text \<open>
  One turn of the receive loop.  A chunk the decoder refuses ends the connection; the frames it held
  before the bad one are dropped with it.
\<close>

definition receive :: "received \<Rightarrow> Conn \<Rightarrow> Conn" where
  "receive got c =
     (case got of
        Would_Block \<Rightarrow> c
      | Peer_Closed \<Rightarrow> c\<lparr>cn_done := True\<rparr>
      | Net_Error \<Rightarrow> c\<lparr>cn_done := True\<rparr>
      | Got_Bytes d \<Rightarrow>
        (let r = Feed (cn_buffer c) d in
         if \<not> fe_ok r then c\<lparr>cn_buffer := fe_buffer r, cn_done := True\<rparr>
         else c\<lparr>cn_buffer := fe_buffer r, cn_pending := fe_frames r\<rparr>))"

definition disconnect :: "Conn \<Rightarrow> Impl \<Rightarrow> Impl" where
  "disconnect c s =
     (if cn_worker c \<and> cn_boot c \<noteq> 0 then MarkEvidenceRevalidationRequired (StrongId (cn_boot c)) s else s)"

section \<open>Start\<close>

definition seed_path :: "SyntheticBackend \<Rightarrow> Impl \<Rightarrow> Node \<times> Node \<Rightarrow> Impl" where
  "seed_path syn s = (\<lambda>(a, b).
     if n_id a = n_id b then s
     else case ResolvePath syn (PathRequirement_default\<lparr>pr_from := n_id a, pr_to := n_id b, pr_required := True,
             pr_min_bandwidth_mbps := d_1000, pr_max_latency_us := d_100\<rparr>) of
            None \<Rightarrow> s
          | Some pe \<Rightarrow> OnPathUpdate pe s)"

definition coordinator_config :: EngineConfig where
  "coordinator_config =
     \<lparr>cf_coordinator = StrongId 1, cf_epoch = StrongGeneration 1, cf_node_authority = [], cf_persist_authority_only = True\<rparr>"

definition startup :: "bool \<Rightarrow> string \<Rightarrow> u64 \<Rightarrow> SyntheticBackend \<Rightarrow> files \<Rightarrow> Coordinator" where
  "startup read_good state_path epoch syn fs =
     (let s0 = AddBackend (Some (as_backend syn)) (FabricEngine coordinator_config);
          s1 = foldl (seed_path syn) s0 (List.product (DiscoverNodes syn) (DiscoverNodes syn));
          s2 = (if fs state_path \<noteq> None then snd (engine_Load read_good state_path fs s1) else s1)
      in \<lparr>co_engine = AdvanceEpoch (StrongGeneration epoch) s2, co_files = fs\<rparr>)"

section \<open>Handlers are engine events\<close>

definition frame_events :: "Conn \<Rightarrow> Frame \<Rightarrow> engine_event list" where
  "frame_events c f =
     (let rd = MakeReader (fr_payload f); word = StrongId (fst (get_U64 rd)) in
      case fr_type f of
        FT_PUBLISH_NODE \<Rightarrow>
          (let (good, n, _) = DecodeNode Node_default rd in
           if good \<and> cn_worker c then [Ev_RegisterNode (stamp_node (cn_boot c) n)] else [])
      | FT_PUBLISH_RESOURCE \<Rightarrow>
          (let (good, r, _) = DecodeResource Resource_default rd in
           if good \<and> cn_worker c then [Ev_RegisterResource (stamp_resource (cn_boot c) r)] else [])
      | FT_COMPOSE_REQ \<Rightarrow> [Ev_Compose (fst (snd (DecodeRequest CompositionRequest_default rd))) 0]
      | FT_RESERVE_REQ \<Rightarrow> [Ev_Reserve (fst (snd (DecodePlan CompositionPlan_default rd)))]
      | FT_COMMIT_REQ \<Rightarrow> [Ev_Commit (fst (snd (DecodeReservation Reservation_default rd)))]
      | FT_ACTIVATE_REQ \<Rightarrow> [Ev_Activate word]
      | FT_RELEASE_REQ \<Rightarrow> [Ev_Release word]
      | _ \<Rightarrow> [])"

lemma send_keeps [simp]:
  "cn_boot (send_frame sys fr c) = cn_boot c" "cn_worker (send_frame sys fr c) = cn_worker c"
  by (simp_all add: send_frame_def)

text \<open>What a reply leaves alone: everything but the record of what was sent.\<close>

definition only_sends :: "served \<Rightarrow> served \<Rightarrow> bool" where
  "only_sends x y \<longleftrightarrow> snd y = snd x \<and> cn_boot (fst y) = cn_boot (fst x) \<and> cn_worker (fst y) = cn_worker (fst x)"

lemma reply_sends: "reply sys t corr body x = Inr y \<Longrightarrow> only_sends x y"
  by (auto simp: reply_def only_sends_def split: sum.splits prod.splits)

lemma serve_all_sends:
  "(\<And>h x y. h \<in> set hs \<Longrightarrow> h x = Inr y \<Longrightarrow> only_sends x y) \<Longrightarrow> serve_all hs x = Inr y \<Longrightarrow> only_sends x y"
proof (induction hs arbitrary: x)
  case (Cons h hs)
  from Cons.prems(2) obtain z where z: "h x = Inr z" "serve_all hs z = Inr y" by (auto split: sum.splits)
  have "only_sends x z" using Cons.prems(1) [of h] z(1) by simp
  moreover have "only_sends a b" if "h' \<in> set hs" "h' a = Inr b" for h' a b
    by (rule Cons.prems(1) [of h' a b]) (use that in simp_all)
  from Cons.IH [OF this z(2)] have "only_sends z y" .
  ultimately show ?case by (simp add: only_sends_def)
qed (simp add: only_sends_def)

lemma register_sends: "on_register sys syn f x = Inr y \<Longrightarrow> only_sends x y"
  unfolding on_register_def Let_def case_prod_beta
  by (erule serve_all_sends [rotated]) (auto simp: serve_descriptors_def dest: reply_sends)

lemma save_keeps [simp]: "co_engine (save_state sys w) = co_engine w" "co_engine (save_and_mark sys name w) = co_engine w"
  by (simp_all add: save_state_def save_and_mark_def Let_def)

lemma handler_events:
  assumes "handle_frame sys syn f (c, w) = Inr (c', w')"
  shows "co_engine w' = run_events (frame_events c f) (co_engine w)"
proof (cases "fr_type f = FT_REGISTER")
  case True
  then have "on_register sys syn f (c, w) = Inr (c', w')" using assms by (simp add: handle_frame_def)
  from register_sends [OF this] True show ?thesis by (simp add: only_sends_def frame_events_def run_events_def)
next
  case False
  with assms show ?thesis
    by (cases "fr_type f")
      (auto simp: handle_frame_def frame_events_def run_events_def Let_def case_prod_beta on_hello_def on_publish_node_def
        on_publish_resource_def on_engine_def on_compose_def Compose_def on_reserve_def on_commit_def on_activate_def on_query_def
        on_release_def on_save_def then_do_def only_sends_def split: sum.splits if_splits dest!: reply_sends)
qed

section \<open>The process\<close>

text \<open>
  \<open>serving G w conns\<close>: the coordinator has the state \<open>w\<close> and the open connections \<open>conns\<close> after some
  run in which every handled frame satisfied \<open>G\<close>.  Connections run in threads of their own; every step
  below makes at most one call that changes the engine, and the engine's mutex orders these calls, so
  the steps of different connections interleave freely.  Only \<open>BYE\<close>, errors and the end of the stream
  set \<open>done\<close>, and the frames of a chunk are all handled before it is looked at.
\<close>

definition coordinator_topology :: SyntheticBackend where
  "coordinator_topology = MakeSyntheticBackend (StrongGeneration 1)"

inductive serving :: "(Conn \<Rightarrow> Frame \<Rightarrow> bool) \<Rightarrow> Coordinator \<Rightarrow> (nat \<rightharpoonup> Conn) \<Rightarrow> bool" for G where
  serving_start: "serving G (startup read_good path epoch coordinator_topology fs) Map.empty"
| serving_accept: "serving G w conns \<Longrightarrow> conns k = None \<Longrightarrow> serving G w (conns(k \<mapsto> new_conn))"
| serving_receive: "serving G w conns \<Longrightarrow> conns k = Some c \<Longrightarrow> \<not> cn_done c \<Longrightarrow> cn_pending c = [] \<Longrightarrow>
    serving G w (conns(k \<mapsto> receive got c))"
| serving_frame: "serving G w conns \<Longrightarrow> conns k = Some c \<Longrightarrow> cn_pending c = f # fs \<Longrightarrow> G c f \<Longrightarrow>
    handle_frame sys coordinator_topology f (c\<lparr>cn_pending := fs\<rparr>, w) = Inr (c', w') \<Longrightarrow> serving G w' (conns(k \<mapsto> c'))"
| serving_close: "serving G w conns \<Longrightarrow> conns k = Some c \<Longrightarrow> cn_done c \<Longrightarrow> cn_pending c = [] \<Longrightarrow>
    serving G (w\<lparr>co_engine := disconnect c (co_engine w)\<rparr>) (conns(k := None))"

subsection \<open>Every state of the coordinator's engine is a reachable engine state\<close>

lemma repeat_stmt_keeps:
  "(\<And>x r. P x \<Longrightarrow> P (fst (snd (body x r)))) \<Longrightarrow> P x \<Longrightarrow> P (fst (snd (repeat_stmt n body x r)))"
  by (induction n arbitrary: x r) (auto simp: case_prod_beta Let_def)

lemma load_section_keeps:
  assumes "\<And>x r. P x \<Longrightarrow> P (fst (snd (body x r)))" "P (fst xr)" "load_section over bad body xr = Inr yr"
  shows "P (fst yr)"
  using assms(3) repeat_stmt_keeps [of P body, OF assms(1,2)]
  by (auto simp: load_section_def Let_def case_prod_beta split: if_splits)

lemma and_then_Inr: "and_then x f = Inr y \<longleftrightarrow> (\<exists>v. x = Inr v \<and> f v = Inr y)"
  by (cases x) (simp_all add: and_then_def)

lemma push_keeps_policies:
  assumes "\<And>g x. ds_policies (upd g x) = ds_policies x" "om_ok (ds_policies x)"
  shows "om_ok (ds_policies (fst (snd (decode_element fresh dec (push_back upd) x r))))"
  using assms by (simp add: decode_element_def push_back_def case_prod_beta)

lemma assign_keeps_policies:
  "om_ok (ds_policies x) \<Longrightarrow> om_ok (ds_policies (fst (snd (assign get_policy (\<lambda>(p, g). ds_policies_update (om_put p g)) x r))))"
  by (simp add: assign_def case_prod_beta om_ok_put)

lemma load_payload_ok:
  assumes "om_ok (ds_policies (fst start))" "load_payload start = Inr d"
  shows "om_ok (ds_policies d)"
proof -
  let ?P = "\<lambda>x. om_ok (ds_policies x)"
  obtain s1 s2 s3 s4 where
      s1: "load_section ''node count overflow'' ''malformed node''
        (decode_element Node_default ReadNode (push_back ds_nodes_update)) start = Inr s1"
    and s2: "load_section ''resource count overflow'' ''malformed resource''
        (decode_element Resource_default ReadResource (push_back ds_resources_update)) s1 = Inr s2"
    and s3: "load_section ''policy count overflow'' []
        (assign get_policy (\<lambda>(p, g). ds_policies_update (om_put p g))) s2 = Inr s3"
    and s4: "load_section ''composition count overflow'' ''malformed composition''
        (decode_element Composition_default ReadComposition (push_back ds_compositions_update)) s3 = Inr s4"
    and d: "d = fst s4"
    using assms(2) by (auto simp: load_payload_def and_then_Inr split: if_splits)
  have p1: "?P (fst s1)" by (rule load_section_keeps [of ?P, OF push_keeps_policies assms(1) s1]) simp
  have p2: "?P (fst s2)" by (rule load_section_keeps [of ?P, OF push_keeps_policies p1 s2]) simp
  have p3: "?P (fst s3)" by (rule load_section_keeps [of ?P, OF assign_keeps_policies p2 s3])
  have "?P (fst s4)" by (rule load_section_keeps [of ?P, OF push_keeps_policies p3 s4]) simp
  then show ?thesis by (simp add: d)
qed

lemma loaded_ok: "durable_ok (LoadImpl read_good path fs)"
proof -
  have "om_ok (ds_policies d)" if "load_image buf = Inr d" for buf d
  proof -
    from that obtain e r where "load_payload (DurableState_default\<lparr>ds_epoch := e\<rparr>, r) = Inr d"
      by (auto simp: load_image_def Let_def case_prod_beta split: if_splits)
    then show ?thesis by (rule load_payload_ok [rotated]) (simp add: DurableState_default_def om_ok_def)
  qed
  then show ?thesis by (auto simp: durable_ok_def LoadImpl_def split: option.split sum.split)
qed

lemma seed_reachable: "reachable any_event s \<Longrightarrow> reachable any_event (foldl (seed_path syn) s ps)"
proof (induction ps arbitrary: s)
  case (Cons p ps)
  have "reachable any_event (OnPathUpdate pe s)" for pe
    using reachable_step [OF Cons.prems, of "Ev_OnPathUpdate pe"] by simp
  with Cons show ?case by (simp add: seed_path_def case_prod_beta split: option.split)
qed simp

lemma startup_reachable: "reachable any_event (co_engine (startup read_good path epoch syn fs))"
proof -
  let ?s1 = "foldl (seed_path syn) (AddBackend (Some (as_backend syn)) (FabricEngine coordinator_config))
    (List.product (DiscoverNodes syn) (DiscoverNodes syn))"
  have s1: "reachable any_event ?s1"
    using reachable_step [OF reachable_init, of any_event "Ev_AddBackend (Some (as_backend syn))"]
    by (intro seed_reachable) simp
  have "reachable any_event (snd (engine_Load read_good path fs ?s1))"
    using reachable_step [OF s1, of "Ev_Load (LoadImpl read_good path fs)"] loaded_ok by (simp add: engine_Load_def)
  with s1 have "reachable any_event (if fs path \<noteq> None then snd (engine_Load read_good path fs ?s1) else ?s1)" by simp
  from reachable_step [OF this, of "Ev_AdvanceEpoch (StrongGeneration epoch)"] show ?thesis
    by (simp add: startup_def Let_def)
qed

lemma frame_events_any: "e \<in> set (frame_events c f) \<Longrightarrow> any_event e s"
  by (auto simp: frame_events_def Let_def split: FrameType.splits prod.splits if_splits)

lemma serving_reachable: "serving G w conns \<Longrightarrow> reachable any_event (co_engine w)"
proof (induction rule: serving.induct)
  case (serving_frame w conns k c f fs sys c' w')
  then show ?case unfolding handler_events [OF serving_frame.hyps(5)]
    by (intro run_events_reachable) (auto dest: frame_events_any)
next
  case (serving_close w conns k c)
  then show ?case
    using reachable_step [of any_event "co_engine w" "Ev_MarkEvidence (StrongId (cn_boot c))"] by (simp add: disconnect_def)
qed (simp_all add: startup_reachable)



subsection \<open>Who can change the registry\<close>

lemma quiet_events:
  assumes "keys_ok s"
  shows "im_resources (run_event (Ev_Compose req seed) s) = im_resources s \<and> im_nodes (run_event (Ev_Compose req seed) s) = im_nodes s"
    and "im_resources (run_event (Ev_Reserve plan) s) = im_resources s \<and> im_nodes (run_event (Ev_Reserve plan) s) = im_nodes s"
    and "im_resources (run_event (Ev_Commit resv) s) = im_resources s \<and> im_nodes (run_event (Ev_Commit resv) s) = im_nodes s"
    and "im_resources (run_event (Ev_Activate i) s) = im_resources s \<and> im_nodes (run_event (Ev_Activate i) s) = im_nodes s"
    and "im_resources (run_event (Ev_Release i) s) = im_resources s \<and> im_nodes (run_event (Ev_Release i) s) = im_nodes s"
proof -
  show "im_resources (run_event (Ev_Compose req seed) s) = im_resources s \<and> im_nodes (run_event (Ev_Compose req seed) s) = im_nodes s"
    by (rule ComposeDeterministic_cases [OF keys_okD(1) [OF assms], of req seed]) simp_all
  show "im_resources (run_event (Ev_Reserve plan) s) = im_resources s \<and> im_nodes (run_event (Ev_Reserve plan) s) = im_nodes s"
    by (cases rule: Reserve_cases [where plan = plan and s = s]) simp_all
  show "im_resources (run_event (Ev_Commit resv) s) = im_resources s \<and> im_nodes (run_event (Ev_Commit resv) s) = im_nodes s"
    by (cases rule: Commit_cases [where resIn = resv and s = s]) simp_all
  show "im_resources (run_event (Ev_Activate i) s) = im_resources s \<and> im_nodes (run_event (Ev_Activate i) s) = im_nodes s"
    by (cases rule: Activate_cases [where i = i and s = s]) simp_all
  show "im_resources (run_event (Ev_Release i) s) = im_resources s \<and> im_nodes (run_event (Ev_Release i) s) = im_nodes s"
    by (simp add: Release_def release_reservation_def set_released_def Let_def split: option.split)
qed

lemma frame_registry:
  assumes "keys_ok s" "\<not> (cn_worker c \<and> fr_type f \<in> {FT_PUBLISH_NODE, FT_PUBLISH_RESOURCE})"
  shows "im_resources (run_events (frame_events c f) s) = im_resources s \<and> im_nodes (run_events (frame_events c f) s) = im_nodes s"
  using assms(2) quiet_events [OF assms(1)]
  by (cases "fr_type f") (auto simp: frame_events_def run_events_def Let_def split: prod.split simp del: run_event.simps)

text \<open>
  C35. Only workers publish: a frame on a connection that has not introduced itself with a boot number
  leaves the nodes and resources of the registry as they are.
\<close>

theorem clients_cannot_publish:
  assumes "serving G w conns" "handle_frame sys syn f (c, w) = Inr (c', w')" "\<not> cn_worker c"
  shows "im_resources (co_engine w') = im_resources (co_engine w) \<and> im_nodes (co_engine w') = im_nodes (co_engine w)"
  using frame_registry [OF tables.always [OF serving_reachable [OF assms(1)]], of c f] assms(3)
  by (simp add: handler_events [OF assms(2)])

definition ex_system :: System where
  "ex_system = \<lparr>sy_state_path = ''state'', sy_markdir = [], sy_io = ex_io, sy_marker_opens = True, sy_sends = (\<lambda>_ _. True)\<rparr>"

theorem clients_cannot_publish_witness:
  "\<exists>w'. handle_frame ex_system coordinator_topology \<lparr>fr_type = FT_PUBLISH_NODE, fr_correlation = 1, fr_payload = []\<rparr>
       (new_conn, startup True ''state'' 1 coordinator_topology Map.empty) = Inr (new_conn, w') \<and>
     im_nodes (co_engine w') = im_nodes (co_engine (startup True ''state'' 1 coordinator_topology Map.empty))"
proof -
  let ?w = "startup True ''state'' 1 coordinator_topology Map.empty"
  let ?f = "\<lparr>fr_type = FT_PUBLISH_NODE, fr_correlation = 1, fr_payload = []\<rparr>"
  have "handle_frame ex_system coordinator_topology ?f (new_conn, ?w) = Inr (new_conn, ?w)"
    by (simp add: handle_frame_def on_publish_node_def new_conn_def case_prod_beta Let_def)
  with clients_cannot_publish [OF serving_start this] show ?thesis by (auto simp: new_conn_def)
qed

subsection \<open>Evidence lives as long as its worker\<close>

definition hello_once :: "Conn \<Rightarrow> Frame \<Rightarrow> bool" where
  "hello_once c f \<longleftrightarrow> (fr_type f = FT_HELLO \<longrightarrow> \<not> cn_worker c)"

definition live_owner :: "(nat \<rightharpoonup> Conn) \<Rightarrow> string \<Rightarrow> bool" where
  "live_owner conns owner \<longleftrightarrow> (\<exists>k c. conns k = Some c \<and> cn_worker c \<and> owner = to_string (cn_boot c))"

definition vouched :: "(nat \<rightharpoonup> Conn) \<Rightarrow> Impl \<Rightarrow> bool" where
  "vouched conns s \<longleftrightarrow>
     (\<forall>i r. GetResource s i = Some r \<longrightarrow> IsCurrent (r_evidence r) \<longrightarrow> \<not> ev_durable (r_evidence r) \<longrightarrow>
        live_owner conns (ev_owner (r_evidence r)))"

definition workers_named :: "(nat \<rightharpoonup> Conn) \<Rightarrow> bool" where
  "workers_named conns \<longleftrightarrow> (\<forall>k c. conns k = Some c \<longrightarrow> cn_worker c \<longrightarrow> cn_boot c \<noteq> 0)"

lemma handler_conn:
  assumes "handle_frame sys syn f (c, w) = Inr (c', w')"
  shows "if fr_type f = FT_HELLO then cn_worker c' = (cn_boot c' \<noteq> 0) else cn_boot c' = cn_boot c \<and> cn_worker c' = cn_worker c"
proof (cases "fr_type f = FT_REGISTER")
  case True
  then have "on_register sys syn f (c, w) = Inr (c', w')" using assms by (simp add: handle_frame_def)
  from register_sends [OF this] True show ?thesis by (simp add: only_sends_def)
next
  case False
  with assms show ?thesis
    by (cases "fr_type f")
      (auto simp: handle_frame_def Let_def case_prod_beta on_hello_def on_publish_node_def
        on_publish_resource_def on_engine_def on_compose_def on_reserve_def on_commit_def on_activate_def on_query_def
        on_release_def on_save_def then_do_def only_sends_def split: sum.splits if_splits dest!: reply_sends)
qed

lemma frame_lookup:
  assumes "keys_ok s" "GetResource (run_events (frame_events c f) s) i = Some r"
  shows "GetResource s i = Some r \<or> fr_type f = FT_PUBLISH_RESOURCE \<and> cn_worker c \<and> ev_owner (r_evidence r) = to_string (cn_boot c)"
proof (cases "cn_worker c \<and> fr_type f \<in> {FT_PUBLISH_NODE, FT_PUBLISH_RESOURCE}")
  case True
  then show ?thesis using assms(2)
    by (auto simp: frame_events_def run_events_def Let_def GetResource_def RegisterNode_def RegisterResource_def ingest_lookup
        stamp_resource_def split: prod.splits if_splits)
next
  case False
  with frame_registry [OF assms(1)] assms(2) show ?thesis by (simp add: GetResource_def)
qed

lemma seed_resources: "im_resources (foldl (seed_path syn) s ps) = im_resources s"
  by (induction ps arbitrary: s) (auto simp: seed_path_def OnPathUpdate_def split: option.split)

lemma startup_durable:
  assumes "GetResource (co_engine (startup read_good path epoch syn fs)) i = Some r" "IsCurrent (r_evidence r)"
  shows "ev_durable (r_evidence r)"
proof -
  let ?s1 = "foldl (seed_path syn) (AddBackend (Some (as_backend syn)) (FabricEngine coordinator_config))
    (List.product (DiscoverNodes syn) (DiscoverNodes syn))"
  let ?s2 = "if fs path \<noteq> None then snd (engine_Load read_good path fs ?s1) else ?s1"
  have none: "im_resources ?s1 = []" by (simp add: seed_resources AddBackend_def FabricEngine_def)
  have loaded: "\<exists>q. r = expire_evidence q" if "map_of (im_resources ?s2) i = Some r" for r
    using that none
    by (auto simp: engine_Load_def Load_def Let_def dest!: put_by_id_member split: if_splits sum.splits)
  have "\<exists>q. r = expire_evidence q"
    using assms(1) loaded by (auto simp: startup_def Let_def GetResource_def AdvanceEpoch_def split: if_splits)
  then show ?thesis using assms(2) expire_evidence_not_current by blast
qed

lemma live_owner_mono:
  assumes "live_owner conns owner" "\<And>c. conns k = Some c \<Longrightarrow> cn_worker c \<Longrightarrow> cn_worker c' \<and> cn_boot c' = cn_boot c"
  shows "live_owner (conns(k \<mapsto> c')) owner"
proof -
  obtain j c where j: "conns j = Some c" "cn_worker c" "owner = to_string (cn_boot c)" using assms(1) by (auto simp: live_owner_def)
  show ?thesis
  proof (cases "j = k")
    case True
    with j assms(2) [of c] show ?thesis unfolding live_owner_def by (intro exI [of _ k] exI [of _ c']) simp
  next
    case False
    with j show ?thesis unfolding live_owner_def by (intro exI [of _ j] exI [of _ c]) simp
  qed
qed

lemma receive_keeps [simp]: "cn_boot (receive got c) = cn_boot c" "cn_worker (receive got c) = cn_worker c"
  by (simp_all add: receive_def Let_def split: received.split)

lemma workers_named_always: "serving G w conns \<Longrightarrow> workers_named conns"
proof (induction rule: serving.induct)
  case (serving_frame w conns k c f fs sys c' w')
  then show ?case using handler_conn [OF serving_frame.hyps(5)] by (auto simp: workers_named_def split: if_splits)
qed (auto simp: workers_named_def new_conn_def split: if_splits)

lemma vouched_always: "serving hello_once w conns \<Longrightarrow> vouched conns (co_engine w)"
proof (induction rule: serving.induct)
  case (serving_start read_good path epoch fs)
  show ?case using startup_durable by (auto simp: vouched_def)
next
  case (serving_accept w conns k)
  then show ?case unfolding vouched_def by (auto intro!: live_owner_mono)
next
  case (serving_receive w conns k c got)
  then show ?case unfolding vouched_def by (auto intro!: live_owner_mono)
next
  case (serving_frame w conns k c f fs sys c' w')
  have ok: "keys_ok (co_engine w)" by (rule tables.always [OF serving_reachable [OF serving_frame.hyps(1)]])
  have c': "cn_worker c \<Longrightarrow> cn_worker c' \<and> cn_boot c' = cn_boot c"
    using handler_conn [OF serving_frame.hyps(5)] serving_frame.hyps(4) by (auto simp: hello_once_def split: if_splits)
  have "live_owner (conns(k \<mapsto> c')) (ev_owner (r_evidence r))"
    if r: "GetResource (co_engine w') i = Some r" "IsCurrent (r_evidence r)" "\<not> ev_durable (r_evidence r)" for i r
  proof -
    from frame_lookup [OF ok r(1) [unfolded handler_events [OF serving_frame.hyps(5)]]]
    consider "GetResource (co_engine w) i = Some r" | "cn_worker c" "ev_owner (r_evidence r) = to_string (cn_boot c)" by auto
    then show ?thesis
    proof cases
      case 1
      with serving_frame.IH r have "live_owner conns (ev_owner (r_evidence r))" by (simp add: vouched_def)
      then show ?thesis by (rule live_owner_mono) (use c' serving_frame.hyps(2) in auto)
    next
      case 2
      with c' show ?thesis unfolding live_owner_def by (intro exI [of _ k] exI [of _ c']) simp
    qed
  qed
  then show ?case unfolding vouched_def Coordinator.simps by blast
next
  case (serving_close w conns k c)
  have named: "cn_worker c \<Longrightarrow> cn_boot c \<noteq> 0"
    using workers_named_always [OF serving_close.hyps(1)] serving_close.hyps(2) by (auto simp: workers_named_def)
  have "live_owner (conns(k := None)) (ev_owner (r_evidence r))"
    if r: "GetResource (disconnect c (co_engine w)) i = Some r" "IsCurrent (r_evidence r)" "\<not> ev_durable (r_evidence r)" for i r
  proof -
    have kept: "GetResource (co_engine w) i = Some r \<and> (cn_worker c \<longrightarrow> ev_owner (r_evidence r) \<noteq> to_string (cn_boot c))"
      using r named by (auto simp: disconnect_def GetResource_def MarkEvidenceRevalidationRequired_def Let_def
          mark_revalidation_def owned_by_def id_ToString_def IsCurrent_def split: if_splits)
    with serving_close.IH r have "live_owner conns (ev_owner (r_evidence r))" unfolding vouched_def by blast
    then obtain j d where j: "conns j = Some d" "cn_worker d" "ev_owner (r_evidence r) = to_string (cn_boot d)"
      by (auto simp: live_owner_def)
    with kept serving_close.hyps(2) have "j \<noteq> k" by auto
    with j show ?thesis unfolding live_owner_def by (intro exI [of _ j] exI [of _ d]) simp
  qed
  moreover have "co_engine (w\<lparr>co_engine := disconnect c (co_engine w)\<rparr>) = disconnect c (co_engine w)" by simp
  ultimately show ?case unfolding vouched_def by metis
qed

text \<open>
  Evidence under the boot number of an earlier \<open>HELLO\<close> survives: when the connection ends only the
  last boot number is revoked.
\<close>

lemma second_hello_keeps_evidence:
  assumes "on_hello sys f (c, w) = Inr (c', w')" "GetResource (co_engine w) i = Some r"
    and "\<not> owned_by (to_string (fst (get_U64 (MakeReader (fr_payload f))))) r"
  shows "GetResource (disconnect c' (co_engine w')) i = Some r"
  using assms reply_sends
  by (fastforce simp: on_hello_def Let_def only_sends_def disconnect_def GetResource_def MarkEvidenceRevalidationRequired_def
      mark_revalidation_def id_ToString_def)

subsection \<open>What a client was told is on disk\<close>

text \<open>The frames after which the coordinator saves: a reservation or a commit that succeeds, or the request to save.\<close>

definition saves :: "Frame \<Rightarrow> Impl \<Rightarrow> bool" where
  "saves f s \<longleftrightarrow>
     fr_type f = FT_RESERVE_REQ \<and>
       reserve_ok (fst (Reserve (fst (snd (DecodePlan CompositionPlan_default (MakeReader (fr_payload f))))) s)) \<or>
     fr_type f = FT_COMMIT_REQ \<and>
       commit_ok (fst (Commit (fst (snd (DecodeReservation Reservation_default (MakeReader (fr_payload f))))) s)) \<or>
     fr_type f = FT_SAVE_REQ"

lemma saves_state:
  assumes "handle_frame sys syn f (c, w) = Inr (c', w')" "saves f (co_engine w)"
  shows "co_files w' = co_files (save_state sys (w\<lparr>co_engine := co_engine w'\<rparr>)) \<or>
    (\<exists>name \<in> {''reserved'', ''committed''}. co_files w' = co_files (save_and_mark sys name (w\<lparr>co_engine := co_engine w'\<rparr>)))"
  using assms
  by (auto simp: saves_def handle_frame_def on_reserve_def on_commit_def on_save_def then_do_def Let_def case_prod_beta
      save_state_def save_and_mark_def only_sends_def split: sum.splits dest!: reply_sends)


lemma seed_durable:
  "im_compositions s = [] \<Longrightarrow> durable_state (foldl (seed_path syn) s ps) = durable_state s"
proof (induction ps arbitrary: s)
  case (Cons p ps)
  have keep: "durable_state (OnPathUpdate pe s) = durable_state s \<and> im_compositions (OnPathUpdate pe s) = []" for pe
    using Cons.prems by (simp add: OnPathUpdate_def durable_state_def um_map_values_def)
  have "durable_state (seed_path syn s p) = durable_state s \<and> im_compositions (seed_path syn s p) = []"
    using Cons.prems keep by (simp add: seed_path_def case_prod_beta split: option.split)
  with Cons.IH show ?case by simp
qed simp


end
