(* ===== verification/Fabric_Worker.thy ===== *)
theory Fabric_Worker
  imports Fabric_Coordinator
begin

text \<open>
  The worker process, \<open>deploy/worker.cpp\<close>: the frames it opens a connection with, the handler that
  stamps every descriptor the coordinator serves with its own boot number and publishes it back, and
  the two processes together.
\<close>

section \<open>Command line\<close>

text \<open>The loop over \<open>nodesArg\<close> with its current item.\<close>

fun split_nodes :: "string \<Rightarrow> string \<Rightarrow> u64 list" where
  "split_nodes [] cur = (if cur \<noteq> [] then [strtoull cur] else [])"
| "split_nodes (c # cs) cur =
     (if c = CHR '','' then (if cur \<noteq> [] then [strtoull cur] else []) @ split_nodes cs []
      else split_nodes cs (cur @ [c]))"

section \<open>Opening frames\<close>

definition MakeCorrPayload :: "u64 \<Rightarrow> bytes" where
  "MakeCorrPayload v = PutU64 v"

definition ReadCorrPayload :: "bytes \<Rightarrow> u64" where
  "ReadCorrPayload p = fst (get_U64 (MakeReader p))"

definition hello_frame :: "u64 \<Rightarrow> bytes" where
  "hello_frame boot = Encode FT_HELLO 1 (MakeCorrPayload boot)"

definition register_body :: "u64 list \<Rightarrow> bytes" where
  "register_body ids = PutU32 (word_of_nat (length ids)) @ concat (map PutU64 ids)"

definition register_frame :: "u64 list \<Rightarrow> bytes" where
  "register_frame ids = Encode FT_REGISTER 2 (register_body ids)"

section \<open>The loop\<close>

record Worker =
  wk_boot :: u64
  wk_buffer :: bytes
  wk_corr :: u64
  wk_alive :: bool
  wk_sent :: "bytes list"

text \<open>The state after the opening frames went out; a send error there ends the process.\<close>

definition worker_start :: "(bytes list \<Rightarrow> bytes \<Rightarrow> bool) \<Rightarrow> u64 \<Rightarrow> string \<Rightarrow> Worker option" where
  "worker_start sends boot nodesArg =
     (let hf = hello_frame boot; rf = register_frame (split_nodes nodesArg []) in
      if hf \<noteq> [] \<and> \<not> sends [] hf then None
      else if rf \<noteq> [] \<and> \<not> sends [hf] rf then None
      else Some \<lparr>wk_boot = boot, wk_buffer = [], wk_corr = 100, wk_alive = True,
             wk_sent = [hf] @ (if rf = [] then [] else [rf])\<rparr>)"

definition worker_send :: "(bytes list \<Rightarrow> bytes \<Rightarrow> bool) \<Rightarrow> bytes \<Rightarrow> Worker \<Rightarrow> Worker" where
  "worker_send sends fr k =
     (if fr = [] then k
      else if sends (wk_sent k) fr then k\<lparr>wk_sent := wk_sent k @ [fr]\<rparr>
      else k\<lparr>wk_alive := False\<rparr>)"

definition worker_publish ::
    "(bytes list \<Rightarrow> bytes \<Rightarrow> bool) \<Rightarrow> FrameType \<Rightarrow> encoding \<Rightarrow> Worker \<Rightarrow> string + Worker" where
  "worker_publish sends type body k =
     (case body of
        Inl what \<Rightarrow> Inl what
      | Inr b \<Rightarrow> (let corr = wk_corr k + 1 in
          Inr (worker_send sends (Encode type corr b) (k\<lparr>wk_corr := corr\<rparr>))))"

definition worker_resource :: "u64 \<Rightarrow> Resource \<Rightarrow> Resource" where
  "worker_resource boot r = r\<lparr>
     r_evidence := (r_evidence r)\<lparr>ev_owner := to_string boot, ev_provenance := ''worker-'' @ to_string boot, ev_durable := False,
       ev_state := ES_FRESH, ev_max_age_ms := 3600000, ev_generation := StrongGeneration (boot + 1)\<rparr>,
     r_authority_owner := to_string boot,
     r_health := RH_HEALTHY, r_readiness := RD_READY, r_reachability := RB_REACHABLE\<rparr>"

definition worker_handle :: "(bytes list \<Rightarrow> bytes \<Rightarrow> bool) \<Rightarrow> Frame \<Rightarrow> Worker \<Rightarrow> string + Worker" where
  "worker_handle sends f k =
     (case fr_type f of
        FT_PUBLISH_NODE \<Rightarrow>
          (let (good, n, _) = DecodeNode Node_default (MakeReader (fr_payload f)) in
           if good then worker_publish sends FT_PUBLISH_NODE (EncodeNode (stamp_node (wk_boot k) n)) k else Inr k)
      | FT_PUBLISH_RESOURCE \<Rightarrow>
          (let (good, r, _) = DecodeResource Resource_default (MakeReader (fr_payload f)) in
           if good then worker_publish sends FT_PUBLISH_RESOURCE (EncodeResource (worker_resource (wk_boot k) r)) k else Inr k)
      | FT_HEARTBEAT \<Rightarrow> worker_publish sends FT_HEARTBEAT (Inr []) k
      | _ \<Rightarrow> Inr k)"

fun worker_frames :: "(bytes list \<Rightarrow> bytes \<Rightarrow> bool) \<Rightarrow> Frame list \<Rightarrow> Worker \<Rightarrow> string + Worker" where
  "worker_frames sends [] k = Inr k"
| "worker_frames sends (f # fs) k = (case worker_handle sends f k of Inl what \<Rightarrow> Inl what | Inr k' \<Rightarrow> worker_frames sends fs k')"

definition worker_receive :: "(bytes list \<Rightarrow> bytes \<Rightarrow> bool) \<Rightarrow> received \<Rightarrow> Worker \<Rightarrow> string + Worker" where
  "worker_receive sends got k =
     (case got of
        Would_Block \<Rightarrow> Inr k
      | Peer_Closed \<Rightarrow> Inr (k\<lparr>wk_alive := False\<rparr>)
      | Net_Error \<Rightarrow> Inr (k\<lparr>wk_alive := False\<rparr>)
      | Got_Bytes d \<Rightarrow>
        (let r = Feed (wk_buffer k) d in
         if \<not> fe_ok r then Inr (k\<lparr>wk_buffer := fe_buffer r, wk_alive := False\<rparr>)
         else worker_frames sends (fe_frames r) (k\<lparr>wk_buffer := fe_buffer r\<rparr>)))"

section \<open>Introduction and registration\<close>

lemma read_ids_written:
  "rd_ok r \<Longrightarrow> unread r = concat (map PutU64 ids) @ rest \<Longrightarrow> read_ids (length ids) r = map StrongId ids"
proof (induction ids arbitrary: r)
  case (Cons i ids)
  have "get_U64 r = (i, advance 8 r)"
    using getsD(1) [OF gets_U64 put_U64_def Cons.prems(1), of i "concat (map PutU64 ids) @ rest"] Cons.prems(2) by simp
  moreover have "read_ids (length ids) (advance 8 r) = map StrongId ids"
    using Cons.prems by (intro Cons.IH) (simp_all add: unread_advance)
  ultimately show ?case by simp
qed simp

lemma register_read:
  assumes "length ids < 2 ^ 32"
  shows "(let (n, r1) = get_U32 (MakeReader (register_body ids)) in read_ids (unat n) r1) = map StrongId ids"
proof -
  let ?r = "MakeReader (register_body ids)" let ?n = "word_of_nat (length ids) :: u32"
  have r: "rd_ok ?r" "unread ?r = PutU32 ?n @ concat (map PutU64 ids)"
    by (simp_all add: MakeReader_def unread_def register_body_def)
  have "get_U32 ?r = (?n, advance 4 ?r)"
    using getsD(1) [OF gets_U32 put_U32_def r(1)] r(2) by simp
  moreover have "unat ?n = length ids" using assms by (simp add: unat_of_nat take_bit_eq_mod)
  moreover have "read_ids (length ids) (advance 4 ?r) = map StrongId ids"
    by (rule read_ids_written [of _ _ "[]"]) (use r in \<open>simp_all add: unread_advance\<close>)
  ultimately show ?thesis by simp
qed

lemma feed_frames: "\<forall>f \<in> set fs. fits f \<Longrightarrow>
    Feed [] (concat (map encode_frame fs)) = \<lparr>fe_ok = True, fe_buffer = [], fe_frames = fs, fe_err = []\<rparr>"
  using feed_loop_frames [of fs "[]" "[]"] by (simp add: Feed_def feed_loop.simps parse_frame_def kHeaderLen_def)

text \<open>
  The opening frames arrive as they were meant: from the bytes a worker with at most 511 nodes sends
  first, the coordinator decodes an introduction and a registration; the first sets the boot number of
  the connection, the second serves the descriptors of exactly the worker's nodes, in order, and an
  acknowledgement.
\<close>

theorem opening_frames_understood:
  assumes "length ids \<le> 511"
  shows "\<exists>h g. cn_pending (receive (Got_Bytes (hello_frame boot @ register_frame ids)) new_conn) = [h, g] \<and>
     handle_frame sys syn h (c, w) = reply sys FT_ACK 1 (Inr []) (c\<lparr>cn_boot := boot, cn_worker := (boot \<noteq> 0)\<rparr>, w) \<and>
     handle_frame sys syn g (c, w) =
       serve_all (concat (map (\<lambda>i. serve_descriptors sys syn 2 (StrongId i)) ids) @ [reply sys FT_ACK 2 (Inr [])]) (c, w)"
proof -
  let ?h = "\<lparr>fr_type = FT_HELLO, fr_correlation = 1, fr_payload = MakeCorrPayload boot\<rparr>"
  let ?g = "\<lparr>fr_type = FT_REGISTER, fr_correlation = 2, fr_payload = register_body ids\<rparr>"
  have "length (register_body ids) = 4 + 8 * length ids"
    by (induction ids) (simp_all add: register_body_def)
  then have "\<forall>f \<in> set [?h, ?g]. fits f" using assms by (simp add: fits_def MakeCorrPayload_def)
  from feed_frames [OF this]
  have "cn_pending (receive (Got_Bytes (hello_frame boot @ register_frame ids)) new_conn) = [?h, ?g]"
    by (simp add: receive_def new_conn_def hello_frame_def register_frame_def)
  moreover have "fst (get_U64 (MakeReader (MakeCorrPayload boot))) = boot"
    using getsD(1) [OF gets_U64 put_U64_def, of "MakeReader (PutU64 boot)" boot "[]"]
    by (simp add: MakeCorrPayload_def MakeReader_def unread_def)
  then have "handle_frame sys syn ?h (c, w) = reply sys FT_ACK 1 (Inr []) (c\<lparr>cn_boot := boot, cn_worker := (boot \<noteq> 0)\<rparr>, w)"
    by (simp add: handle_frame_def on_hello_def)
  moreover have "handle_frame sys syn ?g (c, w) =
      serve_all (concat (map (\<lambda>i. serve_descriptors sys syn 2 (StrongId i)) ids) @ [reply sys FT_ACK 2 (Inr [])]) (c, w)"
    using register_read [of ids] assms by (simp add: handle_frame_def on_register_def case_prod_beta Let_def comp_def)
  ultimately show ?thesis by blast
qed

theorem opening_frames_understood_witness:
  "\<exists>h g. cn_pending (receive (Got_Bytes (hello_frame 7 @ register_frame (split_nodes ''1,3'' []))) new_conn) = [h, g]"
proof -
  have "length (split_nodes ''1,3'' []) \<le> 511" by (simp add: strtoull_def)
  from opening_frames_understood [OF this] show ?thesis by blast
qed

section \<open>Republishing\<close>

definition payload_of :: "Resource \<Rightarrow> bytes" where
  "payload_of r = (case EncodeResource r of Inl _ \<Rightarrow> [] | Inr b \<Rightarrow> b)"

definition descriptor :: "u64 \<Rightarrow> Resource \<Rightarrow> Frame" where
  "descriptor corr r = \<lparr>fr_type = FT_PUBLISH_RESOURCE, fr_correlation = corr, fr_payload = payload_of r\<rparr>"

fun published_frames :: "u64 \<Rightarrow> u64 \<Rightarrow> Resource list \<Rightarrow> Frame list" where
  "published_frames boot corr [] = []"
| "published_frames boot corr (r # rs) =
     descriptor (corr + 1) (worker_resource boot (resource_read r)) # published_frames boot (corr + 1) rs"

definition publishable :: "u64 \<Rightarrow> Resource \<Rightarrow> bool" where
  "publishable boot r \<longleftrightarrow> resource_fits r \<and> length (payload_of r) \<le> 65536 \<and>
     length (payload_of (worker_resource boot (resource_read r))) \<le> 65536"

lemma decode_descriptor:
  assumes "resource_fits r"
  shows "EncodeResource r = Inr (payload_of r)"
    and "\<exists>rd. DecodeResource Resource_default (MakeReader (payload_of r)) = (True, resource_read r, rd)"
proof -
  show e: "EncodeResource r = Inr (payload_of r)"
    using resource_wire.defined [OF assms] by (auto simp: payload_of_def)
  show "\<exists>rd. DecodeResource Resource_default (MakeReader (payload_of r)) = (True, resource_read r, rd)"
    using resource_wire.reads [OF assms e] by simp
qed

lemma length_dec_string: "n < 10 ^ Suc k \<Longrightarrow> length (dec_string n) \<le> Suc k"
proof (induction k arbitrary: n)
  case 0
  then show ?case by (simp add: dec_string.simps [of n])
next
  case (Suc k)
  have "length (dec_string (n div 10)) \<le> Suc k" by (rule Suc.IH) (use Suc.prems in simp)
  then show ?case by (simp add: dec_string.simps [of n])
qed

lemma length_to_string: "length (to_string v) \<le> 20"
proof -
  have "uint v < 2 ^ 64" for v :: u64 using uint_lt2p [of v] by simp
  from order_less_trans [OF this, of "10 ^ Suc 19"] show ?thesis
    unfolding to_string_def using length_dec_string [of "uint v" 19] by simp
qed

lemma worker_resource_fits: "resource_fits r \<Longrightarrow> resource_fits (worker_resource boot (resource_read r))"
  using length_to_string [of boot]
  by (simp add: resource_fits_def worker_resource_def resource_read_def evidence_fits_def domain_fits_def ValidEnum_def enum_maxima)

lemma worker_resource_stamped [simp]:
  "resource_read (worker_resource boot (resource_read r)) = worker_resource boot (resource_read r)"
  "stamp_resource boot (worker_resource boot q) = worker_resource boot q"
  "r_id (worker_resource boot q) = r_id q"
  by (simp_all add: worker_resource_def resource_read_def stamp_resource_def)

lemma worker_handles:
  assumes "publishable (wk_boot k) r"
  shows "worker_handle (\<lambda>_ _. True) (descriptor corr r) k =
    Inr (k\<lparr>wk_corr := wk_corr k + 1,
      wk_sent := wk_sent k @ [encode_frame (descriptor (wk_corr k + 1) (worker_resource (wk_boot k) (resource_read r)))]\<rparr>)"
proof -
  let ?q = "worker_resource (wk_boot k) (resource_read r)" let ?f = "descriptor (wk_corr k + 1) ?q"
  have r: "resource_fits r" "resource_fits ?q" using assms worker_resource_fits by (simp_all add: publishable_def)
  have f: "fits ?f" using assms by (simp add: publishable_def fits_def descriptor_def)
  have "encode_frame ?f \<noteq> []" unfolding encode_fits [OF f] by (auto dest!: arg_cong [where f = length])
  then show ?thesis
    using decode_descriptor [OF r(1)] decode_descriptor(1) [OF r(2)]
    by (auto simp: worker_handle_def worker_publish_def worker_send_def descriptor_def Let_def)
qed

lemma worker_handles_all:
  "\<forall>r \<in> set rs. publishable (wk_boot k) r \<Longrightarrow>
    \<exists>k'. worker_frames (\<lambda>_ _. True) (map (descriptor corr) rs) k = Inr k' \<and>
      wk_sent k' = wk_sent k @ map encode_frame (published_frames (wk_boot k) (wk_corr k) rs)"
proof (induction rs arbitrary: k)
  case (Cons r rs)
  let ?f = "descriptor (wk_corr k + 1) (worker_resource (wk_boot k) (resource_read r))"
  let ?k1 = "k\<lparr>wk_corr := wk_corr k + 1, wk_sent := wk_sent k @ [encode_frame ?f]\<rparr>"
  have "worker_handle (\<lambda>_ _. True) (descriptor corr r) k = Inr ?k1"
    using Cons.prems by (intro worker_handles) simp
  moreover obtain k' where "worker_frames (\<lambda>_ _. True) (map (descriptor corr) rs) ?k1 = Inr k'"
      "wk_sent k' = wk_sent ?k1 @ map encode_frame (published_frames (wk_boot k) (wk_corr k + 1) rs)"
    using Cons.IH [of ?k1] Cons.prems by auto
  ultimately show ?case by simp
qed simp

definition publish_all :: "u64 \<Rightarrow> Resource list \<Rightarrow> Impl \<Rightarrow> Impl" where
  "publish_all boot rs s = foldl (\<lambda>s r. snd (RegisterResource (worker_resource boot (resource_read r)) s)) s rs"

lemma coordinator_handles:
  assumes "publishable (cn_boot c) r" "cn_worker c"
  shows "handle_frame sys syn (descriptor corr (worker_resource (cn_boot c) (resource_read r))) (c, w) =
    Inr (c, w\<lparr>co_engine := snd (RegisterResource (worker_resource (cn_boot c) (resource_read r)) (co_engine w))\<rparr>)"
proof -
  have "resource_fits (worker_resource (cn_boot c) (resource_read r))"
    using assms(1) worker_resource_fits by (simp add: publishable_def)
  from decode_descriptor(2) [OF this] assms(2) show ?thesis
    by (auto simp: handle_frame_def descriptor_def on_publish_resource_def on_engine_def)
qed

lemma coordinator_handles_all:
  "\<forall>r \<in> set rs. publishable (cn_boot c) r \<Longrightarrow> cn_worker c \<Longrightarrow>
    serve_all (map (handle_frame sys syn) (published_frames (cn_boot c) corr rs)) (c, w) =
      Inr (c, w\<lparr>co_engine := publish_all (cn_boot c) rs (co_engine w)\<rparr>)"
  by (induction rs arbitrary: corr w) (simp_all add: coordinator_handles publish_all_def)

lemma published_fit: "\<forall>r \<in> set rs. publishable boot r \<Longrightarrow> \<forall>f \<in> set (published_frames boot corr rs). fits f"
  by (induction rs arbitrary: corr) (auto simp: publishable_def fits_def descriptor_def)

lemma publish_all_lookup:
  assumes "distinct (map r_id rs)" "\<forall>r \<in> set rs. IsValid (r_id r)"
  shows "GetResource (publish_all boot rs s) i =
    (case find (\<lambda>r. r_id r = i) rs of None \<Rightarrow> GetResource s i | Some r \<Rightarrow> Some (worker_resource boot (resource_read r)))"
  using assms
proof (induction rs arbitrary: s)
  case (Cons r rs)
  have "find (\<lambda>q. r_id q = r_id r) rs = None"
    using Cons.prems(1) by (force simp: find_None_iff image_iff)
  with Cons show ?case
    by (auto simp: publish_all_def GetResource_def RegisterResource_def ingest_lookup split: option.split)
qed (simp add: publish_all_def)

text \<open>
  The two processes on one chunk of descriptors: the worker receives it, and what it sends in answer is
  received on its connection to the coordinator and handled there.
\<close>

definition republish ::
    "System \<Rightarrow> SyntheticBackend \<Rightarrow> bytes \<Rightarrow> Worker \<Rightarrow> served \<Rightarrow> string + served" where
  "republish sys syn d k = (\<lambda>(c, w).
     case worker_receive (\<lambda>_ _. True) (Got_Bytes d) k of
       Inl what \<Rightarrow> Inl what
     | Inr k' \<Rightarrow>
       (let c' = receive (Got_Bytes (concat (drop (length (wk_sent k)) (wk_sent k')))) c in
        serve_all (map (handle_frame sys syn) (cn_pending c')) (c'\<lparr>cn_pending := []\<rparr>, w)))"

lemma republish_runs:
  assumes "\<forall>r \<in> set rs. publishable (wk_boot k) r" "wk_buffer k = []" "cn_buffer c = []" "cn_pending c = []"
    and "cn_worker c" "cn_boot c = wk_boot k"
  shows "republish sys syn (concat (map (\<lambda>r. encode_frame (descriptor corr r)) rs)) k (c, w) =
    Inr (c, w\<lparr>co_engine := publish_all (wk_boot k) rs (co_engine w)\<rparr>)"
proof -
  let ?k = "k\<lparr>wk_buffer := []\<rparr>"
  have "\<forall>f \<in> set (map (descriptor corr) rs). fits f"
    using assms(1) by (auto simp: publishable_def fits_def descriptor_def)
  from feed_frames [OF this] have feed: "worker_receive (\<lambda>_ _. True) (Got_Bytes (concat (map (\<lambda>r. encode_frame (descriptor corr r)) rs))) k =
      worker_frames (\<lambda>_ _. True) (map (descriptor corr) rs) ?k"
    by (simp add: worker_receive_def assms(2) comp_def)
  obtain k' where k': "worker_frames (\<lambda>_ _. True) (map (descriptor corr) rs) ?k = Inr k'"
      "wk_sent k' = wk_sent k @ map encode_frame (published_frames (wk_boot k) (wk_corr k) rs)"
    using worker_handles_all [of rs ?k corr] assms(1) by auto
  have "receive (Got_Bytes (concat (map encode_frame (published_frames (wk_boot k) (wk_corr k) rs)))) c =
      c\<lparr>cn_pending := published_frames (wk_boot k) (wk_corr k) rs\<rparr>"
    using feed_frames [OF published_fit [OF assms(1)]] by (simp add: receive_def assms(3))
  moreover have "c\<lparr>cn_pending := []\<rparr> = c" using assms(4) by simp
  ultimately show ?thesis
    using coordinator_handles_all [of rs c sys syn "wk_corr k" w] assms(1,5,6)
    by (simp add: republish_def feed k' Let_def)
qed


section \<open>A run\<close>

definition ex_worker :: Worker where
  "ex_worker = \<lparr>wk_boot = 7, wk_buffer = [], wk_corr = 100, wk_alive = True, wk_sent = []\<rparr>"

definition ex_conn :: Conn where
  "ex_conn = new_conn\<lparr>cn_boot := 7, cn_worker := True\<rparr>"

definition ex_started :: Coordinator where
  "ex_started = startup True ''state'' 1 coordinator_topology Map.empty"

lemmas encoders = EncodeResource_def encode_resource_def encode_capacity_def encode_locality_def encode_domain_def
  encode_evidence_def encode_capability_def encode_compatibility_def put_vector_def put_entry_def put_U32_def put_U64_def
  put_U8_def put_bool_def put_Dbl_def put_Str_def kMaxLen_eq

lemma ex_publishable: "publishable 7 ex_wire_resource"
proof -
  have "resource_fits ex_wire_resource"
    by (simp add: format_limits model_defaults enum_maxima ex_wire_resource_def ex_resource_def ex_evidence_def)
  moreover have "length (payload_of ex_wire_resource) \<le> 65536"
    by (simp add: payload_of_def encoders ex_wire_resource_def ex_resource_def ex_evidence_def model_defaults)
  moreover have "length (payload_of (worker_resource 7 (resource_read ex_wire_resource))) \<le> 65536"
    by (simp add: payload_of_def encoders ex_wire_resource_def ex_resource_def ex_evidence_def model_defaults
        worker_resource_def resource_read_def to_string_def dec_string.simps)
  ultimately show ?thesis by (simp add: publishable_def)
qed


text \<open>A worker says \<open>HELLO\<close> on a new connection and publishes one resource.\<close>

lemma ex_serving:
  "\<exists>w conns. serving hello_once w conns \<and>
     GetResource (co_engine w) (StrongId 1) = Some (worker_resource 7 (resource_read ex_wire_resource))"
proof -
  let ?q = "worker_resource 7 (resource_read ex_wire_resource)"
  let ?h = "\<lparr>fr_type = FT_HELLO, fr_correlation = 1, fr_payload = PutU64 7\<rparr>"
  let ?f = "descriptor 101 ?q"
  have fit: "fits ?h" "fits ?f" using ex_publishable by (simp_all add: fits_def publishable_def descriptor_def)
  have at: "serving hello_once ex_started [0 \<mapsto> new_conn]"
    unfolding ex_started_def by (intro serving_accept serving_start) simp
  have feed: "receive (Got_Bytes (encode_frame g)) c = c\<lparr>cn_pending := [g]\<rparr>" if "fits g" "cn_buffer c = []" for g c
    using feed_frames [of "[g]"] that by (simp add: receive_def)
  have at: "serving hello_once ex_started [0 \<mapsto> new_conn\<lparr>cn_pending := [?h]\<rparr>]"
    using serving_receive [OF at, of 0 new_conn "Got_Bytes (encode_frame ?h)"] feed [OF fit(1), of new_conn]
    by (simp add: new_conn_def)
  have "get_U64 (MakeReader (PutU64 7)) = (7, advance 8 (MakeReader (PutU64 7)))"
    using getsD(1) [OF gets_U64 put_U64_def, of "MakeReader (PutU64 7)" 7 "[]"] by (simp add: MakeReader_def unread_def)
  then obtain c where c: "handle_frame ex_system coordinator_topology ?h (new_conn, ex_started) = Inr (c, ex_started)"
      "cn_boot c = 7" "cn_worker c" "cn_buffer c = []" "cn_pending c = []" "\<not> cn_done c"
    by (simp add: handle_frame_def on_hello_def reply_def send_frame_def ex_system_def new_conn_def)
  have at: "serving hello_once ex_started [0 \<mapsto> c]"
    using serving_frame [OF at, of 0 "new_conn\<lparr>cn_pending := [?h]\<rparr>" ?h "[]"] c(1)
    by (simp add: hello_once_def new_conn_def)
  have at: "serving hello_once ex_started [0 \<mapsto> c\<lparr>cn_pending := [?f]\<rparr>]"
    using serving_receive [OF at, of 0 c "Got_Bytes (encode_frame ?f)"] feed [OF fit(2), of c] c by simp
  let ?w = "ex_started\<lparr>co_engine := snd (RegisterResource ?q (co_engine ex_started))\<rparr>"
  have "handle_frame ex_system coordinator_topology ?f (c, ex_started) = Inr (c, ?w)"
    using coordinator_handles [of c ex_wire_resource] ex_publishable c by simp
  moreover have "c\<lparr>cn_pending := []\<rparr> = c" using c(5) by simp
  ultimately have "serving hello_once ?w [0 \<mapsto> c]"
    using serving_frame [OF at, of 0 "c\<lparr>cn_pending := [?f]\<rparr>" ?f "[]"] by (simp add: hello_once_def descriptor_def)
  moreover have "GetResource (co_engine ?w) (StrongId 1) = Some ?q"
    by (simp add: RegisterResource_def GetResource_def ingest_lookup IsValid_def resource_read_def ex_wire_resource_def ex_resource_def)
  ultimately show ?thesis by blast
qed

text \<open>
  C12. Evidence lives as long as its worker: if no connection introduces itself twice, then in every state of
  the coordinator a resource whose evidence is current and not durable is owned by the boot number of a
  worker whose connection is open.
\<close>

theorem evidence_needs_live_worker:
  assumes "serving hello_once w conns" "GetResource (co_engine w) i = Some r"
    and "IsCurrent (r_evidence r)" "\<not> ev_durable (r_evidence r)"
  shows "\<exists>k c. conns k = Some c \<and> cn_worker c \<and> ev_owner (r_evidence r) = to_string (cn_boot c)"
  using vouched_always [OF assms(1)] assms(2-) unfolding vouched_def live_owner_def by blast

theorem evidence_needs_live_worker_witness:
  "\<exists>w conns r k c. serving hello_once w conns \<and> GetResource (co_engine w) (StrongId 1) = Some r \<and>
     conns k = Some c \<and> cn_worker c \<and> ev_owner (r_evidence r) = to_string (cn_boot c)"
proof -
  obtain w conns where s: "serving hello_once w conns"
      "GetResource (co_engine w) (StrongId 1) = Some (worker_resource 7 (resource_read ex_wire_resource))"
    using ex_serving by blast
  have "\<exists>k c. conns k = Some c \<and> cn_worker c \<and>
      ev_owner (r_evidence (worker_resource 7 (resource_read ex_wire_resource))) = to_string (cn_boot c)"
    by (rule evidence_needs_live_worker [OF s]) (simp_all add: worker_resource_def IsCurrent_def)
  with s show ?thesis by blast
qed

end
