(* ===== verification/Fabric_Process.thy ===== *)
theory Fabric_Process
  imports Fabric_Worker
begin

text \<open>
  The \<open>main\<close> functions of \<open>deploy/coordinator.cpp\<close> and \<open>deploy/worker.cpp\<close>: their options, what they
  write to the error stream and return, and the sockets they hold.  The coordinator with its accept
  loop and its connection threads is a state machine over the handles of the operating system; it
  refines the one of \<open>Fabric_Coordinator\<close>, which has no sockets.
\<close>

section \<open>Options of the coordinator\<close>

record CoordOptions =
  op_port :: int
  op_epoch :: u64
  op_state :: string
  op_markdir :: string

definition coord_defaults :: CoordOptions where
  "coord_defaults = \<lparr>op_port = 0, op_epoch = 1, op_state = ''coordinator.state'', op_markdir = []\<rparr>"

definition coord_option :: "CoordOptions \<Rightarrow> string \<Rightarrow> CoordOptions" where
  "coord_option o0 a =
     (let o1 = (if starts_with ''--port='' a then o0\<lparr>op_port := atoi (drop 7 a)\<rparr> else o0);
          o2 = (if starts_with ''--epoch='' a then o1\<lparr>op_epoch := strtoull (drop 8 a)\<rparr> else o1);
          o3 = (if starts_with ''--state='' a then o2\<lparr>op_state := drop 8 a\<rparr> else o2)
      in if starts_with ''--markdir='' a then o3\<lparr>op_markdir := drop 10 a\<rparr> else o3)"

definition coord_options :: "string list \<Rightarrow> CoordOptions" where
  "coord_options args = foldl coord_option coord_defaults args"

section \<open>The coordinator's start\<close>

record Process =
  ps_world :: Coordinator
  ps_os :: Winsock
  ps_server :: ServerSocket
  ps_conns :: "nat \<rightharpoonup> TcpSocket \<times> Conn"

definition seeded :: "SyntheticBackend \<Rightarrow> Impl" where
  "seeded syn = foldl (seed_path syn) (AddBackend (Some (as_backend syn)) (FabricEngine coordinator_config))
     (List.product (DiscoverNodes syn) (DiscoverNodes syn))"

definition load_warning :: "bool \<Rightarrow> string \<Rightarrow> files \<Rightarrow> string" where
  "load_warning read_good path fs =
     (if fs path \<noteq> None
      then let lr = fst (engine_Load read_good path fs (seeded coordinator_topology)) in
        if \<not> lr_ok lr then ''coordinator: load warning: '' @ lr_error lr @ [CHR 0x0A] else []
      else [])"

text \<open>
  What is written to the error stream, and either the exit code with what the destructor of \<open>server\<close>
  leaves of the handles, or the process in its accept loop.
\<close>

definition coordinator_main ::
    "bool \<Rightarrow> listen_answers \<Rightarrow> string list \<Rightarrow> files \<Rightarrow> Winsock \<Rightarrow> string \<times> (int \<times> Winsock + Process)" where
  "coordinator_main read_good ans args fs os =
     (let opts = coord_options args in
      if op_port opts \<le> 0 then (''coordinator: --port required'' @ [CHR 0x0A], Inl (1, os))
      else let
          w = startup read_good (op_state opts) (op_epoch opts) coordinator_topology fs;
          warning = load_warning read_good (op_state opts) fs;
          (good, server, os1) = Listen ans (op_port opts) os
        in
          if \<not> good
          then (warning @ ''coordinator: listen failed on '' @ int_string (op_port opts) @ [CHR 0x0A],
            Inl (1, snd (socket_Close server os1)))
          else (warning @ ''coordinator: listening on '' @ int_string (op_port opts) @ '' epoch='' @ to_string (op_epoch opts) @ [CHR 0x0A],
            Inr \<lparr>ps_world = w, ps_os = os1, ps_server = server, ps_conns = Map.empty\<rparr>))"

section \<open>The accept loop\<close>

text \<open>
  One turn of the loop, for the thread numbered \<open>k\<close>: the connection is moved into the thread's function,
  and what is left of the local variable is destroyed at the end of the turn.
\<close>

definition accept_turn :: "nat \<Rightarrow> SOCKET \<Rightarrow> bool \<Rightarrow> Process \<Rightarrow> Process" where
  "accept_turn k cs granted p =
     (let (conn, os1) = Accept cs granted (ps_os p) in
      if \<not> tcp_Valid conn then p\<lparr>ps_os := snd (socket_Close conn os1)\<rparr>
      else let (captured, left) = tcp_move conn in
        p\<lparr>ps_os := snd (socket_Close left os1), ps_conns := (ps_conns p)(k \<mapsto> (captured, new_conn))\<rparr>)"

text \<open>The end of a thread: the evidence of a worker is revoked, \<open>conn.Close()\<close>, and the destructor of \<open>conn\<close>.\<close>

definition thread_end :: "nat \<Rightarrow> TcpSocket \<Rightarrow> Conn \<Rightarrow> Process \<Rightarrow> Process" where
  "thread_end k conn c p =
     (let w = (ps_world p)\<lparr>co_engine := disconnect c (co_engine (ps_world p))\<rparr>;
          (conn1, os1) = socket_Close conn (ps_os p)
      in p\<lparr>ps_world := w, ps_os := snd (socket_Close conn1 os1), ps_conns := (ps_conns p)(k := None)\<rparr>)"

text \<open>
  The process after its start with no handle open: turns of the accept loop, and turns and frames of
  the connection threads in any order.  \<open>running\<close> is set once and never cleared, so no step leaves the
  loops by it.
\<close>

inductive process :: "(Conn \<Rightarrow> Frame \<Rightarrow> bool) \<Rightarrow> string list \<Rightarrow> Process \<Rightarrow> bool" for G args where
  process_start: "ws_open os = {} \<Longrightarrow> closes_good os \<Longrightarrow>
    coordinator_main read_good ans args fs os = (err, Inr p) \<Longrightarrow> process G args p"
| process_accept: "process G args p \<Longrightarrow> ps_conns p k = None \<Longrightarrow> unused cs (ps_os p) \<Longrightarrow>
    process G args (accept_turn k cs granted p)"
| process_receive: "process G args p \<Longrightarrow> ps_conns p k = Some (s, c) \<Longrightarrow> \<not> cn_done c \<Longrightarrow> cn_pending c = [] \<Longrightarrow>
    process G args (p\<lparr>ps_conns := (ps_conns p)(k \<mapsto> (s, receive got c))\<rparr>)"
| process_frame: "process G args p \<Longrightarrow> ps_conns p k = Some (s, c) \<Longrightarrow> cn_pending c = f # fs \<Longrightarrow> G c f \<Longrightarrow>
    sy_state_path sys = op_state (coord_options args) \<Longrightarrow> sy_markdir sys = op_markdir (coord_options args) \<Longrightarrow>
    handle_frame sys coordinator_topology f (c\<lparr>cn_pending := fs\<rparr>, ps_world p) = Inr (c', w') \<Longrightarrow>
    process G args (p\<lparr>ps_world := w', ps_conns := (ps_conns p)(k \<mapsto> (s, c'))\<rparr>)"
| process_end: "process G args p \<Longrightarrow> ps_conns p k = Some (s, c) \<Longrightarrow> cn_done c \<Longrightarrow> cn_pending c = [] \<Longrightarrow>
    process G args (thread_end k s c p)"

section \<open>Options of the worker\<close>

record WorkerOptions =
  wo_host :: string
  wo_port :: int
  wo_boot :: u64
  wo_nodes :: string

definition worker_defaults :: WorkerOptions where
  "worker_defaults = \<lparr>wo_host = ''127.0.0.1'', wo_port = 0, wo_boot = 0, wo_nodes = []\<rparr>"

text \<open>Without a colon \<open>e\<close> is \<open>npos\<close>: the host is the whole rest, and \<open>e + 1\<close> wraps to the start of the argument.\<close>

definition worker_option :: "WorkerOptions \<Rightarrow> string \<Rightarrow> WorkerOptions" where
  "worker_option o0 a =
     (let o1 = (if starts_with ''--coord='' a
                then case find_char (CHR '':'') a of
                    Some e \<Rightarrow> o0\<lparr>wo_host := take (e - 8) (drop 8 a), wo_port := atoi (drop (e + 1) a)\<rparr>
                  | None \<Rightarrow> o0\<lparr>wo_host := drop 8 a, wo_port := atoi a\<rparr>
                else o0);
          o2 = (if starts_with ''--boot='' a then o1\<lparr>wo_boot := strtoull (drop 7 a)\<rparr> else o1)
      in if starts_with ''--nodes='' a then o2\<lparr>wo_nodes := drop 8 a\<rparr> else o2)"

definition worker_options :: "string list \<Rightarrow> WorkerOptions" where
  "worker_options args = foldl worker_option worker_defaults args"

section \<open>The worker's main function\<close>

text \<open>
  \<open>Running\<close> when the answers of the network run out, \<open>Aborted\<close> when an exception leaves \<open>main\<close>.
\<close>

datatype worker_run = Exited int string Winsock | Aborted string | Running Worker

definition receive_message :: "received \<Rightarrow> Worker \<Rightarrow> string" where
  "receive_message got k =
     (case got of
        Got_Bytes d \<Rightarrow>
          (let r = Feed (wk_buffer k) d in
           if \<not> fe_ok r then ''worker: protocol error: '' @ fe_err r @ [CHR 0x0A] else [])
      | _ \<Rightarrow> [])"

fun worker_loop :: "(bytes list \<Rightarrow> bytes \<Rightarrow> bool) \<Rightarrow> received list \<Rightarrow> string \<Rightarrow> Worker \<Rightarrow> string + (bool \<times> string \<times> Worker)" where
  "worker_loop sends [] err k = Inr (\<not> wk_alive k, err, k)"
| "worker_loop sends (got # gots) err k =
     (if \<not> wk_alive k then Inr (True, err, k)
      else case worker_receive sends got k of
          Inl what \<Rightarrow> Inl what
        | Inr k1 \<Rightarrow> worker_loop sends gots (err @ receive_message got k) k1)"

definition worker_main ::
    "connect_answers \<Rightarrow> (bytes list \<Rightarrow> bytes \<Rightarrow> bool) \<Rightarrow> received list \<Rightarrow> string list \<Rightarrow> Winsock \<Rightarrow> worker_run" where
  "worker_main ans sends gots args os =
     (let opts = worker_options args in
      if wo_port opts \<le> 0 then Exited 1 (''worker: --coord required'' @ [CHR 0x0A]) os
      else case Connect ans (wo_host opts) (wo_port opts) os of
        (Inl what, os1) \<Rightarrow>
          Exited 1 (''worker: connect failed: '' @ what @ [CHR 0x0A]) (snd (socket_Close TcpSocket_default os1))
      | (Inr s, os1) \<Rightarrow>
          (let (sock, temp, os2) = tcp_assign TcpSocket_default s os1;
               os3 = snd (socket_Close temp os2)
           in case worker_start sends (wo_boot opts) (wo_nodes opts) of
                None \<Rightarrow> Exited 1 [] (snd (socket_Close sock os3))
              | Some k \<Rightarrow>
                (case worker_loop sends gots [] k of
                   Inl what \<Rightarrow> Aborted what
                 | Inr (ended, err, k1) \<Rightarrow>
                     if \<not> ended then Running k1
                     else let (sock1, os4) = socket_Close sock os3 in Exited 0 err (snd (socket_Close sock1 os4)))))"

section \<open>The coordinator's sockets\<close>

definition process_objects :: "Process \<Rightarrow> holder \<rightharpoonup> SOCKET" where
  "process_objects p x =
     (case x of Server n \<Rightarrow> if n = 0 then Some (ps_server p) else None | Tcp k \<Rightarrow> map_option fst (ps_conns p k))"

definition process_conns :: "Process \<Rightarrow> nat \<rightharpoonup> Conn" where
  "process_conns p k = map_option snd (ps_conns p k)"

lemma socket_Close_eq [simp]:
  "fst (socket_Close s os) = INVALID_SOCKET" "socket_Close INVALID_SOCKET os = (INVALID_SOCKET, os)"
  by (simp_all add: socket_Close_def)

lemma accept_turn_eq:
  "accept_turn k cs granted p =
     (if cs = INVALID_SOCKET then p
      else p\<lparr>ps_os := snd (Accept cs granted (ps_os p)), ps_conns := (ps_conns p)(k \<mapsto> (cs, new_conn))\<rparr>)"
  by (simp add: accept_turn_def Accept_def tcp_Valid_def tcp_move_def TcpSocket_default_def)

lemma thread_end_eq:
  "thread_end k s c p = p\<lparr>ps_world := (ps_world p)\<lparr>co_engine := disconnect c (co_engine (ps_world p))\<rparr>,
     ps_os := snd (socket_Close s (ps_os p)), ps_conns := (ps_conns p)(k := None)\<rparr>"
  by (simp add: thread_end_def socket_Close_def Let_def)

lemma coordinator_main_started:
  assumes "coordinator_main read_good ans args fs os = (err, Inr p)"
  shows "ps_world p = startup read_good (op_state (coord_options args)) (op_epoch (coord_options args)) coordinator_topology fs"
    and "ps_conns p = Map.empty"
    and "Listen ans (op_port (coord_options args)) os = (True, ps_server p, ps_os p)"
    and "0 < op_port (coord_options args)"
  using assms by (auto simp: coordinator_main_def Let_def split: if_splits prod.splits)

lemma process_conns_upd [simp]:
  "process_conns (p\<lparr>ps_conns := (ps_conns p)(k := v)\<rparr>) = (process_conns p)(k := map_option snd v)"
  "process_conns (p\<lparr>ps_world := w, ps_conns := (ps_conns p)(k := v)\<rparr>) = (process_conns p)(k := map_option snd v)"
  "process_conns (p\<lparr>ps_os := os, ps_conns := (ps_conns p)(k := v)\<rparr>) = (process_conns p)(k := map_option snd v)"
  "process_conns (p\<lparr>ps_world := w, ps_os := os, ps_conns := (ps_conns p)(k := v)\<rparr>) = (process_conns p)(k := map_option snd v)"
  by (auto simp: process_conns_def fun_eq_iff)

lemma process_serving: "process G args p \<Longrightarrow> serving G (ps_world p) (process_conns p)"
  supply fun_upd_apply [simp del]
proof (induction rule: process.induct)
  case (process_start os read_good ans fs err p)
  note started = coordinator_main_started [OF process_start.hyps(3)]
  have "process_conns p = Map.empty" by (simp add: process_conns_def started(2) fun_eq_iff)
  then show ?case by (simp add: started(1) serving_start)
next
  case (process_accept p k cs granted)
  have "process_conns p k = None" using process_accept.hyps(2) by (simp add: process_conns_def)
  from serving_accept [OF process_accept.IH this] process_accept.IH show ?case by (simp add: accept_turn_eq)
next
  case (process_receive p k s c got)
  have "process_conns p k = Some c" using process_receive.hyps(2) by (simp add: process_conns_def)
  from serving_receive [OF process_receive.IH this process_receive.hyps(3,4)] show ?case by simp
next
  case (process_frame p k s c f fs sys c' w')
  have "process_conns p k = Some c" using process_frame.hyps(2) by (simp add: process_conns_def)
  from serving_frame [OF process_frame.IH this process_frame.hyps(3,4,7)] show ?case by simp
next
  case (process_end p k s c)
  have "process_conns p k = Some c" using process_end.hyps(2) by (simp add: process_conns_def)
  from serving_close [OF process_end.IH this process_end.hyps(3,4)] show ?case by (simp add: thread_end_eq)
qed

lemma process_objects_upd [simp]:
  "process_objects (p\<lparr>ps_os := os, ps_conns := (ps_conns p)(k := v)\<rparr>) = (process_objects p)(Tcp k := map_option fst v)"
  "process_objects (p\<lparr>ps_world := w, ps_os := os, ps_conns := (ps_conns p)(k := v)\<rparr>) = (process_objects p)(Tcp k := map_option fst v)"
  by (auto simp: process_objects_def fun_eq_iff split: holder.split)

lemma handles_none: "ws_open os = {} \<Longrightarrow> closes_good os \<Longrightarrow> handles_owned ([x \<mapsto> INVALID_SOCKET]) os"
  by (auto simp: handles_owned_def owned_def sole_def ran_def split: if_splits)

lemma process_objects_ran: "process_objects p x = Some s \<Longrightarrow> s \<in> insert (ps_server p) (fst ` ran (ps_conns p))"
  by (cases x) (force simp: process_objects_def ran_def split: if_splits)+

lemma process_owned: "process G args p \<Longrightarrow> handles_owned (process_objects p) (ps_os p)"
  supply fun_upd_apply [simp del]
proof (induction rule: process.induct)
  case (process_start os read_good ans fs err p)
  note started = coordinator_main_started [OF process_start.hyps(3)]
  have none: "handles_owned ([Server 0 \<mapsto> INVALID_SOCKET]) os" by (rule handles_none [OF process_start.hyps(1,2)])
  have "process_objects p = [Server 0 \<mapsto> ps_server p]"
    using started(2) by (auto simp: process_objects_def fun_eq_iff fun_upd_apply split: holder.split)
  moreover have "handles_owned ([Server 0 \<mapsto> INVALID_SOCKET, Server 0 \<mapsto> ps_server p]) (ps_os p)"
    by (rule handles_listen [OF none _ _ started(3)]) (simp_all add: unused_def process_start.hyps(1) fun_upd_apply)
  ultimately show ?case by (simp)
next
  case (process_accept p k cs granted)
  have none: "process_objects p (Tcp k) = None" using process_accept.hyps(2) by (simp add: process_objects_def)
  from handles_accept [OF process_accept.IH process_accept.hyps(3) none] process_accept.IH show ?case
    by (auto simp: accept_turn_eq Accept_def)
next
  case (process_receive p k s c got)
  have "process_objects (p\<lparr>ps_conns := (ps_conns p)(k \<mapsto> (s, receive got c))\<rparr>) = process_objects p"
    using process_receive.hyps(2) by (auto simp: process_objects_def fun_eq_iff fun_upd_apply split: holder.split)
  with process_receive.IH show ?case by simp
next
  case (process_frame p k s c f fs sys c' w')
  have "process_objects (p\<lparr>ps_world := w', ps_conns := (ps_conns p)(k \<mapsto> (s, c'))\<rparr>) = process_objects p"
    using process_frame.hyps(2) by (auto simp: process_objects_def fun_eq_iff fun_upd_apply split: holder.split)
  with process_frame.IH show ?case by simp
next
  case (process_end p k s c)
  have "process_objects p (Tcp k) = Some s" using process_end.hyps(2) by (simp add: process_objects_def)
  from handles_close [OF process_end.IH this, of None] show ?case by (simp add: thread_end_eq)
qed

lemma Listen_port: "Listen ans port os = (True, s, os') \<Longrightarrow> s \<noteq> INVALID_SOCKET \<and> ws_port os' s = Some (word_of_int port)"
  by (auto simp: Listen_def Let_def set_nonblocking_def split: if_splits)

lemma process_valid: "process G args p \<Longrightarrow> ps_conns p k = Some (s, c) \<Longrightarrow> s \<noteq> INVALID_SOCKET"
proof (induction arbitrary: k s c rule: process.induct)
  case (process_start os read_good ans fs err p)
  with coordinator_main_started(2) [OF process_start.hyps(3)] show ?case by simp
qed (auto simp: accept_turn_eq thread_end_eq split: if_splits)

lemma process_listens:
  "process G args p \<Longrightarrow> ps_server p \<noteq> INVALID_SOCKET \<and> ws_port (ps_os p) (ps_server p) = Some (word_of_int (op_port (coord_options args)))"
proof (induction rule: process.induct)
  case (process_start os read_good ans fs err p)
  from Listen_port [OF coordinator_main_started(3) [OF process_start.hyps(3)]] show ?case .
next
  case (process_accept p k cs granted)
  then show ?case by (auto simp: accept_turn_eq Accept_def set_nonblocking_def opened_def)
next
  case (process_end p k s c)
  have "sole (process_objects p)" using process_owned [OF process_end.hyps(1)] by (simp add: handles_owned_def)
  moreover have "process_objects p (Tcp k) = Some s" "process_objects p (Server 0) = Some (ps_server p)"
    using process_end.hyps(2) by (simp_all add: process_objects_def)
  ultimately have "s \<noteq> ps_server p" using process_end.IH unfolding sole_def by blast
  with process_end.IH show ?case by (auto simp: thread_end_eq socket_Close_def closesocket_def)
qed simp_all

text \<open>
  C20. The running coordinator, with its accept loop and any number of connection threads, is the state
  machine of its frame handlers; and of the handles of the operating system exactly the listening one
  and those of the connections that have not ended are open, each held by one object, none ever
  closed twice.  The listening socket is bound to the port of the command line, cut to 16 bits.
\<close>

theorem coordinator_process:
  assumes "process G args p"
  shows "serving G (ps_world p) (process_conns p) \<and>
    ws_open (ps_os p) = insert (ps_server p) (fst ` ran (ps_conns p)) \<and>
    (\<forall>k s c. ps_conns p k = Some (s, c) \<longrightarrow> s \<noteq> ps_server p \<and> (\<forall>j d. ps_conns p j = Some (s, d) \<longrightarrow> j = k)) \<and>
    closes_good (ps_os p) \<and>
    ws_port (ps_os p) (ps_server p) = Some (word_of_int (op_port (coord_options args)))"
proof -
  let ?obj = "process_objects p"
  have ok: "ws_open (ps_os p) = owned ?obj" "sole ?obj" "closes_good (ps_os p)"
    using process_owned [OF assms] by (simp_all add: handles_owned_def)
  have conn: "?obj (Tcp k) = Some s \<and> s \<noteq> INVALID_SOCKET" if "ps_conns p k = Some (s, c)" for k s c
    using process_valid [OF assms that] that by (simp add: process_objects_def)
  have server: "?obj (Server 0) = Some (ps_server p)" by (simp add: process_objects_def)
  have "owned ?obj = insert (ps_server p) (fst ` ran (ps_conns p))"
  proof
    show "owned ?obj \<subseteq> insert (ps_server p) (fst ` ran (ps_conns p))"
      using process_objects_ran [of p] by (auto simp: owned_def ran_def [of "process_objects p"])
    have own: "s \<in> owned ?obj" if "?obj x = Some s" "s \<noteq> INVALID_SOCKET" for x s
      using that by (auto simp: owned_def ran_def)
    have "fst sc \<in> owned ?obj" if "sc \<in> ran (ps_conns p)" for sc
      using that conn [of _ "fst sc" "snd sc"] own by (auto simp: ran_def)
    with own [OF server] process_listens [OF assms]
    show "insert (ps_server p) (fst ` ran (ps_conns p)) \<subseteq> owned ?obj" by auto
  qed
  moreover have "s \<noteq> ps_server p \<and> (\<forall>j d. ps_conns p j = Some (s, d) \<longrightarrow> j = k)" if "ps_conns p k = Some (s, c)" for k s c
  proof -
    have one: "x = Tcp k" if "?obj x = Some s" for x
      using ok(2) conn [OF \<open>ps_conns p k = Some (s, c)\<close>] that unfolding sole_def by blast
    have "s \<noteq> ps_server p" using one [of "Server 0"] server by auto
    moreover have "j = k" if "ps_conns p j = Some (s, d)" for j d using one [of "Tcp j"] conn [OF that] by simp
    ultimately show ?thesis by blast
  qed
  ultimately show ?thesis using ok process_listens [OF assms] process_serving [OF assms] by blast
qed

section \<open>Command lines\<close>

text \<open>
  The coordinator understands its command line: given a port below 65536 and an epoch that is not zero,
  both printed in decimal, and a state file, a start that succeeds listens on exactly this port, and
  the engine has that epoch whatever the state file holds.
\<close>

theorem coordinator_options_understood:
  assumes "0 < port" "port < 65536" "e \<noteq> 0"
    and "coordinator_main read_good ans [''--port='' @ int_string port, ''--epoch='' @ to_string e, ''--state='' @ path] fs os = (err, Inr p)"
  shows "map_option uint (ws_port (ps_os p) (ps_server p)) = Some port \<and>
    im_epoch (co_engine (ps_world p)) = StrongGeneration e \<and>
    ps_world p = startup read_good path e coordinator_topology fs"
proof -
  let ?args = "[''--port='' @ int_string port, ''--epoch='' @ to_string e, ''--state='' @ path]"
  have opts: "coord_options ?args = \<lparr>op_port = port, op_epoch = e, op_state = path, op_markdir = []\<rparr>"
    using assms(1,2) by (simp add: coord_options_def coord_option_def coord_defaults_def atoi_int_string)
  note started = coordinator_main_started [OF assms(4), unfolded opts CoordOptions.simps]
  have "uint (word_of_int port :: 16 word) = port" using assms(1,2) by (simp add: uint_word_of_int)
  moreover have "im_epoch (co_engine (ps_world p)) = StrongGeneration e"
    using started(1) assms(3) by (simp add: startup_def Let_def AdvanceEpoch_def gen_IsValid_def)
  ultimately show ?thesis using Listen_port [OF started(3)] started(1) by simp
qed

text \<open>The node list as the operator writes it.\<close>

fun join_nodes :: "u64 list \<Rightarrow> string" where
  "join_nodes [] = []"
| "join_nodes [i] = to_string i"
| "join_nodes (i # ids) = to_string i @ CHR '','' # join_nodes ids"

lemma split_nodes_run:
  assumes "CHR '','' \<notin> set s"
  shows "split_nodes (s @ rest) cur = split_nodes rest (cur @ s)"
  using assms by (induction s arbitrary: cur) auto

lemma to_string_shape: "to_string i \<noteq> []" "CHR '','' \<notin> set (to_string i)" "CHR '':'' \<notin> set (to_string i)"
  using to_string_digits [of i] dec_string_nonempty by (auto simp: to_string_def)

lemma split_join_nodes: "split_nodes (join_nodes ids) [] = ids"
proof (induction ids rule: join_nodes.induct)
  case (2 i)
  show ?case using split_nodes_run [OF to_string_shape(2), of i "[]" "[]"] by (simp add: to_string_shape)
next
  case (3 i j ids)
  then show ?case
    using split_nodes_run [OF to_string_shape(2), of i "CHR '','' # join_nodes (j # ids)" "[]"] by (simp add: to_string_shape)
qed simp


section \<open>The worker ends\<close>

lemma worker_loop_ends:
  "Peer_Closed \<in> set gots \<or> Net_Error \<in> set gots \<Longrightarrow> worker_loop sends gots err k = Inr (ended, err', k') \<Longrightarrow> ended"
proof (induction gots arbitrary: err k)
  case (Cons got gots)
  show ?case
  proof (cases "got = Peer_Closed \<or> got = Net_Error")
    case True
    then obtain k1 where "worker_receive sends got k = Inr k1" "\<not> wk_alive k1" by (auto simp: worker_receive_def)
    with Cons.prems(2) show ?thesis by (cases gots) (auto split: if_splits)
  next
    case False
    with Cons show ?thesis by (auto split: if_splits sum.splits)
  qed
qed simp

lemma connect_handles:
  assumes "ws_open os = {}" "closes_good os" "Connect ans host port os = (r, os1)"
  shows "case r of Inl _ \<Rightarrow> handles_owned Map.empty os1 | Inr s \<Rightarrow> handles_owned [Tcp 0 \<mapsto> s] os1"
proof -
  have none: "handles_owned Map.empty os" using assms(1,2) by (simp add: handles_owned_def owned_def sole_def)
  have "answers_fresh (Op_Connect 0 ans host port) os"
    using assms(1) by (auto simp: unused_def list_all_def split: option.split)
  from handles_connect [OF none this assms(3), of "Tcp 0"] show ?thesis by (simp split: sum.splits)
qed

text \<open>
  C38. The worker ends: whatever the network delivers, once it reports that the coordinator has closed the
  connection or an error, the process has ended, and unless an exception ended it, no socket handle
  is left open and each was closed once.  It reports success exactly when it had a port, could connect and send its
  opening frames.
\<close>

theorem worker_terminates:
  assumes "ws_open os = {}" "closes_good os" "Peer_Closed \<in> set gots \<or> Net_Error \<in> set gots"
  shows "(\<exists>what. worker_main ans sends gots args os = Aborted what) \<or>
    (\<exists>code err os'. worker_main ans sends gots args os = Exited code err os' \<and> ws_open os' = {} \<and> closes_good os' \<and>
       (if 0 < wo_port (worker_options args) \<and>
          (\<exists>s. fst (Connect ans (wo_host (worker_options args)) (wo_port (worker_options args)) os) = Inr s) \<and>
          worker_start sends (wo_boot (worker_options args)) (wo_nodes (worker_options args)) \<noteq> None
        then code = 0 else code = 1))"
proof (cases "0 < wo_port (worker_options args)")
  case False
  with assms show ?thesis by (simp add: worker_main_def)
next
  case True
  let ?o = "worker_options args"
  obtain r os1 where c: "Connect ans (wo_host ?o) (wo_port ?o) os = (r, os1)" by fastforce
  note handles = connect_handles [OF assms(1,2) c]
  show ?thesis
  proof (cases r)
    case (Inl what)
    with True c handles show ?thesis by (simp add: worker_main_def TcpSocket_default_def handles_owned_def owned_def)
  next
    case (Inr s)
    have main: "worker_main ans sends gots args os =
        (case worker_start sends (wo_boot ?o) (wo_nodes ?o) of
           None \<Rightarrow> Exited 1 [] (snd (socket_Close s os1))
         | Some k \<Rightarrow> (case worker_loop sends gots [] k of
              Inl what \<Rightarrow> Aborted what
            | Inr (ended, err, k1) \<Rightarrow> if \<not> ended then Running k1 else Exited 0 err (snd (socket_Close s os1))))"
      using True c Inr
      by (simp add: worker_main_def Let_def tcp_assign_def TcpSocket_default_def case_prod_beta cong: option.case_cong sum.case_cong if_cong)
    have "handles_owned Map.empty (snd (socket_Close s os1))"
      using handles_close [of "[Tcp 0 \<mapsto> s]" os1 "Tcp 0" s None] handles Inr by simp
    then have closed: "ws_open (snd (socket_Close s os1)) = {}" "closes_good (snd (socket_Close s os1))"
      by (simp_all add: handles_owned_def owned_def)
    show ?thesis
    proof (cases "worker_start sends (wo_boot ?o) (wo_nodes ?o)")
      case None
      with main closed show ?thesis by simp
    next
      case (Some k)
      show ?thesis
      proof (cases "worker_loop sends gots [] k")
        case (Inl what)
        with main Some show ?thesis by simp
      next
        case (Inr res)
        then obtain ended err k1 where res: "worker_loop sends gots [] k = Inr (ended, err, k1)" by (cases res) auto
        with worker_loop_ends [OF assms(3) res] main Some closed True c \<open>r = Inr s\<close> show ?thesis by simp
      qed
    qed
  qed
qed

definition ex_os :: Winsock where
  "ex_os = \<lparr>ws_open = {}, ws_closed = [], ws_port = Map.empty, ws_nonblocking = {}\<rparr>"

definition ex_worker_args :: "string list" where
  "ex_worker_args = [''--coord=localhost:7000'', ''--boot=7'', ''--nodes=1,2'']"

lemma ex_worker_options:
  "worker_options ex_worker_args = \<lparr>wo_host = ''localhost'', wo_port = 7000, wo_boot = 7, wo_nodes = ''1,2''\<rparr>"
  by code_simp

lemma ex_worker_starts: "worker_start (\<lambda>_ _. True) 7 ''1,2'' = Some k \<Longrightarrow> wk_alive k"
  by (auto simp: worker_start_def Let_def)

theorem worker_terminates_witness:
  "\<exists>err os'. worker_main ex_connect (\<lambda>_ _. True) [Would_Block, Peer_Closed] ex_worker_args ex_os = Exited 0 err os' \<and>
     ws_open os' = {} \<and> closes_good os'"
proof -
  let ?main = "worker_main ex_connect (\<lambda>_ _. True) [Would_Block, Peer_Closed] ex_worker_args ex_os"
  have c: "fst (Connect ex_connect ''localhost'' 7000 ex_os) = Inr 8"
    by (simp add: Connect_def ex_connect_def INVALID_SOCKET_def Let_def)
  have s: "worker_start (\<lambda>_ _. True) 7 ''1,2'' \<noteq> None" by (simp add: worker_start_def Let_def)
  have "?main \<noteq> Aborted what" for what
    using ex_worker_starts c
    by (auto simp: worker_main_def ex_worker_options worker_receive_def Let_def case_prod_beta split: sum.splits option.splits)
  with worker_terminates [of ex_os "[Would_Block, Peer_Closed]" ex_connect "\<lambda>_ _. True" ex_worker_args] c s show ?thesis
    by (auto simp: ex_os_def closes_good_def ex_worker_options)
qed


definition ex_listen :: listen_answers where
  "ex_listen = \<lparr>la_socket = 4, la_binds = True, la_listens = True, la_nonblocking = True\<rparr>"

lemma ex_coordinator:
  assumes "0 < op_port (coord_options args)"
  shows "\<exists>err p. coordinator_main True ex_listen args fs ex_os = (err, Inr p)"
  using assms by (simp add: coordinator_main_def Let_def Listen_def ex_listen_def INVALID_SOCKET_def)

theorem coordinator_options_understood_witness:
  "\<exists>err p. coordinator_main True ex_listen [''--port='' @ int_string 7000, ''--epoch='' @ to_string 3, ''--state='' @ ''state''] Map.empty ex_os = (err, Inr p) \<and>
     map_option uint (ws_port (ps_os p) (ps_server p)) = Some 7000 \<and> im_epoch (co_engine (ps_world p)) = StrongGeneration 3"
proof -
  let ?args = "[''--port='' @ int_string 7000, ''--epoch='' @ to_string 3, ''--state='' @ ''state'']"
  have "0 < op_port (coord_options ?args)"
    by (simp add: coord_options_def coord_option_def coord_defaults_def atoi_int_string)
  from ex_coordinator [OF this] obtain err p where p: "coordinator_main True ex_listen ?args Map.empty ex_os = (err, Inr p)" by blast
  have "map_option uint (ws_port (ps_os p) (ps_server p)) = Some 7000 \<and> im_epoch (co_engine (ps_world p)) = StrongGeneration 3"
    using coordinator_options_understood [OF _ _ _ p] by fastforce
  with p show ?thesis by blast
qed

theorem coordinator_process_witness:
  "\<exists>p. process (\<lambda>_ _. True) [''--port=7000''] p \<and> process_conns p 0 = Some new_conn \<and> ws_open (ps_os p) = {4, 8}"
proof -
  have "0 < op_port (coord_options [''--port=7000''])" by code_simp
  from ex_coordinator [OF this] obtain err p where p: "coordinator_main True ex_listen [''--port=7000''] Map.empty ex_os = (err, Inr p)" by blast
  note started = coordinator_main_started [OF p]
  have s: "process (\<lambda>_ _. True) [''--port=7000''] p"
    by (rule process_start [OF _ _ p]) (simp_all add: ex_os_def closes_good_def)
  have server: "ps_server p = 4"
    using started(3) by (auto simp: Listen_def ex_listen_def INVALID_SOCKET_def Let_def)
  have "ws_open (ps_os p) = {4}"
    using coordinator_process [OF s] by (simp add: started(2) server)
  let ?p = "accept_turn 0 8 True p"
  have a: "process (\<lambda>_ _. True) [''--port=7000''] ?p"
    by (rule process_accept [OF s]) (simp_all add: started(2) \<open>ws_open (ps_os p) = {4}\<close> unused_def)
  have conns: "ps_conns ?p = [0 \<mapsto> (8, new_conn)]" "ps_server ?p = 4"
    by (simp_all add: accept_turn_eq INVALID_SOCKET_def started(2) server)
  have "ws_open (ps_os ?p) = insert (ps_server ?p) (fst ` ran (ps_conns ?p))" using coordinator_process [OF a] by (elim conjE)
  then have "ws_open (ps_os ?p) = {4, 8}" by (simp add: conns)
  moreover have "process_conns ?p 0 = Some new_conn" by (simp add: process_conns_def conns(1))
  ultimately show ?thesis using a by blast
qed

end
