(* ===== verification/Fabric_Cli.thy ===== *)
theory Fabric_Cli
  imports Fabric_System
begin

text \<open>
  The inspection tool, \<open>tools/dfabric_cli.cpp\<close>: it builds an engine over one of the two backends, runs one
  discovery and prints what the command asks for.  A run is a function from what the host reports and
  the arguments to the exit code and the text on the standard output.  Entries of hashed tables are
  printed in the order of the model's tables, which stands for any.
\<close>

section \<open>Printing\<close>

text \<open>
  \<open>%f\<close> of a double: six decimals of the exact value, rounded to nearest with ties to even.
\<close>

definition pad_zeros :: "nat \<Rightarrow> string \<Rightarrow> string" where
  "pad_zeros n s = replicate (n - length s) (CHR ''0'') @ s"

definition fixed6 :: "double \<Rightarrow> string" where
  "fixed6 x =
     (if d_negative x then ''-'' else []) @
     (if d_is_nan x then ''nan''
      else if d_is_inf x then ''inf''
      else let v = round_half_even (d_man x * 2 ^ nat (d_exp x) * 10 ^ 6) 1074 in
        dec_string (v div 10 ^ 6) @ ''.'' @ pad_zeros 6 (dec_string (v mod 10 ^ 6)))"

definition newline :: string where "newline = [CHR 0x0A]"

definition evidence_label :: "Evidence \<Rightarrow> string" where
  "evidence_label e =
     (if ev_state e = ES_REVALIDATION_REQUIRED then '' evidence=REVALIDATION_REQUIRED''
      else if \<not> IsCurrent e then '' evidence=STALE''
      else '' evidence=FRESH'')"

definition PrintMatrix :: "Resource \<Rightarrow> string" where
  "PrintMatrix r =
     ''  '' @ (if r_synthetic r then ''SYNTHETIC'' else ''REAL'') @ '' '' @ pad_right 24 (id_ToString (r_id r)) @
     '' class='' @ pad_right 16 (ResourceClass_ToString (r_resource_class r)) @
     '' node='' @ id_ToString (r_node_id r) @ '' gen='' @ gen_ToString (r_generation r) @
     evidence_label (r_evidence r) @ '' health='' @ ResourceHealth_ToString (r_health r) @ newline"

definition print_node :: "Node \<Rightarrow> string" where
  "print_node n =
     ''node '' @ id_ToString (n_id n) @ '' hostname='' @ n_hostname n @ '' gen='' @ gen_ToString (n_generation n) @
     '' health='' @ ResourceHealth_ToString (n_health n) @ '' reach='' @ Reachability_ToString (n_reachability n) @
     '' domain='' @ fd_name (n_failure_domain n) @ '' backend='' @ BackendKind_ToString (n_backend n) @ newline"

section \<open>Commands\<close>

definition cli_config :: EngineConfig where
  "cli_config =
     \<lparr>cf_coordinator = StrongId 1, cf_epoch = StrongGeneration 1, cf_node_authority = [], cf_persist_authority_only = True\<rparr>"

definition cli_backend :: "HostInfo \<Rightarrow> string \<Rightarrow> Backend" where
  "cli_backend h backend =
     (if backend = ''synthetic'' then as_backend (MakeSyntheticBackend (StrongGeneration 1))
      else system_backend (MakeSystemBackend h))"

definition cli_engine :: "Backend \<Rightarrow> Impl" where
  "cli_engine b = snd (Discover (AddBackend (Some b) (FabricEngine cli_config)))"

definition d_1024 :: double where "d_1024 = 0x4090000000000000"

text \<open>The request of the command \<open>compose\<close>, which is also the one of the examples.\<close>

definition MakeReq :: CompositionRequest where
  "MakeReq = CompositionRequest_default\<lparr>rq_compute_units := 1, rq_accelerator_count := 1, rq_accelerator_memory_bytes := d_1,
     rq_host_memory_bytes := d_1024, rq_expanded_memory_bytes := d_1024, rq_storage_bytes := d_1024,
     rq_network_endpoint_count := 1, rq_min_bandwidth_mbps := d_1000, rq_max_latency_us := d_100,
     rq_mandatory_classes := {RC_COMPUTE, RC_ACCELERATOR, RC_HOST_MEMORY, RC_EXPANDED_MEMORY, RC_STORAGE, RC_NETWORK_ENDPOINT}\<rparr>"

definition cli_discover :: "string \<Rightarrow> Backend \<Rightarrow> Impl \<Rightarrow> string" where
  "cli_discover cmd b s =
     (let snap = Snapshot s in
      ''backend='' @ bk_name b @ '' kind='' @ BackendKind_ToString (bk_kind b) @ '' (multi-node='' @
        (if bk_kind b = BK_REAL then ''single-host only'' else ''synthetic'') @ '')'' @ newline @
      concat (map print_node (sn_nodes snap)) @
      (if cmd = ''resources'' \<or> cmd = ''discover'' then concat (map PrintMatrix (sn_resources snap)) else []) @
      ''totals: '' @ size_string (length (sn_nodes snap)) @ '' nodes '' @ size_string (length (sn_resources snap)) @ '' resources'' @ newline)"

definition cli_compose :: "Impl \<Rightarrow> string" where
  "cli_compose s =
     (let cr = fst (Compose MakeReq s) in
      ''compose outcome='' @ CompositionOutcome_ToString (cr_outcome cr) @ '' score='' @ fixed6 (rk_total (pl_rank (cr_plan cr))) @
      '' vertices='' @ size_string (length (g_vertices (pl_graph (cr_plan cr)))) @ '' reasons='' @
      concat (map (\<lambda>r. RejectionReason_ToString r @ '' '') (cr_reasons cr)) @ newline @
      concat (map (\<lambda>v. ''  vertex '' @ id_ToString v @ newline) (g_vertices (pl_graph (cr_plan cr)))))"

definition cli_explain :: "Impl \<Rightarrow> string" where
  "cli_explain s =
     concat (map (\<lambda>r. ExplainEligibility s (r_id r) CompositionRequest_default @ newline) (sn_resources (Snapshot s)))"

definition print_composition :: "Composition \<Rightarrow> string" where
  "print_composition c = ''  composition '' @ id_ToString (c_id c) @ '' gen='' @ gen_ToString (c_generation c) @
     '' lifecycle='' @ CompositionLifecycle_ToString (c_lifecycle c) @ '' outcome='' @ CompositionOutcome_ToString (c_outcome c) @ newline"

definition print_reservation :: "Reservation \<Rightarrow> string" where
  "print_reservation rv = ''  reservation '' @ id_ToString (rv_id rv) @ '' state='' @ ReservationState_ToString (rv_state rv) @
     '' items='' @ size_string (length (rv_items rv)) @ newline"

definition cli_inspect :: "Impl \<Rightarrow> string" where
  "cli_inspect s =
     (let snap = Snapshot s in
      ''epoch='' @ gen_ToString (sn_epoch snap) @ '' compositions='' @ size_string (length (sn_compositions snap)) @
      '' reservations='' @ size_string (length (sn_reservations snap)) @ newline @
      concat (map print_composition (sn_compositions snap)) @ concat (map print_reservation (sn_reservations snap)))"

text \<open>\<open>main\<close>, on the arguments after the program's name.\<close>

definition cli_main :: "HostInfo \<Rightarrow> string list \<Rightarrow> int \<times> string" where
  "cli_main h args =
     (let cmd = (case args of a # _ \<Rightarrow> a | [] \<Rightarrow> ''discover'');
          backend = (case args of _ # a # _ \<Rightarrow> a | _ \<Rightarrow> ''system'');
          b = cli_backend h backend;
          e = cli_engine b
      in if cmd = ''discover'' \<or> cmd = ''nodes'' \<or> cmd = ''resources'' then (0, cli_discover cmd b e)
         else if cmd = ''compose'' then (0, cli_compose e)
         else if cmd = ''explain'' then (0, cli_explain e)
         else if cmd = ''inspect-state'' \<or> cmd = ''audit'' then (0, cli_inspect e)
         else (1, ''unknown command: '' @ cmd @ '' (use discover/nodes/resources/compose/explain/inspect-state/audit)'' @ newline))"

section \<open>What the tool shows\<close>

lemma start_engine:
  "im_backends (AddBackend (Some b) (FabricEngine cfg)) = [b]" "im_nodes (AddBackend (Some b) (FabricEngine cfg)) = []"
  "im_resources (AddBackend (Some b) (FabricEngine cfg)) = []" "im_compositions (AddBackend (Some b) (FabricEngine cfg)) = []"
  "im_reservations (AddBackend (Some b) (FabricEngine cfg)) = []" "im_epoch (AddBackend (Some b) (FabricEngine cli_config)) = StrongGeneration 1"
  by (simp_all add: AddBackend_def FabricEngine_def cli_config_def)

lemma cli_engine_eq:
  fixes h :: HostInfo and backend :: string
  defines "b \<equiv> cli_backend h backend"
  defines "nodes \<equiv> map (\<lambda>n. (n_id n, n)) (bk_DiscoverNodes b)"
  shows "\<exists>paths. cli_engine b = (AddBackend (Some b) (FabricEngine cli_config))
    \<lparr>im_nodes := nodes, im_resources := map (\<lambda>r. (r_id r, placed nodes r)) (bk_DiscoverResources b), im_paths := paths\<rparr>"
proof -
  let ?s = "AddBackend (Some b) (FabricEngine cli_config)"
  show ?thesis
  proof (cases "backend = ''synthetic''")
    case True
    then have "b = as_backend (MakeSyntheticBackend (StrongGeneration 1))" by (simp add: b_def cli_backend_def)
    with synthetic_start.first_discovery [of ?s "StrongGeneration 1"] show ?thesis
      by (simp add: start_engine cli_engine_def nodes_def Let_def)
  next
    case False
    then have "b = system_backend (MakeSystemBackend h)" by (simp add: b_def cli_backend_def)
    with host.first_discovery [of ?s h] show ?thesis by (simp add: start_engine cli_engine_def nodes_def Let_def)
  qed
qed

lemma cli_registry:
  fixes h :: HostInfo and backend :: string
  defines "b \<equiv> cli_backend h backend"
  defines "nodes \<equiv> map (\<lambda>n. (n_id n, n)) (bk_DiscoverNodes b)"
  shows "im_nodes (cli_engine b) = nodes"
    and "im_resources (cli_engine b) = map (\<lambda>r. (r_id r, placed nodes r)) (bk_DiscoverResources b)"
  using cli_engine_eq [of h backend] by (auto simp: b_def nodes_def)

text \<open>Every resource of a backend sits on one of its nodes, and these are all synthetic or all real.\<close>

lemma cli_placed:
  assumes "r \<in> set (bk_DiscoverResources (cli_backend h backend))"
  shows "placed (map (\<lambda>n. (n_id n, n)) (bk_DiscoverNodes (cli_backend h backend))) r = r\<lparr>r_synthetic := (backend = ''synthetic'')\<rparr>"
proof (cases "backend = ''synthetic''")
  case True
  then have r: "r \<in> set topology_resources"
    using assms by (simp add: cli_backend_def as_backend_def DiscoverResources_def MakeSyntheticBackend_def)
  then have "r_node_id r \<in> {StrongId 1, StrongId 2, StrongId 3, StrongId 4}"
    by (auto simp: topology_resources_def accelerator_def AddCap_def base_def MakeBase_def Let_def)
  then show ?thesis using True
    by (auto simp: placed_def cli_backend_def as_backend_def DiscoverNodes_def MakeSyntheticBackend_def topology_nodes_def
        node_a_def node_like_def Let_def)
next
  case False
  then have "r_node_id r = StrongId 9000" using assms host_state [of h] by (simp add: cli_backend_def system_backend_def)
  with False show ?thesis by (simp add: placed_def cli_backend_def system_backend_def host_defs)
qed

text \<open>
  C40. The tool shows all of a backend and labels it truthfully: \<open>resources\<close> prints one line per node and one
  per resource of the chosen backend, each resource as \<open>SYNTHETIC\<close> exactly when the backend is the
  synthetic one and as \<open>REAL\<close> otherwise, with their numbers at the end, and ends with success.
\<close>

theorem cli_lists_backend:
  fixes h :: HostInfo and backend :: string
  defines "b \<equiv> cli_backend h backend"
  shows "cli_main h [''resources'', backend] =
    (0, ''backend='' @ bk_name b @ '' kind='' @ BackendKind_ToString (bk_kind b) @ '' (multi-node='' @
          (if backend = ''synthetic'' then ''synthetic'' else ''single-host only'') @ '')'' @ newline @
        concat (map print_node (bk_DiscoverNodes b)) @
        concat (map (\<lambda>r. PrintMatrix (r\<lparr>r_synthetic := (backend = ''synthetic'')\<rparr>)) (bk_DiscoverResources b)) @
        ''totals: '' @ size_string (length (bk_DiscoverNodes b)) @ '' nodes '' @ size_string (length (bk_DiscoverResources b)) @
        '' resources'' @ newline)"
proof -
  have "map snd (im_resources (cli_engine b)) = map (\<lambda>r. r\<lparr>r_synthetic := (backend = ''synthetic'')\<rparr>) (bk_DiscoverResources b)"
    using cli_placed [of _ h backend] by (simp add: b_def cli_registry comp_def)
  moreover have "map snd (im_nodes (cli_engine b)) = bk_DiscoverNodes b" by (simp add: b_def cli_registry comp_def)
  moreover have "bk_kind b = BK_REAL \<longleftrightarrow> backend \<noteq> ''synthetic''"
    by (simp add: b_def cli_backend_def as_backend_def system_backend_def)
  ultimately show ?thesis
    by (simp add: cli_main_def cli_discover_def Snapshot_def Let_def b_def [symmetric] comp_def)
qed

subsection \<open>Composing on one host\<close>

lemma compose_without_class:
  assumes "keyed r_id (im_resources s)" "d \<in> set (ComputeDemands req)" "cd_mandatory d"
    and "\<And>k r. map_of (im_resources s) k = Some r \<Longrightarrow> r_resource_class r = cd_cls d \<Longrightarrow> \<not> eligible_spec r req"
  shows "\<exists>msgs. ComposeDeterministic req seed s = (compose_rejected msgs, s)"
  using assms(1)
proof (cases rule: ComposeDeterministic_cases [of s req seed])
  case (planned res paths members)
  then obtain at where at: "plan_sound req s at members" by blast
  have "r_resource_class r \<noteq> cd_cls d" if "r \<in> set members" for r
    using at that assms(4) by (auto simp: plan_sound_def)
  then have "filter (\<lambda>r. r_resource_class r = cd_cls d) members = []" by (simp add: filter_empty_conv)
  moreover have "MeetsDemand (filter (\<lambda>r. r_resource_class r = cd_cls d) members) d"
    using at assms(2,3) by (auto simp: plan_sound_def)
  ultimately show ?thesis by (simp add: MeetsDemand_def)
qed blast

lemma accelerator_demanded: "\<exists>d \<in> set (ComputeDemands MakeReq). cd_mandatory d \<and> cd_cls d = RC_ACCELERATOR"
  by (simp add: ComputeDemands_def close_demand_def add_demand_def MakeReq_def Let_def)

lemma printed_zero: "fixed6 0 = ''0.000000''" "size_string 0 = ''0''"
  by code_simp+

lemma cli_engine_ok: "keys_ok (cli_engine b)"
  unfolding cli_engine_def by (intro inv_intros keys_ok_init)

text \<open>
  A single host cannot satisfy the tool's request, whatever it reports: it publishes no accelerator, so
  \<open>compose\<close> always prints the typed rejection with no plan.
\<close>

lemma cli_host_compose_rejected:
  "cli_main h [''compose''] =
     (0, ''compose outcome=REJECTED score=0.000000 vertices=0 reasons=NO_VALID_COMPOSITION '' @ newline)"
proof -
  let ?b = "cli_backend h ''system''" let ?s = "cli_engine ?b"
  obtain d where d: "d \<in> set (ComputeDemands MakeReq)" "cd_mandatory d" "cd_cls d = RC_ACCELERATOR"
    using accelerator_demanded by blast
  have res: "im_resources ?s = map (\<lambda>r. (r_id r, r\<lparr>r_synthetic := False\<rparr>)) (bk_DiscoverResources ?b)"
    using cli_placed [of _ h "''system''"] by (simp add: cli_registry)
  have "keyed r_id (im_resources ?s)" by (rule keys_okD(1) [OF cli_engine_ok])
  moreover have "r_resource_class r \<noteq> cd_cls d" if "map_of (im_resources ?s) k = Some r" for k r
  proof -
    from map_of_SomeD [OF that] obtain q where "q \<in> set (bk_DiscoverResources ?b)" "r = q\<lparr>r_synthetic := False\<rparr>" unfolding res by auto
    with host_state [of h] d(3) show ?thesis by (simp add: cli_backend_def system_backend_def)
  qed
  ultimately obtain msgs where "ComposeDeterministic MakeReq 0 ?s = (compose_rejected msgs, ?s)"
    using compose_without_class [OF _ d(1,2)] by blast
  then show ?thesis
    by (simp add: cli_main_def Let_def cli_compose_def Compose_def compose_rejected_def CompositionPlan_default_def
        RankScore_default_def ResourceGraph_default_def printed_zero)
qed

end
