(* ===== verification/Fabric_Activation.thy ===== *)
theory Fabric_Activation
  imports Fabric_Lifecycle
begin

text \<open>
  The way from a request to an active composition: what \<open>Compose\<close> plans can be reserved, committed and
  activated, one after the other, when nothing else holds its members and nothing changes in between.
\<close>

section \<open>Reserving free members\<close>

text \<open>Capacities a reservation accepts: the two it tests are not negative, and the amount it holds is a finite number.\<close>

definition holdable :: "Resource \<Rightarrow> bool" where
  "holdable r \<longleftrightarrow> d_amount (hold_amount r) \<and>
     \<not> d_lt (cp_compute_units (r_capacity r)) 0 \<and> \<not> d_lt (cp_host_memory_bytes (r_capacity r)) 0"

lemma hold_covers: "d_eq h 0 \<Longrightarrow> d_amount amt \<Longrightarrow> \<not> d_lt (d_add h amt) amt"
proof -
  assume h: "d_eq h 0" and amt: "d_amount amt"
  from held.amount_cases [OF amt] show ?thesis
  proof
    assume "d_eq amt 0"
    with held.add_zeros [OF h] show ?thesis by (auto simp: d_eq_def d_lt_def)
  next
    assume "d_gt amt 0"
    with held.add_zero [OF h amt] show ?thesis by (simp add: d_lt_def)
  qed
qed

lemma reserve_member_free:
  assumes "map_of resources rid = Some r" "eligible r req" "holdable r" "d_eq (held_amount m rid) 0"
  shows "reserve_members req resources (rid # rids) m items =
    reserve_members req resources rids (hold rid (hold_amount r) (touch rid m))
      (items @ [\<lparr>it_resource = rid, it_state = RS_PROVISIONAL, it_reserved_amount = hold_amount r\<rparr>])"
  using assms held.zero_not_positive [OF assms(4)]
  by (simp add: holdable_def Let_def HoldAmountForResource_eq case_prod_beta)

lemma reserve_members_free:
  assumes "distinct rids" "\<forall>rid \<in> set rids. \<exists>r. map_of resources rid = Some r \<and> eligible r req \<and> holdable r"
    and "\<forall>rid \<in> set rids. d_eq (held_amount m rid) 0"
  shows "\<exists>m' items'. reserve_members req resources rids m items = (None, m', items @ items') \<and>
    (\<forall>it \<in> set items'. it_resource it \<in> set rids \<and> \<not> d_lt (held_amount m' (it_resource it)) (it_reserved_amount it)) \<and>
    (\<forall>rid. rid \<notin> set rids \<longrightarrow> held_amount m' rid = held_amount m rid)"
  using assms
proof (induction rids arbitrary: m items)
  case (Cons rid rids)
  then obtain r where r: "map_of resources rid = Some r" "eligible r req" "holdable r" by auto
  let ?m = "hold rid (hold_amount r) (touch rid m)"
  let ?it = "\<lparr>it_resource = rid, it_state = RS_PROVISIONAL, it_reserved_amount = hold_amount r\<rparr>"
  have free: "d_eq (held_amount m rid) 0" using Cons.prems(3) by simp
  have "\<forall>j \<in> set rids. d_eq (held_amount ?m j) 0"
    using Cons.prems(1,3) by (auto simp: held_hold)
  from Cons.IH [OF _ _ this, of "items @ [?it]"] Cons.prems(1,2) obtain m' items' where
    rest: "reserve_members req resources rids ?m (items @ [?it]) = (None, m', (items @ [?it]) @ items')"
      "\<forall>it \<in> set items'. it_resource it \<in> set rids \<and> \<not> d_lt (held_amount m' (it_resource it)) (it_reserved_amount it)"
      "\<forall>j. j \<notin> set rids \<longrightarrow> held_amount m' j = held_amount ?m j" by auto
  have "held_amount m' rid = d_add (held_amount m rid) (hold_amount r)"
    using rest(3) Cons.prems(1) by (simp add: held_hold)
  then have "\<not> d_lt (held_amount m' rid) (hold_amount r)" using hold_covers [OF free] r(3) by (simp add: holdable_def)
  moreover have "reserve_members req resources (rid # rids) m items = (None, m', items @ ?it # items')"
    using reserve_member_free [OF r free] rest(1) by simp
  ultimately show ?case using rest(2,3) by (intro exI [of _ m'] exI [of _ "?it # items'"]) (auto simp: held_hold)
qed auto

section \<open>From plan to activation\<close>

lemma reserve_free_plan:
  assumes "pl_lifecycle plan = CL_PLANNED" "IsValid (pl_id plan)" "distinct (g_vertices (pl_graph plan))"
    and "\<forall>rid \<in> set (g_vertices (pl_graph plan)). \<exists>r. map_of (im_resources s) rid = Some r \<and> eligible r (pl_request plan) \<and> holdable r"
    and "\<forall>rid \<in> set (g_vertices (pl_graph plan)). d_eq (held_amount (im_reserved_amount s) rid) 0"
  shows "\<exists>m items. Reserve plan s =
      (\<lparr>re_outcome = CO_SUCCESS, re_reservation = new_reservation plan s items, re_reasons = [], re_notes = []\<rparr>,
       s\<lparr>im_next_resv := im_next_resv s + 1, im_reserved_amount := m, im_next_rs := im_next_rs s + 1,
         im_compositions := um_put (pl_id plan) (reserved_composition plan s) (im_compositions s),
         im_reservations := um_put (StrongId (im_next_resv s)) (new_reservation plan s items) (im_reservations s)\<rparr>) \<and>
    (\<forall>it \<in> set items. it_resource it \<in> set (g_vertices (pl_graph plan)) \<and>
       \<not> d_lt (held_amount m (it_resource it)) (it_reserved_amount it))"
proof -
  obtain m items where run: "reserve_members (pl_request plan) (im_resources s) (g_vertices (pl_graph plan)) (im_reserved_amount s) [] =
      (None, m, items)"
    and held: "\<forall>it \<in> set items. it_resource it \<in> set (g_vertices (pl_graph plan)) \<and>
       \<not> d_lt (held_amount m (it_resource it)) (it_reserved_amount it)"
    using reserve_members_free [OF assms(3-5), of "[]"] by auto
  show ?thesis
  proof (cases rule: Reserve_cases [where plan = plan and s = s])
    case (refused reason msg)
    with assms(1,2) run show ?thesis by (simp add: Reserve_def Let_def reserve_rejected_def)
  next
    case (failed reason msg m' items')
    with run show ?thesis by simp
  next
    case (reserved m' items')
    with run held show ?thesis by (intro exI [of _ m] exI [of _ items]) simp
  qed
qed

lemma commit_held:
  assumes "map_of (im_reservations s) (rv_id resIn) = Some rv" "rv_state rv = RS_PROVISIONAL"
    and "map_of (im_compositions s) (rv_composition rv) = Some c" "c_lifecycle c = CL_RESERVED" "still_held c rv s"
  shows "\<exists>m rv'. rv_state rv' = RS_COMMITTED \<and> Commit resIn s =
    (\<lparr>cm_outcome = CO_SUCCESS, cm_composition = c\<lparr>c_lifecycle := CL_COMMITTED\<rparr>, cm_reasons = [], cm_notes = []\<rparr>,
     s\<lparr>im_reserved_amount := m, im_reservations := um_put (rv_id resIn) rv' (im_reservations s),
       im_compositions := um_put (rv_composition rv) (c\<lparr>c_lifecycle := CL_COMMITTED\<rparr>) (im_compositions s)\<rparr>)"
proof -
  have "fst (commit_check (c_request c) (im_resources s) (rv_items rv) (im_reserved_amount s)) = None"
    using assms(5) by (simp add: commit_check_exact still_held_def)
  then obtain m where chk: "commit_check (c_request c) (im_resources s) (rv_items rv) (im_reserved_amount s) = (None, m)"
    by (metis prod.collapse)
  show ?thesis
  proof (cases rule: Commit_cases [where resIn = resIn and s = s])
    case (refused reason msg)
    with assms chk show ?thesis by (simp add: Commit_def commit_rejected_def Let_def)
  next
    case (rollback resv cn reason m')
    then have "resv = rv" "cn = c" using assms(1,3) by auto
    with rollback(5) chk show ?thesis by simp
  next
    case (committed resv cn m')
    then have "resv = rv" "cn = c" using assms(1,3) by auto
    with committed(6) show ?thesis
      by (intro exI [of _ m'] exI [of _ "rv\<lparr>rv_items := map (\<lambda>it. it\<lparr>it_state := RS_COMMITTED\<rparr>) (rv_items rv), rv_state := RS_COMMITTED\<rparr>"]) simp
  qed
qed

lemma activate_current:
  assumes "map_of (im_compositions s) i = Some c" "c_lifecycle c = CL_COMMITTED" "c_id c \<notin> im_fenced s"
    and "authority_current c (im_resources s) (im_epoch s)"
  shows "Activate i s =
    (\<lparr>ac_outcome = CO_SUCCESS, ac_composition = c\<lparr>c_lifecycle := CL_ACTIVE, c_outcome := CO_SUCCESS\<rparr>, ac_reasons = [], ac_notes = []\<rparr>,
     s\<lparr>im_compositions := um_put i (c\<lparr>c_lifecycle := CL_ACTIVE, c_outcome := CO_SUCCESS\<rparr>) (im_compositions s)\<rparr>)"
proof -
  have "fst (RevalidationHolds c (im_resources s) (im_epoch s))"
    using assms(4) RevalidationHolds_iff [of c "im_resources s" "im_epoch s"] by (simp add: authority_current_def)
  with assms(1-3) show ?thesis by (simp add: Activate_def case_prod_beta Let_def)
qed

lemma chosen_authority_current:
  assumes "keys_ok s" "plan_sound req s paths members" "chosen_plan req s paths' members plan" "c_graph c = pl_graph plan"
    and "c_authority c = pl_authority plan"
  shows "authority_current c (im_resources s) (im_epoch s)"
proof -
  have v: "g_vertices (c_graph c) = map r_id members" using assms(3,4) by (simp add: chosen_plan_def)
  have reg: "map_of (im_resources s) (r_id r) = Some r \<and> eligible_spec r req" if "r \<in> set members" for r
    using assms(2) that by (simp add: plan_sound_def)
  have a: "au_coordinator_epoch (c_authority c) = im_epoch s" "au_resource_generations (c_authority c) = map r_generation members"
    using assms(3,5) by (simp_all add: chosen_plan_def)
  show ?thesis unfolding authority_current_def v a using reg by (force simp: eligible_spec_def)
qed

text \<open>
  What the way from a plan to an active composition leaves in the engine: the composition, a reservation
  and what it holds, and two counters that moved on.
\<close>

definition active_composition :: "CompositionPlan \<Rightarrow> Impl \<Rightarrow> Composition" where
  "active_composition plan s = (reserved_composition plan s)\<lparr>c_lifecycle := CL_ACTIVE, c_outcome := CO_SUCCESS\<rparr>"

definition activation_frame :: "CompositionPlan \<Rightarrow> Impl \<Rightarrow> Impl \<Rightarrow> bool" where
  "activation_frame plan s s' \<longleftrightarrow>
     (\<exists>m rv. rv_state rv = RS_COMMITTED \<and> s' = s\<lparr>im_next_resv := im_next_resv s + 1, im_reserved_amount := m, im_next_rs := im_next_rs s + 1,
        im_compositions := um_put (pl_id plan) (active_composition plan s) (im_compositions s),
        im_reservations := um_put (StrongId (im_next_resv s)) rv (im_reservations s)\<rparr>)"

text \<open>A plan as \<open>Compose\<close> returned it, in a state that differs from the planner's at most in paths and counters.\<close>

lemma plan_activates:
  assumes ok: "keys_ok s" and sound: "plan_sound req s paths members" and plan: "chosen_plan req s paths' members plan"
    and id: "im_next_comp s \<noteq> 0" "StrongId (im_next_comp s) \<notin> im_fenced s1"
    and free: "\<forall>rid \<in> set (g_vertices (pl_graph plan)). d_eq (held_amount (im_reserved_amount s1) rid) 0"
    and cap: "\<forall>r \<in> snd ` set (im_resources s). holdable r"
    and s1: "im_resources s1 = im_resources s" "im_epoch s1 = im_epoch s"
  shows "\<exists>rr s2 cc s3 ar s4. Reserve plan s1 = (rr, s2) \<and> reserve_ok rr \<and>
    Commit (re_reservation rr) s2 = (cc, s3) \<and> commit_ok cc \<and>
    Activate (c_id (cm_composition cc)) s3 = (ar, s4) \<and> activate_ok ar \<and>
    ac_composition ar = active_composition plan s1 \<and> activation_frame plan s1 s4"
proof -
  have p: "pl_lifecycle plan = CL_PLANNED" "pl_id plan = StrongId (im_next_comp s)" "g_vertices (pl_graph plan) = map r_id members"
      "pl_request plan = req" using plan unfolding chosen_plan_def binds_plan_def by blast+
  have reg: "\<exists>r. map_of (im_resources s1) rid = Some r \<and> eligible r req \<and> holdable r" if "rid \<in> set (map r_id members)" for rid
  proof -
    from that obtain r where "r \<in> set members" "rid = r_id r" by auto
    with sound have "map_of (im_resources s) rid = Some r" "eligible_spec r req" by (auto simp: plan_sound_def)
    with cap show ?thesis by (force simp: s1 eligible_iff dest: map_of_SomeD)
  qed
  have "distinct (map r_id members)" using sound by (simp add: plan_sound_def)
  then obtain m items where
    reserve: "Reserve plan s1 =
      (\<lparr>re_outcome = CO_SUCCESS, re_reservation = new_reservation plan s1 items, re_reasons = [], re_notes = []\<rparr>,
       s1\<lparr>im_next_resv := im_next_resv s1 + 1, im_reserved_amount := m, im_next_rs := im_next_rs s1 + 1,
         im_compositions := um_put (pl_id plan) (reserved_composition plan s1) (im_compositions s1),
         im_reservations := um_put (StrongId (im_next_resv s1)) (new_reservation plan s1 items) (im_reservations s1)\<rparr>)"
    and held: "\<forall>it \<in> set items. it_resource it \<in> set (map r_id members) \<and>
       \<not> d_lt (held_amount m (it_resource it)) (it_reserved_amount it)"
    using reserve_free_plan [of plan s1] p id(1) reg free by (auto simp: IsValid_def)
  let ?s2 = "snd (Reserve plan s1)" and ?rv = "new_reservation plan s1 items" and ?c = "reserved_composition plan s1"
  have "still_held ?c ?rv ?s2"
    using held reg p(4) unfolding still_held_def reserve
    by (fastforce simp: new_reservation_def reserved_composition_def eligible_iff)
  then obtain m3 rv3 where rv3: "rv_state rv3 = RS_COMMITTED" and commit: "Commit ?rv ?s2 = (\<lparr>cm_outcome = CO_SUCCESS, cm_composition = ?c\<lparr>c_lifecycle := CL_COMMITTED\<rparr>,
        cm_reasons = [], cm_notes = []\<rparr>, ?s2\<lparr>im_reserved_amount := m3, im_reservations := um_put (rv_id ?rv) rv3 (im_reservations ?s2),
         im_compositions := um_put (rv_composition ?rv) (?c\<lparr>c_lifecycle := CL_COMMITTED\<rparr>) (im_compositions ?s2)\<rparr>)"
    using commit_held [of ?s2 ?rv ?rv ?c] unfolding reserve
    by (fastforce simp: new_reservation_def reserved_composition_def update_conv)
  let ?s3 = "snd (Commit ?rv ?s2)" and ?c1 = "?c\<lparr>c_lifecycle := CL_COMMITTED\<rparr>"
  have s3: "im_resources ?s3 = im_resources s" "im_epoch ?s3 = im_epoch s" "im_fenced ?s3 = im_fenced s1"
      "map_of (im_compositions ?s3) (pl_id plan) = Some ?c1"
    unfolding commit unfolding reserve by (simp_all add: s1 update_conv new_reservation_def)
  have "authority_current ?c1 (im_resources ?s3) (im_epoch ?s3)"
    unfolding s3(1,2) by (rule chosen_authority_current [OF ok sound plan]) (simp_all add: reserved_composition_def)
  then have "Activate (pl_id plan) ?s3 =
      (\<lparr>ac_outcome = CO_SUCCESS, ac_composition = active_composition plan s1, ac_reasons = [], ac_notes = []\<rparr>,
       ?s3\<lparr>im_compositions := um_put (pl_id plan) (active_composition plan s1) (im_compositions ?s3)\<rparr>)"
    using id(2) activate_current [OF s3(4)] by (simp add: active_composition_def reserved_composition_def p(2) s3(3))
  moreover have "activation_frame plan s1 (?s3\<lparr>im_compositions := um_put (pl_id plan) (active_composition plan s1) (im_compositions ?s3)\<rparr>)"
    unfolding activation_frame_def commit unfolding reserve
    by (intro exI [of _ m3] exI [of _ rv3]) (simp add: new_reservation_def rv3)
  moreover have "c_id ?c1 = pl_id plan" by (simp add: reserved_composition_def)
  ultimately show ?thesis using reserve commit by (auto simp: reserve_ok_def commit_ok_def activate_ok_def)
qed

lemma composed_activates:
  assumes "keys_ok s" "Compose req s = (cr, s1)" "compose_ok cr"
    and "im_next_comp s \<noteq> 0" "StrongId (im_next_comp s) \<notin> im_fenced s"
    and "\<forall>rid \<in> set (g_vertices (pl_graph (cr_plan cr))). d_eq (held_amount (im_reserved_amount s) rid) 0"
    and "\<forall>r \<in> snd ` set (im_resources s). holdable r"
  shows "\<exists>rr s2 cc s3 ar s4. Reserve (cr_plan cr) s1 = (rr, s2) \<and> reserve_ok rr \<and>
    Commit (re_reservation rr) s2 = (cc, s3) \<and> commit_ok cc \<and>
    Activate (c_id (cm_composition cc)) s3 = (ar, s4) \<and> activate_ok ar \<and>
    ac_composition ar = active_composition (cr_plan cr) s1 \<and> activation_frame (cr_plan cr) s1 s4"
  using keys_okD(1) [OF assms(1)]
proof (cases rule: ComposeDeterministic_cases [of s req 0])
  case (rejected msgs)
  with assms(2,3) show ?thesis by (auto simp: Compose_def compose_rejected_def compose_ok_def)
next
  case (planned res paths members)
  then obtain at where at: "plan_sound req s at members" by blast
  from planned(1) assms(2) have "res = cr" "s1 = s\<lparr>im_paths := paths, im_next_comp := im_next_comp s + 1\<rparr>"
    by (simp_all add: Compose_def)
  with plan_activates [OF assms(1) at, where paths' = paths and plan = "cr_plan cr" and ?s1.0 = s1] planned(4) assms(4-7) show ?thesis by simp
qed



lemma composed_id:
  assumes "keys_ok s" "ComposeDeterministic req seed s = (cr, s1)" "compose_ok cr"
  shows "pl_id (cr_plan cr) = StrongId (im_next_comp s) \<and> pl_generation (cr_plan cr) = StrongGeneration (im_next_comp s)"
  using keys_okD(1) [OF assms(1)]
proof (cases rule: ComposeDeterministic_cases [of s req seed])
  case (rejected msgs)
  with assms(2,3) show ?thesis by (auto simp: compose_rejected_def compose_ok_def)
next
  case (planned res paths members)
  with assms(2) show ?thesis by (simp add: chosen_plan_def)
qed

section \<open>Recomposing\<close>

lemma recompute_activates:
  assumes "keys_ok s" "map_of (im_compositions s) i = Some c"
    and "ComposeDeterministic (c_request c) 0 s = (cr, s1)" "compose_ok cr"
    and "im_next_comp s \<noteq> 0" "StrongId (im_next_comp s) \<notin> insert i (im_fenced s)"
    and "\<forall>rid \<in> set (g_vertices (pl_graph (cr_plan cr))). d_eq (held_amount (im_reserved_amount (recompute_release i s)) rid) 0"
    and "\<forall>r \<in> snd ` set (im_resources s). holdable r"
  shows "\<exists>s'. Recompute i s = (True, s') \<and> activation_frame (cr_plan cr) (recompute_release i s1) s'"
  using keys_okD(1) [OF assms(1)]
proof (cases rule: ComposeDeterministic_cases [of s "c_request c" 0])
  case (rejected msgs)
  with assms(3,4) show ?thesis by (auto simp: compose_rejected_def compose_ok_def)
next
  case (planned res paths members)
  then obtain at where at: "plan_sound (c_request c) s at members" by blast
  from planned(1) assms(3) have res: "res = cr" and s1: "s1 = s\<lparr>im_paths := paths, im_next_comp := im_next_comp s + 1\<rparr>" by simp_all
  let ?s2 = "recompute_release i s1"
  have ci: "c_id c = i" by (rule keyed_lookup [OF keys_okD(3) [OF assms(1)] assms(2)])
  have s2: "im_resources ?s2 = im_resources s" "im_epoch ?s2 = im_epoch s" "im_fenced ?s2 = insert i (im_fenced s)"
      "im_reserved_amount ?s2 = im_reserved_amount (recompute_release i s)"
    using assms(2) ci by (simp_all add: s1 recompute_release_def release_reservation_def split: option.split)
  have plan: "chosen_plan (c_request c) s paths members (cr_plan cr)" using planned(4) res by simp
  show ?thesis
    using plan_activates [OF assms(1) at plan assms(5) _ _ assms(8) s2(1,2)] assms(2-4,6,7)
    by (auto simp: Recompute_def Let_def s2(3,4))
qed

lemma live_items_held:
  assumes "keyed key m" "it \<in># live_items m"
  shows "\<exists>k rv. map_of m k = Some rv \<and> live rv \<and> it \<in> set (rv_items rv)"
proof -
  have "it \<in># live_items m \<Longrightarrow> \<exists>x \<in> set m. live (snd x) \<and> it \<in> set (rv_items (snd x))"
    by (induction m) (auto simp: items_of_def split: if_splits)
  with assms(2) keyed_member [OF assms(1)] show ?thesis by force
qed

lemma released_free:
  assumes "reachable disciplined s" "releasable i s" "map_of (im_compositions s) i = Some c"
    and "\<And>k rv it. map_of (im_reservations s) k = Some rv \<Longrightarrow> k \<noteq> c_reservation c \<Longrightarrow> live rv \<Longrightarrow> it \<in> set (rv_items rv) \<Longrightarrow>
      positive_claim it \<Longrightarrow> it_resource it \<noteq> rid"
  shows "d_eq (held_amount (im_reserved_amount (recompute_release i s)) rid) 0"
proof -
  let ?s = "recompute_release i s"
  have "reachable disciplined ?s" using reachable_step [OF assms(1), of "Ev_RecomputeRelease i"] assms(2) by simp
  then have inv: "keys_ok ?s" "ledger_inv ?s" using ledger.always by blast+
  have "\<not> d_gt (held_amount (im_reserved_amount ?s) rid) 0"
  proof
    assume "d_gt (held_amount (im_reserved_amount ?s) rid) 0"
    then obtain it where "it \<in># live_items (im_reservations ?s)" "it_resource it = rid" "positive_claim it"
      using ledger_held_iff [OF inv(2)] by blast
    moreover from this(1) obtain k rv where "map_of (im_reservations ?s) k = Some rv" "live rv" "it \<in> set (rv_items rv)"
      using live_items_held [OF keys_okD(4) [OF inv(1)]] by blast
    moreover from this have "k \<noteq> c_reservation c \<and> map_of (im_reservations s) k = Some rv"
      using assms(3) by (auto simp: recompute_release_def release_reservation_def set_released_def update_conv live_def
          split: option.splits if_splits)
    ultimately show False using assms(4) by blast
  qed
  with ledger_exact_free inv(2) show ?thesis by (auto simp: ledger_inv_def)
qed


lemma ex_composed_disciplined: "reachable disciplined ex_composed"
proof -
  let ?s = "run_event (Ev_Compose (pl_request ex_plan) 0) ex_registry"
  have "reachable disciplined ex_registry"
    using reachable_step [OF reachable_step [OF reachable_init], of disciplined "Ev_RegisterNode ex_node" ex_config "Ev_RegisterResource (ex_resource 1 RC_COMPUTE)"]
    by (simp add: ex_registry_def)
  then have "reachable disciplined ?s" by (rule reachable_step) simp
  moreover have "im_resources ?s = im_resources ex_registry" "counter_ok ?s" by code_simp+
  ultimately have "reachable disciplined (run_event (Ev_Reserve ex_plan) ?s)"
    by (intro reachable_step [of disciplined ?s]) (simp_all add: ex_amounts_ok)
  then have "reachable disciplined (run_event (Ev_Commit ex_reservation) (run_event (Ev_Reserve ex_plan) ?s))"
    by (rule reachable_step) simp
  then have "reachable disciplined (run_event (Ev_Activate (StrongId 1)) (run_event (Ev_Commit ex_reservation) (run_event (Ev_Reserve ex_plan) ?s)))"
    by (rule reachable_step) simp
  then show ?thesis by (simp add: ex_composed_def run_events_def ex_registry_def)
qed

lemma ex_composed_facts:
  "let s = ex_composed in releasable (StrongId 1) s \<and> im_next_comp s \<noteq> 0 \<and>
     StrongId (im_next_comp s) \<notin> insert (StrongId 1) (im_fenced s) \<and> (\<forall>r \<in> snd ` set (im_resources s). holdable r) \<and>
     map fst (im_reservations s) = [StrongId 1] \<and>
     (case map_of (im_compositions s) (StrongId 1) of None \<Rightarrow> False
      | Some c \<Rightarrow> c_reservation c = StrongId 1 \<and> compose_ok (fst (ComposeDeterministic (c_request c) 0 s)))"
  by code_simp


end
