(* ===== verification/Fabric_Demo.thy ===== *)
theory Fabric_Demo
  imports Fabric_Cli Fabric_Activation
begin

text \<open>
  The examples of \<open>examples/examples.cpp\<close>, each a block of \<open>main\<close> on an engine and a synthetic backend of its
  own, as the text the block prints; and what the claims in that text rest on.  The engine and the block
  share the backend object, so after a change of the backend the engine sees the changed one.
\<close>

section \<open>Scenarios\<close>

definition demo_config :: EngineConfig where
  "demo_config =
     \<lparr>cf_coordinator = StrongId 1, cf_epoch = StrongGeneration 1, cf_node_authority = [], cf_persist_authority_only = True\<rparr>"

definition Fresh :: "Impl \<Rightarrow> SyntheticBackend \<times> Impl" where
  "Fresh s =
     (let syn = MakeSyntheticBackend (StrongGeneration 1) in
      (syn, snd (Discover (AddBackend (Some (as_backend syn)) s))))"

definition sharing :: "SyntheticBackend \<Rightarrow> Impl \<Rightarrow> Impl" where
  "sharing syn s = s\<lparr>im_backends := [as_backend syn]\<rparr>"

definition verdict :: "bool \<Rightarrow> string" where
  "verdict good = (if good then ''SUCCESS'' else ''REJECTED'')"

definition ok_rej :: "bool \<Rightarrow> string" where
  "ok_rej good = (if good then ''ok'' else ''rej'')"

definition plan_size :: "CompositionPlan \<Rightarrow> string" where
  "plan_size plan = size_string (length (g_vertices (pl_graph plan)))"

definition basic_composition :: string where
  "basic_composition =
     (let (syn, s0) = Fresh (FabricEngine demo_config);
          (cr, s1) = Compose MakeReq s0;
          (rr, s2) = Reserve (cr_plan cr) s1;
          (cc, s3) = Commit (re_reservation rr) s2;
          (ar, s4) = Activate (c_id (cm_composition cc)) s3
      in ''basic_composition: '' @ verdict (compose_ok cr) @ '' vertices='' @ plan_size (cr_plan cr) @ newline @
         ''  reserve='' @ ok_rej (reserve_ok rr) @ '' commit='' @ ok_rej (commit_ok cc) @ '' activate='' @ ok_rej (activate_ok ar) @
         '' lifecycle='' @ CompositionLifecycle_ToString (c_lifecycle (ac_composition ar)) @ newline)"

definition hard_constraint_rejection :: string where
  "hard_constraint_rejection =
     (let (syn, s0) = Fresh (FabricEngine demo_config);
          syn1 = SetResourceHealth (StrongId 106) RH_OFFLINE (SetResourceHealth (StrongId 102) RH_OFFLINE syn);
          s1 = OnResourceFailure (StrongId 106) (OnResourceFailure (StrongId 102) (sharing syn1 s0));
          (cr, s2) = Compose MakeReq s1
      in ''hard_constraint_rejection: '' @ verdict (compose_ok cr) @ '' reasons='' @
         concat (map (\<lambda>r. RejectionReason_ToString r @ '' '') (cr_reasons cr)) @ newline)"

definition reservation_rollback :: string where
  "reservation_rollback =
     (let (syn, s0) = Fresh (FabricEngine demo_config);
          (cr, s1) = Compose MakeReq s0;
          syn1 = SetResourceUnavailable (StrongId 106) (SetResourceUnavailable (StrongId 102) syn);
          s2 = OnResourceFailure (StrongId 106) (OnResourceFailure (StrongId 102) (sharing syn1 s1));
          (rr, s3) = Reserve (cr_plan cr) s2
      in ''reservation_rollback: reserve='' @ verdict (reserve_ok rr) @ '' (no partial authoritative set)'' @ newline)"

text \<open>The first steps of the next two blocks: an activated composition.\<close>

definition activated :: "Impl \<Rightarrow> ActivateResult \<times> Impl" where
  "activated s0 =
     (let (cr, s1) = Compose MakeReq s0;
          (rr, s2) = Reserve (cr_plan cr) s1;
          (cc, s3) = Commit (re_reservation rr) s2
      in Activate (c_id (cm_composition cc)) s3)"

text \<open>\<open>None\<close> where the block would dereference an empty \<open>std::optional\<close>.\<close>

definition resource_generation_change :: "string option" where
  "resource_generation_change =
     (let (syn, s0) = Fresh (FabricEngine demo_config);
          (ar, s1) = activated s0;
          syn1 = SetResourceGeneration (StrongId 106) (StrongGeneration 9) (SetResourceGeneration (StrongId 102) (StrongGeneration 9) syn);
          s2 = snd (Discover (sharing syn1 s1))
      in map_option (\<lambda>after. ''resource_generation_change: '' @ CompositionLifecycle_ToString CL_ACTIVE @ '' -> '' @
           CompositionLifecycle_ToString (c_lifecycle after) @ newline) (GetComposition s2 (c_id (ac_composition ar))))"

definition last_accelerator :: "Impl \<Rightarrow> ResourceId list \<Rightarrow> ResourceId" where
  "last_accelerator s vs =
     foldl (\<lambda>am v. case GetResource s v of
              Some r \<Rightarrow> if r_resource_class r = RC_ACCELERATOR then v else am
            | None \<Rightarrow> am) (StrongId 0) vs"

definition recomposition :: string where
  "recomposition =
     (let (syn, s0) = Fresh (FabricEngine demo_config);
          (ar, s1) = activated s0;
          am = last_accelerator s1 (g_vertices (c_graph (ac_composition ar)));
          syn1 = SetResourceHealth am RH_OFFLINE syn;
          s2 = OnResourceFailure am (sharing syn1 s1);
          (good, s3) = Recompute (c_id (ac_composition ar)) s2;
          active = filter (\<lambda>c. c_lifecycle c = CL_ACTIVE) (sn_compositions (Snapshot s3));
          latest = (if active = [] then Composition_default else last active)
      in ''recomposition: ok='' @ (if good then ''1'' else ''0'') @ '' active='' @ size_string (length active) @
         '' latest_gen='' @ gen_ToString (c_generation latest) @ newline)"

definition synthetic_multinode :: string where
  "synthetic_multinode =
     (let (syn, s0) = Fresh (FabricEngine demo_config);
          (cr, s1) = Compose MakeReq s0
      in ''synthetic_multinode: '' @ verdict (compose_ok cr) @ '' vertices='' @ plan_size (cr_plan cr) @ '' (SYNTHETIC topology)'' @ newline @
         ''  nodes: '' @ concat (map (\<lambda>n. id_ToString n @ '' '') (pl_nodes (cr_plan cr))) @ newline)"

definition examples_main :: "(int \<times> string) option" where
  "examples_main = map_option (\<lambda>change.
     (0, basic_composition @ hard_constraint_rejection @ reservation_rollback @ change @ recomposition @ synthetic_multinode @
         newline @ ''examples complete'' @ newline)) resource_generation_change"

section \<open>What the examples print\<close>

definition demo_engine :: Impl where
  "demo_engine = cli_engine (as_backend (MakeSyntheticBackend (StrongGeneration 1)))"

lemma Fresh_demo: "Fresh (FabricEngine demo_config) = (MakeSyntheticBackend (StrongGeneration 1), demo_engine)"
  by (simp add: Fresh_def demo_engine_def cli_engine_def demo_config_def cli_config_def Let_def)

lemma demo_backend: "cli_backend h ''synthetic'' = as_backend (MakeSyntheticBackend (StrongGeneration 1))"
  by (simp add: cli_backend_def)

lemma demo_engine_eq:
  "\<exists>nodes paths. demo_engine = (AddBackend (Some (as_backend (MakeSyntheticBackend (StrongGeneration 1)))) (FabricEngine cli_config))
     \<lparr>im_nodes := nodes, im_resources := map (\<lambda>r. (r_id r, r\<lparr>r_synthetic := True\<rparr>)) topology_resources, im_paths := paths\<rparr>"
proof -
  let ?b = "as_backend (MakeSyntheticBackend (StrongGeneration 1))"
  have placed: "map (\<lambda>r. (r_id r, placed (map (\<lambda>n. (n_id n, n)) (bk_DiscoverNodes ?b)) r)) (bk_DiscoverResources ?b) =
      map (\<lambda>r. (r_id r, r\<lparr>r_synthetic := True\<rparr>)) (bk_DiscoverResources ?b)"
    using cli_placed [of _ undefined "''synthetic''"] by (simp add: demo_backend)
  have answer: "bk_DiscoverResources ?b = topology_resources"
    by (simp add: as_backend_def DiscoverResources_def MakeSyntheticBackend_def)
  obtain paths where eq: "demo_engine = (AddBackend (Some ?b) (FabricEngine cli_config))
      \<lparr>im_nodes := map (\<lambda>n. (n_id n, n)) (bk_DiscoverNodes ?b),
       im_resources := map (\<lambda>r. (r_id r, placed (map (\<lambda>n. (n_id n, n)) (bk_DiscoverNodes ?b)) r)) (bk_DiscoverResources ?b),
       im_paths := paths\<rparr>"
    using cli_engine_eq [of undefined "''synthetic''"] unfolding demo_engine_def demo_backend by blast
  show ?thesis unfolding eq placed unfolding answer by (intro exI) (rule refl)
qed

lemma demo_engine_fields:
  "im_resources demo_engine = map (\<lambda>r. (r_id r, r\<lparr>r_synthetic := True\<rparr>)) topology_resources"
  "im_next_comp demo_engine = 1" "im_fenced demo_engine = {}" "im_reserved_amount demo_engine = []"
  "im_compositions demo_engine = []" "im_reservations demo_engine = []" "im_next_resv demo_engine = 1"
proof -
  obtain nodes paths where eq: "demo_engine = (AddBackend (Some (as_backend (MakeSyntheticBackend (StrongGeneration 1)))) (FabricEngine cli_config))
     \<lparr>im_nodes := nodes, im_resources := map (\<lambda>r. (r_id r, r\<lparr>r_synthetic := True\<rparr>)) topology_resources, im_paths := paths\<rparr>"
    using demo_engine_eq by blast
  show "im_resources demo_engine = map (\<lambda>r. (r_id r, r\<lparr>r_synthetic := True\<rparr>)) topology_resources"
    "im_next_comp demo_engine = 1" "im_fenced demo_engine = {}" "im_reserved_amount demo_engine = []"
    "im_compositions demo_engine = []" "im_reservations demo_engine = []" "im_next_resv demo_engine = 1"
    unfolding eq by (simp_all add: AddBackend_def FabricEngine_def)
qed

lemma demo_engine_ok: "keys_ok demo_engine"
  unfolding demo_engine_def by (rule cli_engine_ok)

lemma topology_accelerators: "r \<in> set topology_resources \<Longrightarrow> r_resource_class r = RC_ACCELERATOR \<Longrightarrow> r_id r \<in> {StrongId 102, StrongId 106}"
  by (auto simp: topology_resources_def accelerator_def AddCap_def base_def MakeBase_def Let_def)

lemma topology_holdable: "\<forall>r \<in> set topology_resources. holdable (r\<lparr>r_synthetic := True\<rparr>)"
  by code_simp

text \<open>
  The plan for the examples' request on the synthetic topology, and the plan after its accelerator failed,
  by evaluation.
\<close>

abbreviation offline_topology :: SyntheticBackend where
  "offline_topology \<equiv> SetResourceHealth (StrongId 106) RH_OFFLINE (MakeSyntheticBackend (StrongGeneration 1))"

lemma demo_plan:
  "case Compose MakeReq demo_engine of (cr, s1) \<Rightarrow>
     compose_ok cr \<and> map Value (g_vertices (pl_graph (cr_plan cr))) = [101, 106, 107, 103, 104, 105] \<and>
     map Value (pl_nodes (cr_plan cr)) = [1, 4, 2, 3] \<and> cr_reasons cr = [] \<and> fixed6 (rk_total (pl_rank (cr_plan cr))) = ''65.300000'' \<and>
     (case Compose MakeReq (OnResourceFailure (StrongId 106) (sharing offline_topology s1)) of (cr', _) \<Rightarrow> compose_ok cr')"
  by code_simp

lemma demo_planD:
  assumes "Compose MakeReq demo_engine = (cr, s1)"
  shows "compose_ok cr" "g_vertices (pl_graph (cr_plan cr)) = map StrongId [101, 106, 107, 103, 104, 105]"
    "pl_nodes (cr_plan cr) = map StrongId [1, 4, 2, 3]" "cr_reasons cr = []"
proof -
  have ids: "xs = map StrongId vs" if "map Value xs = vs" for xs :: "'a StrongId list" and vs
    using that by (auto simp: map_idI)
  show "compose_ok cr" "cr_reasons cr = []" using demo_plan assms by simp_all
  show "g_vertices (pl_graph (cr_plan cr)) = map StrongId [101, 106, 107, 103, 104, 105]"
    using demo_plan assms by (intro ids) simp
  show "pl_nodes (cr_plan cr) = map StrongId [1, 4, 2, 3]" using demo_plan assms by (intro ids) simp
qed

text \<open>After the failure of both accelerators none is eligible.\<close>

lemma failed_lookup:
  "map_of (im_resources (OnResourceFailure i s)) k = Some r \<Longrightarrow> k \<noteq> i \<Longrightarrow> map_of (im_resources s) k = Some r"
  by (auto simp: OnResourceFailure_def Let_def update_conv split: option.splits)

lemma failed_ineligible: "map_of (im_resources (OnResourceFailure i s)) i = Some r \<Longrightarrow> \<not> eligible r req"
  by (intro not_current_ineligible) (auto simp: OnResourceFailure_def Let_def update_conv split: option.splits)

lemma both_failed:
  assumes "map_of (im_resources (OnResourceFailure (StrongId 106) (OnResourceFailure (StrongId 102) s))) k = Some r"
    and "k \<in> {StrongId 102, StrongId 106}"
  shows "\<not> eligible r req"
proof (cases "k = StrongId 106")
  case True
  with assms(1) show ?thesis using failed_ineligible by blast
next
  case False
  with failed_lookup [OF assms(1) False] assms(2) show ?thesis using failed_ineligible by auto
qed

subsection \<open>An active composition\<close>

lemma demo_holdable: "\<forall>r \<in> snd ` set (im_resources demo_engine). holdable r"
  using topology_holdable by (auto simp: demo_engine_fields)

lemma demo_active:
  obtains cr paths m rv rr s2 cc s3 ar s4 where
    "Compose MakeReq demo_engine = (cr, demo_engine\<lparr>im_paths := paths, im_next_comp := 2\<rparr>)"
    "Reserve (cr_plan cr) (demo_engine\<lparr>im_paths := paths, im_next_comp := 2\<rparr>) = (rr, s2)" "reserve_ok rr"
    "Commit (re_reservation rr) s2 = (cc, s3)" "commit_ok cc"
    "Activate (c_id (cm_composition cc)) s3 = (ar, s4)" "activate_ok ar"
    "ac_composition ar = active_composition (cr_plan cr) (demo_engine\<lparr>im_paths := paths, im_next_comp := 2\<rparr>)"
    "s4 = demo_engine\<lparr>im_paths := paths, im_next_comp := 2, im_next_resv := 2, im_reserved_amount := m,
       im_next_rs := im_next_rs demo_engine + 1, im_compositions := [(StrongId 1, ac_composition ar)],
       im_reservations := [(StrongId 1, rv)]\<rparr>" "rv_state rv = RS_COMMITTED"
    "pl_id (cr_plan cr) = StrongId 1" "pl_request (cr_plan cr) = MakeReq"
    "length (au_resource_generations (pl_authority (cr_plan cr))) = 6"
proof -
  obtain cr s1 where c: "Compose MakeReq demo_engine = (cr, s1)" by fastforce
  note D = demo_planD [OF c]
  have planned: "\<exists>paths. s1 = demo_engine\<lparr>im_paths := paths, im_next_comp := 2\<rparr> \<and> pl_request (cr_plan cr) = MakeReq \<and>
      pl_id (cr_plan cr) = StrongId 1 \<and> length (au_resource_generations (pl_authority (cr_plan cr))) = 6"
    using keys_okD(1) [OF demo_engine_ok]
  proof (cases rule: ComposeDeterministic_cases [of demo_engine MakeReq 0])
    case (rejected msgs)
    with c D(1) show ?thesis by (auto simp: Compose_def compose_rejected_def compose_ok_def)
  next
    case (planned res paths members)
    with c have "res = cr" "s1 = demo_engine\<lparr>im_paths := paths, im_next_comp := 2\<rparr>"
      by (simp_all add: Compose_def demo_engine_fields)
    moreover have "map r_id members = g_vertices (pl_graph (cr_plan res))" using planned(4) by (simp add: chosen_plan_def)
    then have "map r_id members = map StrongId [101, 106, 107, 103, 104, 105]" using D(2) \<open>res = cr\<close> by simp
    from arg_cong [OF this, of length] have "length members = 6" by simp
    ultimately show ?thesis using planned(4)
      by (intro exI [of _ paths]) (simp add: chosen_plan_def binds_plan_def demo_engine_fields MakeAuthority_def Let_def)
  qed
  then obtain paths where s1: "s1 = demo_engine\<lparr>im_paths := paths, im_next_comp := 2\<rparr>" by blast
  have "d_eq (held_amount (im_reserved_amount demo_engine) rid) 0" for rid
    by (simp add: demo_engine_fields held_amount_def held.zero_is_zero)
  then obtain rr s2 cc s3 ar s4 where run:
    "Reserve (cr_plan cr) s1 = (rr, s2)" "reserve_ok rr" "Commit (re_reservation rr) s2 = (cc, s3)" "commit_ok cc"
    "Activate (c_id (cm_composition cc)) s3 = (ar, s4)" "activate_ok ar" "ac_composition ar = active_composition (cr_plan cr) s1"
    "activation_frame (cr_plan cr) s1 s4"
    using composed_activates [OF demo_engine_ok c D(1)] demo_holdable by (auto simp: demo_engine_fields)
  from run(8) planned obtain m rv where "rv_state rv = RS_COMMITTED"
    "s4 = s1\<lparr>im_next_resv := 2, im_reserved_amount := m, im_next_rs := im_next_rs demo_engine + 1,
       im_compositions := [(StrongId 1, ac_composition ar)], im_reservations := [(StrongId 1, rv)]\<rparr>"
    by (auto simp: activation_frame_def s1 demo_engine_fields run(7))
  with that [OF c [unfolded s1]] run planned show thesis unfolding s1 by simp
qed

lemma demo_activated:
  obtains cr paths m rv ar s4 where
    "Compose MakeReq demo_engine = (cr, demo_engine\<lparr>im_paths := paths, im_next_comp := 2\<rparr>)"
    "activated demo_engine = (ar, s4)" "keys_ok s4" "authority_inv s4" "reachable disciplined s4"
    "ac_composition ar = active_composition (cr_plan cr) (demo_engine\<lparr>im_paths := paths, im_next_comp := 2\<rparr>)"
    "s4 = demo_engine\<lparr>im_paths := paths, im_next_comp := 2, im_next_resv := 2, im_reserved_amount := m,
       im_next_rs := im_next_rs demo_engine + 1, im_compositions := [(StrongId 1, ac_composition ar)],
       im_reservations := [(StrongId 1, rv)]\<rparr>" "rv_state rv = RS_COMMITTED"
    "pl_id (cr_plan cr) = StrongId 1" "pl_request (cr_plan cr) = MakeReq"
    "length (au_resource_generations (pl_authority (cr_plan cr))) = 6"
proof (rule demo_active)
  fix cr paths m rv rr s2 cc s3 ar s4
  let ?s1 = "demo_engine\<lparr>im_paths := paths, im_next_comp := 2\<rparr>"
  assume run: "Compose MakeReq demo_engine = (cr, ?s1)" "Reserve (cr_plan cr) ?s1 = (rr, s2)" "Commit (re_reservation rr) s2 = (cc, s3)"
    "Activate (c_id (cm_composition cc)) s3 = (ar, s4)"
  let ?b = "as_backend (MakeSyntheticBackend (StrongGeneration 1))"
  have "reachable disciplined (run_event Ev_Discover (run_event (Ev_AddBackend (Some ?b)) (FabricEngine cli_config)))"
    by (intro reachable_step reachable_init) simp_all
  then have "reachable disciplined demo_engine" by (simp add: demo_engine_def cli_engine_def)
  then have "reachable disciplined ?s1" using reachable_step [of disciplined demo_engine "Ev_Compose MakeReq 0"] run(1) by (simp add: Compose_def)
  moreover have "counter_ok ?s1" by (simp add: counter_ok_def demo_engine_fields(7))
  moreover have "d_amount (hold_amount r)" if "map_of (im_resources ?s1) rid = Some r" for rid r
  proof -
    have "r \<in> snd ` set (im_resources demo_engine)" using map_of_SomeD [OF that] by force
    with demo_holdable show ?thesis unfolding holdable_def by blast
  qed
  then have "amounts_ok (im_resources ?s1) (g_vertices (pl_graph (cr_plan cr)))" unfolding amounts_ok_def by blast
  ultimately have "reachable disciplined s2" using reachable_step [of disciplined ?s1 "Ev_Reserve (cr_plan cr)"] run(2) by simp
  then have "reachable disciplined s3" using reachable_step [of disciplined s2 "Ev_Commit (re_reservation rr)"] run(3) by simp
  then have s4: "reachable disciplined s4" using reachable_step [of disciplined s3 "Ev_Activate (c_id (cm_composition cc))"] run(4) by simp
  then have "keys_ok s4 \<and> authority_inv s4" using authority.always disciplined_reachable by blast
  moreover have "activated demo_engine = (ar, s4)" using run by (simp add: activated_def Let_def)
  moreover assume "ac_composition ar = active_composition (cr_plan cr) ?s1"
    "s4 = demo_engine\<lparr>im_paths := paths, im_next_comp := 2, im_next_resv := 2, im_reserved_amount := m,
       im_next_rs := im_next_rs demo_engine + 1, im_compositions := [(StrongId 1, ac_composition ar)],
       im_reservations := [(StrongId 1, rv)]\<rparr>" "rv_state rv = RS_COMMITTED"
    "pl_id (cr_plan cr) = StrongId 1" "pl_request (cr_plan cr) = MakeReq"
    "length (au_resource_generations (pl_authority (cr_plan cr))) = 6"
  ultimately show thesis using that run(1) s4 by blast
qed

subsection \<open>Composition and rejection\<close>

lemma basic_composition_text:
  "basic_composition = ''basic_composition: SUCCESS vertices=6'' @ newline @
     ''  reserve=ok commit=ok activate=ok lifecycle=ACTIVE'' @ newline"
proof (rule demo_active)
  fix cr paths rr s2 cc s3 ar s4
  let ?s1 = "demo_engine\<lparr>im_paths := paths, im_next_comp := 2\<rparr>"
  assume c: "Compose MakeReq demo_engine = (cr, ?s1)" and run: "Reserve (cr_plan cr) ?s1 = (rr, s2)" "reserve_ok rr"
    "Commit (re_reservation rr) s2 = (cc, s3)" "commit_ok cc" "Activate (c_id (cm_composition cc)) s3 = (ar, s4)" "activate_ok ar"
    "ac_composition ar = active_composition (cr_plan cr) ?s1"
  show ?thesis using c run demo_planD [OF c]
    by (simp add: basic_composition_def active_composition_def Fresh_demo Let_def verdict_def ok_rej_def plan_size_def size_string_def
        dec_string.simps digit_char_def)
qed

lemma hard_constraint_text:
  "hard_constraint_rejection = ''hard_constraint_rejection: REJECTED reasons=NO_VALID_COMPOSITION '' @ newline"
proof -
  let ?syn = "SetResourceHealth (StrongId 106) RH_OFFLINE (SetResourceHealth (StrongId 102) RH_OFFLINE (MakeSyntheticBackend (StrongGeneration 1)))"
  let ?start = "sharing ?syn demo_engine"
  let ?s = "OnResourceFailure (StrongId 106) (OnResourceFailure (StrongId 102) ?start)"
  have res: "im_resources ?start = im_resources demo_engine" by (simp add: sharing_def)
  have "keys_ok ?start" using demo_engine_ok by (simp add: keys_ok_def sharing_def)
  then have ok: "keys_ok ?s" by (intro inv_intros)
  obtain d where d: "d \<in> set (ComputeDemands MakeReq)" "cd_mandatory d" "cd_cls d = RC_ACCELERATOR"
    using accelerator_demanded by blast
  have "\<not> eligible_spec r MakeReq" if r: "map_of (im_resources ?s) k = Some r" "r_resource_class r = RC_ACCELERATOR" for k r
  proof (cases "k \<in> {StrongId 102, StrongId 106}")
    case True
    from both_failed [OF r(1) True] show ?thesis by (simp add: eligible_iff)
  next
    case False
    then have "map_of (im_resources demo_engine) k = Some r" using failed_lookup r(1) unfolding res [symmetric] by blast
    then obtain q where "q \<in> set topology_resources" "k = r_id q" "r = q\<lparr>r_synthetic := True\<rparr>"
      by (auto simp: demo_engine_fields dest!: map_of_SomeD)
    with topology_accelerators r(2) False show ?thesis by auto
  qed
  then obtain msgs where "Compose MakeReq ?s = (compose_rejected msgs, ?s)"
    using compose_without_class [OF keys_okD(1) [OF ok] d(1,2)] d(3) unfolding Compose_def by metis
  then show ?thesis
    by (simp add: hard_constraint_rejection_def Fresh_demo Let_def verdict_def compose_ok_def compose_rejected_def)
qed

lemma reservation_rollback_text:
  "reservation_rollback = ''reservation_rollback: reserve=REJECTED (no partial authoritative set)'' @ newline"
proof -
  obtain cr s1 where c: "Compose MakeReq demo_engine = (cr, s1)" by fastforce
  let ?syn = "SetResourceUnavailable (StrongId 106) (SetResourceUnavailable (StrongId 102) (MakeSyntheticBackend (StrongGeneration 1)))"
  let ?s = "OnResourceFailure (StrongId 106) (OnResourceFailure (StrongId 102) (sharing ?syn s1))"
  have "\<not> reserve_ok (fst (Reserve (cr_plan cr) ?s))"
  proof (cases rule: Reserve_cases [where plan = "cr_plan cr" and s = ?s])
    case (reserved m items)
    from reserve_members_success [OF reserved(3)] obtain members where
      members: "map (map_of (im_resources ?s)) (g_vertices (pl_graph (cr_plan cr))) = map Some members"
        "\<forall>r \<in> set members. eligible r (pl_request (cr_plan cr))" by blast
    have "map_of (im_resources ?s) (StrongId 106) \<in> set (map (map_of (im_resources ?s)) (g_vertices (pl_graph (cr_plan cr))))"
      unfolding demo_planD(2) [OF c] by simp
    then obtain r where "map_of (im_resources ?s) (StrongId 106) = Some r" "r \<in> set members" unfolding members(1) by auto
    with both_failed members(2) show ?thesis by blast
  qed (simp_all add: reserve_ok_def reserve_rejected_def)
  then show ?thesis by (simp add: reservation_rollback_def Fresh_demo Let_def c verdict_def case_prod_beta)
qed

subsection \<open>A generation changes\<close>

lemma Discover_demotes:
  assumes "map_of (im_compositions s) i = Some c" "c_lifecycle c = CL_ACTIVE"
  shows "map_of (im_compositions (snd (Discover s))) i \<in> {Some c, Some (c\<lparr>c_lifecycle := CL_RECOMPOSITION_REQUIRED\<rparr>)}"
    (is "?P (snd (Discover s))")
proof (rule Discover_keeps [where P = ?P])
  let ?c = "c\<lparr>c_lifecycle := CL_RECOMPOSITION_REQUIRED\<rparr>"
  have gen: "generation_demote c = ?c" "generation_demote ?c = ?c" using assms(2) by (simp_all add: generation_demote_def)
  then have mem: "member_demote r c = (if is_member r c then ?c else c)" "member_demote r ?c = ?c" for r
    by (simp_all add: member_demote_def)
  show "?P (IngestNodeLocked n t)" if "?P t" for n t
    using that gen by (cases "map_of (im_nodes t) (n_id n)") (auto simp: IngestNodeLocked_def Let_def)
  show "?P (IngestResourceLocked r t)" if "?P t" for r t
    using that mem by (cases "map_of (im_resources t) (r_id r)") (auto simp: IngestResourceLocked_def Let_def)
qed (use assms(1) in simp_all)

abbreviation changed_topology :: SyntheticBackend where
  "changed_topology \<equiv> SetResourceGeneration (StrongId 106) (StrongGeneration 9)
     (SetResourceGeneration (StrongId 102) (StrongGeneration 9) (MakeSyntheticBackend (StrongGeneration 1)))"

lemma changed_generations:
  "distinct (map r_id (bk_DiscoverResources (as_backend changed_topology)))"
  "\<exists>r \<in> set (bk_DiscoverResources (as_backend changed_topology)). r_id r = StrongId 106 \<and> r_generation r = StrongGeneration 9"
  "\<exists>r \<in> set topology_resources. r_id r = StrongId 106"
  "\<forall>r \<in> set topology_resources. r_generation r = StrongGeneration 1"
  by code_simp+

lemma resource_generation_text:
  "resource_generation_change = Some (''resource_generation_change: ACTIVE -> RECOMPOSITION_REQUIRED'' @ newline)"
proof (rule demo_activated)
  fix cr paths m rv and ar :: ActivateResult and s4 :: Impl
  let ?s1 = "demo_engine\<lparr>im_paths := paths, im_next_comp := 2\<rparr>" and ?c = "ac_composition ar"
  assume c: "Compose MakeReq demo_engine = (cr, ?s1)" and act: "activated demo_engine = (ar, s4)" and inv: "authority_inv s4"
    and ac: "?c = active_composition (cr_plan cr) ?s1" and ids: "pl_id (cr_plan cr) = StrongId 1"
    "length (au_resource_generations (pl_authority (cr_plan cr))) = 6"
    and s4: "s4 = demo_engine\<lparr>im_paths := paths, im_next_comp := 2, im_next_resv := 2, im_reserved_amount := m,
       im_next_rs := im_next_rs demo_engine + 1, im_compositions := [(StrongId 1, ?c)], im_reservations := [(StrongId 1, rv)]\<rparr>"
  let ?s = "sharing changed_topology s4" let ?t = "snd (Discover ?s)"
  have cs: "c_id ?c = StrongId 1" "c_lifecycle ?c = CL_ACTIVE" "g_vertices (c_graph ?c) = map StrongId [101, 106, 107, 103, 104, 105]"
      "length (au_resource_generations (c_authority ?c)) = 6"
    using ids demo_planD(2) [OF c] by (simp_all add: ac active_composition_def reserved_composition_def)
  have filed: "map_of (im_compositions ?s) (StrongId 1) = Some ?c" "authority_inv ?s" "im_resources ?s = im_resources demo_engine"
      "im_backends ?s = [as_backend changed_topology]"
    using inv by (simp_all add: sharing_def s4)
  let ?g = "au_resource_generations (c_authority ?c) ! 1"
  have member: "(StrongId 106, ?g) \<in> set (zip (g_vertices (c_graph ?c)) (au_resource_generations (c_authority ?c)))"
    unfolding cs(3) using cs(4) by (auto simp: set_zip intro!: exI [of _ 1])
  have holds: "\<exists>r. map_of (im_resources s') (StrongId 106) = Some r \<and> r_generation r = ?g" if "bound_to s' ?c" for s'
    using that member by (fastforce simp: bound_to_def generations_hold_def)
  have "map_of (im_compositions ?t) (StrongId 1) \<noteq> Some ?c"
  proof
    assume "map_of (im_compositions ?t) (StrongId 1) = Some ?c"
    then obtain r where r: "map_of (im_resources ?t) (StrongId 106) = Some r" "r_generation r = ?g"
      using holds authority_invD [OF authority_inv_Discover [OF filed(2)] _ cs(2)] by blast
    obtain q where q: "map_of (im_resources demo_engine) (StrongId 106) = Some q" "r_generation q = ?g"
      using holds authority_invD [OF filed(2,1) cs(2)] filed(3) by metis
    from q have "?g = StrongGeneration 1" using changed_generations(4) by (auto simp: demo_engine_fields dest!: map_of_SomeD)
    moreover obtain p where p: "p \<in> set (bk_DiscoverResources (as_backend changed_topology))" "r_id p = StrongId 106" "r_generation p = StrongGeneration 9"
      using changed_generations(2) by blast
    then have "\<exists>y. map_of (im_resources ?t) (StrongId 106) = Some (p\<lparr>r_synthetic := y\<rparr>)"
      using Discover_resource [OF filed(4) changed_generations(1) p(1)] by (simp add: GetResource_def IsValid_def)
    ultimately show False using r p(3) by auto
  qed
  with Discover_demotes [OF filed(1) cs(2)]
  have "map_of (im_compositions ?t) (StrongId 1) = Some (?c\<lparr>c_lifecycle := CL_RECOMPOSITION_REQUIRED\<rparr>)" by blast
  then show ?thesis by (simp add: resource_generation_change_def Fresh_demo act Let_def case_prod_beta GetComposition_def cs(1))
qed

subsection \<open>A member is replaced\<close>

text \<open>Whether there is a plan depends on the resources, the backends and the known paths only.\<close>

lemma compose_ok_cong:
  assumes "im_resources s = im_resources t" "im_backends s = im_backends t" "im_paths s = im_paths t"
  shows "compose_ok (fst (ComposeDeterministic req seed s)) = compose_ok (fst (ComposeDeterministic req seed t))"
  using assms
  by (simp add: ComposeDeterministic_def finish_plan_def Let_def compose_ok_def case_prod_beta split: sum.split option.split)

lemma demo_accelerator:
  "foldl (\<lambda>am v. case map_of (map (\<lambda>r. (r_id r, r\<lparr>r_synthetic := True\<rparr>)) topology_resources) v of
       Some r \<Rightarrow> if r_resource_class r = RC_ACCELERATOR then v else am
     | None \<Rightarrow> am) (StrongId 0) (map StrongId [101, 106, 107, 103, 104, 105]) = StrongId 106"
  by code_simp

lemma um_put_all: "P v \<Longrightarrow> \<forall>x \<in> snd ` set m. P x \<Longrightarrow> \<forall>x \<in> snd ` set (um_put k v m). P x"
  by (induction m) auto

lemma failure_holdable:
  assumes "\<forall>r \<in> snd ` set (im_resources s). holdable r"
  shows "\<forall>r \<in> snd ` set (im_resources (OnResourceFailure rid s)). holdable r"
proof (cases "map_of (im_resources s) rid")
  case None
  with assms show ?thesis by (simp add: OnResourceFailure_def Let_def)
next
  case (Some r)
  let ?r = "r\<lparr>r_health := RH_OFFLINE, r_readiness := RD_NOT_READY, r_evidence := (r_evidence r)\<lparr>ev_state := ES_REVALIDATION_REQUIRED\<rparr>\<rparr>"
  have "r \<in> snd ` set (im_resources s)" using map_of_SomeD [OF Some] by force
  then have "holdable r" using assms by blast
  then have "holdable ?r" by (cases "r_resource_class r") (simp_all add: holdable_def)
  moreover have eq: "im_resources (OnResourceFailure rid s) = um_put rid ?r (im_resources s)"
    using Some by (simp add: OnResourceFailure_def Let_def)
  ultimately show ?thesis unfolding eq using assms by (intro um_put_all)
qed

lemma recomposition_text: "recomposition = ''recomposition: ok=1 active=1 latest_gen=2'' @ newline"
proof (rule demo_activated)
  fix cr paths m rv and ar :: ActivateResult and s4 :: Impl
  let ?s1 = "demo_engine\<lparr>im_paths := paths, im_next_comp := 2\<rparr>" and ?c = "ac_composition ar"
  assume c: "Compose MakeReq demo_engine = (cr, ?s1)" and act: "activated demo_engine = (ar, s4)" and inv: "reachable disciplined s4"
    and ac: "?c = active_composition (cr_plan cr) ?s1" and rv: "rv_state rv = RS_COMMITTED"
    and ids: "pl_id (cr_plan cr) = StrongId 1" "pl_request (cr_plan cr) = MakeReq"
    and s4: "s4 = demo_engine\<lparr>im_paths := paths, im_next_comp := 2, im_next_resv := 2, im_reserved_amount := m,
       im_next_rs := im_next_rs demo_engine + 1, im_compositions := [(StrongId 1, ?c)], im_reservations := [(StrongId 1, rv)]\<rparr>"
  let ?s = "OnResourceFailure (StrongId 106) (sharing offline_topology s4)" and ?d = "failure_demote (StrongId 106) ?c"
  have cs: "c_id ?c = StrongId 1" "g_vertices (c_graph ?c) = map StrongId [101, 106, 107, 103, 104, 105]" "c_request ?c = MakeReq"
      "c_reservation ?c = StrongId 1"
    using ids demo_planD(2) [OF c] by (simp_all add: ac active_composition_def reserved_composition_def demo_engine_fields)
  have am: "last_accelerator s4 (g_vertices (c_graph ?c)) = StrongId 106"
    unfolding cs(2) using demo_accelerator by (simp add: last_accelerator_def GetResource_def s4 demo_engine_fields)
  have fields: "im_compositions ?s = [(StrongId 1, ?d)]" "im_reservations ?s = [(StrongId 1, rv)]" "im_next_comp ?s = 2"
      "im_fenced ?s = {}"
    by (simp_all add: OnResourceFailure_def Let_def sharing_def s4 um_map_values_def demo_engine_fields split: option.split)
  have found: "map_of (im_compositions ?s) (StrongId 1) = Some ?d" by (simp add: fields)
  have "reachable disciplined (run_event (Ev_OnResourceFailure (StrongId 106)) (run_event (Ev_BackendsChange [as_backend offline_topology]) s4))"
    using inv by (intro reachable_step) simp_all
  then have reach: "reachable disciplined ?s" by (simp add: sharing_def)
  have "releasable (StrongId 1) ?s" using rv by (simp add: releasable_def fields cs live_def)
  then have free: "d_eq (held_amount (im_reserved_amount (recompute_release (StrongId 1) ?s)) rid) 0" for rid
    by (rule released_free [OF reach _ found]) (simp add: fields cs split: if_splits)
  obtain cr' s5 where c': "ComposeDeterministic MakeReq 0 ?s = (cr', s5)" by fastforce
  let ?t = "OnResourceFailure (StrongId 106) (sharing offline_topology ?s1)"
  have "im_resources ?s = im_resources ?t" "im_backends ?s = im_backends ?t" "im_paths ?s = im_paths ?t"
    by (simp_all add: OnResourceFailure_def Let_def sharing_def s4 split: option.split)
  from compose_ok_cong [OF this, of MakeReq 0] have ok: "compose_ok cr'"
    using demo_plan c c' by (simp add: Compose_def case_prod_beta)
  have keys: "keys_ok ?s" by (rule tables.always [OF disciplined_reachable [OF reach]])
  have hold: "\<forall>r \<in> snd ` set (im_resources ?s). holdable r"
    using demo_holdable by (intro failure_holdable) (simp add: sharing_def s4)
  obtain s6 where run: "Recompute (StrongId 1) ?s = (True, s6)" "activation_frame (cr_plan cr') (recompute_release (StrongId 1) s5) s6"
    using recompute_activates [OF keys found, of cr' s5] c' ok free hold by (auto simp: cs fields)
  have plan: "pl_id (cr_plan cr') = StrongId 2" "pl_generation (cr_plan cr') = StrongGeneration 2"
    using composed_id [OF keys c' ok] by (simp_all add: fields)
  have "im_compositions s5 = [(StrongId 1, ?d)]"
    using keys_okD(1) [OF keys] c' fields(1) by (cases rule: ComposeDeterministic_cases [of ?s MakeReq 0]) auto
  then have "im_compositions s6 =
      [(StrongId 1, ?d\<lparr>c_lifecycle := CL_RELEASED\<rparr>), (StrongId 2, active_composition (cr_plan cr') (recompute_release (StrongId 1) s5))]"
    using run(2) plan(1)
    by (auto simp: activation_frame_def recompute_release_def release_reservation_def set_released_def split: option.split)
  then have "filter (\<lambda>c. c_lifecycle c = CL_ACTIVE) (sn_compositions (Snapshot s6)) =
      [active_composition (cr_plan cr') (recompute_release (StrongId 1) s5)]"
    by (simp add: Snapshot_def active_composition_def)
  then show ?thesis
    by (simp add: recomposition_def Fresh_demo act Let_def am cs(1) run(1) plan(2) active_composition_def reserved_composition_def
        size_string_def gen_ToString_def to_string_def dec_string.simps digit_char_def)
qed

subsection \<open>The whole program\<close>

text \<open>
  The examples show what they claim, and no block dereferences a missing composition: on the synthetic
  topology the request is composed from six resources on four nodes, reserved, committed and activated;
  with both accelerators offline it is rejected with the typed reason; a plan whose accelerators fail
  before it is reserved is not reserved; a new generation of a member takes the authority away; and after
  the failure of its accelerator the composition is replaced by one other active composition.
\<close>

theorem examples_deliver:
  "examples_main = Some (0,
     ''basic_composition: SUCCESS vertices=6'' @ newline @
     ''  reserve=ok commit=ok activate=ok lifecycle=ACTIVE'' @ newline @
     ''hard_constraint_rejection: REJECTED reasons=NO_VALID_COMPOSITION '' @ newline @
     ''reservation_rollback: reserve=REJECTED (no partial authoritative set)'' @ newline @
     ''resource_generation_change: ACTIVE -> RECOMPOSITION_REQUIRED'' @ newline @
     ''recomposition: ok=1 active=1 latest_gen=2'' @ newline @
     ''synthetic_multinode: SUCCESS vertices=6 (SYNTHETIC topology)'' @ newline @ ''  nodes: 1 4 2 3 '' @ newline @
     newline @ ''examples complete'' @ newline)"
proof -
  obtain cr s1 where c: "Compose MakeReq demo_engine = (cr, s1)" by fastforce
  have "synthetic_multinode = ''synthetic_multinode: SUCCESS vertices=6 (SYNTHETIC topology)'' @ newline @ ''  nodes: 1 4 2 3 '' @ newline"
    using c demo_planD [OF c]
    by (simp add: synthetic_multinode_def Fresh_demo Let_def verdict_def plan_size_def size_string_def id_ToString_def to_string_def
        dec_string.simps digit_char_def)
  then show ?thesis
    by (simp add: examples_main_def basic_composition_text hard_constraint_text reservation_rollback_text resource_generation_text recomposition_text)
qed

text \<open>
  C1. What \<open>compose\<close> of the inspection tool answers: on the single-host backend always the typed rejection,
  whatever the host reports, since it has no accelerator; on the synthetic backend the plan with the
  second accelerator, its score and its six members.
\<close>

theorem cli_compose_exact:
  "cli_main h [''compose''] =
     (0, ''compose outcome=REJECTED score=0.000000 vertices=0 reasons=NO_VALID_COMPOSITION '' @ newline) \<and>
   cli_main h [''compose'', ''synthetic''] =
     (0, ''compose outcome=SUCCESS score=65.300000 vertices=6 reasons='' @ newline @
        concat (map (\<lambda>v. ''  vertex '' @ v @ newline) [''101'', ''106'', ''107'', ''103'', ''104'', ''105'']))"
proof -
  obtain cr s1 where c: "Compose MakeReq demo_engine = (cr, s1)" by fastforce
  have "cr_outcome cr = CO_SUCCESS" "fixed6 (rk_total (pl_rank (cr_plan cr))) = ''65.300000''"
    using demo_plan demo_planD(1) [OF c] c by (simp_all add: compose_ok_def)
  with c demo_planD [OF c]
  have "cli_compose demo_engine = ''compose outcome=SUCCESS score=65.300000 vertices=6 reasons='' @ newline @
        concat (map (\<lambda>v. ''  vertex '' @ v @ newline) [''101'', ''106'', ''107'', ''103'', ''104'', ''105''])"
    by (simp add: cli_compose_def Let_def size_string_def id_ToString_def to_string_def dec_string.simps digit_char_def)
  then show ?thesis using cli_host_compose_rejected [of h]
    by (simp add: cli_main_def [of h "[''compose'', ''synthetic'']"] demo_backend demo_engine_def Let_def)
qed

end
