(* ===== verification/Fabric_Consumer.thy ===== *)
theory Fabric_Consumer
  imports Fabric_Demo
begin

text \<open>
  The downstream program \<open>consumer/main.cpp\<close>: an engine with the synthetic backend, from discovery to an
  active composition, with the message and the exit code of each step that can fail.  Shown: none fails.
\<close>

section \<open>The program\<close>

definition consumer_config :: EngineConfig where
  "consumer_config =
     \<lparr>cf_coordinator = StrongId 42, cf_epoch = StrongGeneration 1, cf_node_authority = [], cf_persist_authority_only = True\<rparr>"

definition consumer_request :: CompositionRequest where
  "consumer_request = CompositionRequest_default\<lparr>rq_compute_units := 1, rq_accelerator_count := 1, rq_accelerator_memory_bytes := d_1,
     rq_host_memory_bytes := d_1024, rq_expanded_memory_bytes := d_1024, rq_storage_bytes := d_1024,
     rq_network_endpoint_count := 1, rq_min_bandwidth_mbps := d_1000, rq_max_latency_us := d_100,
     rq_mandatory_classes := {RC_COMPUTE, RC_ACCELERATOR, RC_HOST_MEMORY, RC_EXPANDED_MEMORY, RC_STORAGE, RC_NETWORK_ENDPOINT}\<rparr>"

definition consumer_engine :: Impl where
  "consumer_engine =
     snd (Discover (AddBackend (Some (as_backend (MakeSyntheticBackend (StrongGeneration 1)))) (FabricEngine consumer_config)))"

definition consumer_main :: "int \<times> string" where
  "consumer_main =
     (let (cr, s1) = Compose consumer_request consumer_engine in
      if \<not> compose_ok cr then (1, ''consumer: compose failed'' @ newline)
      else let (rr, s2) = Reserve (cr_plan cr) s1 in
      if \<not> reserve_ok rr then (1, ''consumer: reserve failed'' @ newline)
      else let (cc, s3) = Commit (re_reservation rr) s2 in
      if \<not> commit_ok cc then (1, ''consumer: commit failed'' @ newline)
      else let (ar, s4) = Activate (c_id (cm_composition cc)) s3 in
      if \<not> activate_ok ar then (1, ''consumer: activate failed'' @ newline)
      else if c_lifecycle (ac_composition ar) \<noteq> CL_ACTIVE then (1, ''consumer: not active'' @ newline)
      else (0, ''consumer: find_package + compose/reserve/commit/activate OK (composition id='' @
              to_string (Value (c_id (ac_composition ar))) @ '' gen='' @ to_string (gen_Value (c_generation (ac_composition ar))) @ '')'' @ newline))"

section \<open>Discovery does not depend on the configuration\<close>

lemma IngestNode_config: "IngestNodeLocked n (s\<lparr>im_config := c\<rparr>) = (IngestNodeLocked n s)\<lparr>im_config := c\<rparr>"
  by (simp add: IngestNodeLocked_def Let_def split: option.split)

lemma IngestResource_config: "IngestResourceLocked r (s\<lparr>im_config := c\<rparr>) = (IngestResourceLocked r s)\<lparr>im_config := c\<rparr>"
  by (simp add: IngestResourceLocked_def Let_def split: option.split)

abbreviation reconfigure :: "EngineConfig \<Rightarrow> DiscoveryResult \<times> Impl \<Rightarrow> DiscoveryResult \<times> Impl" where
  "reconfigure c \<equiv> map_prod id (im_config_update (\<lambda>_. c))"

lemma discover_backend_config: "reconfigure c (discover_backend acc b) = discover_backend (reconfigure c acc) b"
proof -
  have "reconfigure c (discover_node acc n) = discover_node (reconfigure c acc) n" for acc n
    by (cases acc) (simp add: discover_node_def IngestNode_config)
  moreover have "reconfigure c (discover_resource acc r) = discover_resource (reconfigure c acc) r" for acc r
    by (cases acc) (simp add: discover_resource_def IngestResource_config Let_def split: option.split)
  ultimately show ?thesis unfolding discover_backend_def
    by (simp add: foldl_commute [where h = "reconfigure c" and f = discover_resource and g = discover_resource]
        foldl_commute [where h = "reconfigure c" and f = discover_node and g = discover_node])
qed

lemma discover_path_config: "(discover_path s p)\<lparr>im_config := c\<rparr> = discover_path (s\<lparr>im_config := c\<rparr>) p"
  by (cases p) (simp add: discover_path_def split: option.split)

lemma Discover_config: "snd (Discover (s\<lparr>im_config := c\<rparr>)) = (snd (Discover s))\<lparr>im_config := c\<rparr>"
proof -
  let ?start = "(\<lparr>dr_nodes = [], dr_resources = []\<rparr>, s)"
  have "foldl discover_backend (reconfigure c ?start) (im_backends s) = reconfigure c (foldl discover_backend ?start (im_backends s))"
    by (rule foldl_commute [symmetric]) (rule discover_backend_config)
  moreover have "(foldl discover_path t ps)\<lparr>im_config := c\<rparr> = foldl discover_path (t\<lparr>im_config := c\<rparr>) ps" for t ps
    by (rule foldl_commute [where h = "im_config_update (\<lambda>_. c)"]) (rule discover_path_config)
  moreover obtain out t where "foldl discover_backend ?start (im_backends s) = (out, t)" by fastforce
  ultimately show ?thesis by (simp add: Discover_def Let_def)
qed

section \<open>It runs to an active composition\<close>

lemma consumer_engine_eq: "consumer_engine = demo_engine\<lparr>im_config := consumer_config\<rparr>"
proof -
  have "AddBackend b (FabricEngine consumer_config) = (AddBackend b (FabricEngine cli_config))\<lparr>im_config := consumer_config\<rparr>" for b
    by (simp add: AddBackend_def FabricEngine_def consumer_config_def cli_config_def IsValid_def gen_IsValid_def split: option.split)
  then show ?thesis by (simp add: consumer_engine_def demo_engine_def cli_engine_def Discover_config)
qed

text \<open>
  The consumer succeeds: none of its steps fails, so it prints the composition's id and generation, both
  one, and exits with zero.
\<close>

theorem consumer_succeeds:
  "consumer_main = (0, ''consumer: find_package + compose/reserve/commit/activate OK (composition id=1 gen=1)'' @ newline)"
proof -
  obtain cr s1 where c: "Compose consumer_request consumer_engine = (cr, s1)" by fastforce
  have req: "consumer_request = MakeReq" by (simp add: consumer_request_def MakeReq_def)
  have keys: "keys_ok consumer_engine"
    unfolding consumer_engine_def by (intro keys_ok_Discover) (simp add: AddBackend_def keys_ok_def FabricEngine_def)
  have fields: "im_resources consumer_engine = im_resources demo_engine" "im_backends consumer_engine = im_backends demo_engine"
      "im_paths consumer_engine = im_paths demo_engine" "im_next_comp consumer_engine = 1" "im_fenced consumer_engine = {}"
      "im_reserved_amount consumer_engine = []"
    by (simp_all add: consumer_engine_eq demo_engine_fields)
  have ok: "compose_ok cr"
    using compose_ok_cong [OF fields(1-3), of MakeReq 0] demo_plan c by (simp add: Compose_def req case_prod_beta)
  obtain rr s2 cc s3 ar s4 where run:
    "Reserve (cr_plan cr) s1 = (rr, s2)" "reserve_ok rr" "Commit (re_reservation rr) s2 = (cc, s3)" "commit_ok cc"
    "Activate (c_id (cm_composition cc)) s3 = (ar, s4)" "activate_ok ar" "ac_composition ar = active_composition (cr_plan cr) s1"
    using composed_activates [OF keys c ok] demo_holdable by (auto simp: fields held_amount_def held.zero_is_zero)
  have "pl_id (cr_plan cr) = StrongId 1" "pl_generation (cr_plan cr) = StrongGeneration 1"
    using composed_id [OF keys c [unfolded Compose_def] ok] by (simp_all add: fields)
  with run ok show ?thesis
    by (simp add: consumer_main_def c Let_def active_composition_def reserved_composition_def to_string_def dec_string.simps digit_char_def)
qed

end
