(* ===== verification/Fabric_Completeness.thy ===== *)
theory Fabric_Completeness
  imports Fabric_Planner
begin

text \<open>
  When \<open>ComposeDeterministic\<close> finds a plan.  The planner looks at the best eight candidates of a class, at
  24 selections per class and at 400 combinations, so that it is not complete in general.  Here: on
  resources of one node, with enough candidates that each supply the demand, it always succeeds; and a
  demand for more than eight resources of a class it always rejects.
\<close>

section \<open>The first combination\<close>

lemma combinations_nonempty: "n \<le> length xs \<Longrightarrow> combinations n xs \<noteq> []"
  by (induction n xs rule: combinations.induct) auto

lemma first_combo:
  assumes "0 < cap" "\<forall>sel \<in> set sels. snd sel \<noteq> []" "distinct (combo @ concat (map (\<lambda>sel. hd (snd sel)) sels))"
  shows "\<exists>rest. combine_classes cap sels (combo # combos) = Some ((combo @ concat (map (\<lambda>sel. hd (snd sel)) sels)) # rest)"
  using assms(2,3)
proof (induction sels arbitrary: combo combos)
  case (Cons sel sels)
  obtain pick picks where p: "snd sel = pick # picks" using Cons.prems(1) by (cases "snd sel") auto
  have "joins (snd sel) combo = (combo @ pick) # joins picks combo"
    using Cons.prems(2) p by (auto simp: joins_def)
  then obtain more where "extend_combos cap (combo # combos) (snd sel) [] = (combo @ pick) # more"
    using extend_combos_closed [of "[]" cap "combo # combos" "snd sel"] assms(1) by (cases cap) simp_all
  with Cons.IH [of "combo @ pick" more] Cons.prems p show ?case by simp
qed simp

text \<open>Selections for different classes, joined: they do not overlap, and the part of a class is its selection.\<close>

lemma concat_classes:
  assumes "distinct (map cls ds)" "\<And>d. d \<in> set ds \<Longrightarrow> distinct (p d) \<and> (\<forall>x \<in> set (p d). k x = cls d)"
  shows "distinct (concat (map p ds))" "d \<in> set ds \<Longrightarrow> filter (\<lambda>x. k x = cls d) (concat (map p ds)) = p d"
proof -
  have "distinct (concat (map p ds)) \<and> (\<forall>d \<in> set ds. filter (\<lambda>x. k x = cls d) (concat (map p ds)) = p d)"
    using assms
  proof (induction ds)
    case (Cons e ds)
    then have IH: "distinct (concat (map p ds))" "\<And>d. d \<in> set ds \<Longrightarrow> filter (\<lambda>x. k x = cls d) (concat (map p ds)) = p d" by simp_all
    have e: "distinct (p e)" "\<And>x. x \<in> set (p e) \<Longrightarrow> k x = cls e" using Cons.prems(2) by auto
    have others: "k x \<noteq> cls e" if "x \<in> set (concat (map p ds))" for x
    proof -
      from that obtain d where "d \<in> set ds" "x \<in> set (p d)" by auto
      with Cons.prems show ?thesis by (metis image_eqI distinct.simps(2) list.set_intros(2) list.simps(9) set_map)
    qed
    have "filter (\<lambda>x. k x = cls e) (concat (map p ds)) = []" using others by (simp add: filter_empty_conv)
    moreover have "filter (\<lambda>x. k x = cls e) (p e) = p e" using e(2) by simp
    moreover have "filter (\<lambda>x. k x = cls d) (p e) = []" if "d \<in> set ds" for d
      using e(2) that Cons.prems(1) by (fastforce simp: filter_empty_conv)
    moreover have "set (p e) \<inter> set (concat (map p ds)) = {}" using e(2) others by blast
    ultimately show ?case using IH e(1) by (simp del: set_concat)
  qed simp
  then show "distinct (concat (map p ds))" "d \<in> set ds \<Longrightarrow> filter (\<lambda>x. k x = cls d) (concat (map p ds)) = p d" by blast+
qed

section \<open>Supplied demands\<close>

definition wanted :: "ClassDemand \<Rightarrow> nat" where
  "wanted d = (if cd_count d \<noteq> 0 then unat (cd_count d) else 1)"

text \<open>Enough candidates for the demand, and where an amount is asked for each of them has it.\<close>

definition supplied :: "CompositionRequest \<Rightarrow> ResourceMap \<Rightarrow> ClassDemand \<Rightarrow> bool" where
  "supplied req resources d \<longleftrightarrow>
     wanted d \<le> 8 \<and> wanted d \<le> length (candidates req resources (cd_cls d)) \<and>
     (cd_amount_based d \<longrightarrow>
        (\<forall>r \<in> set (candidates req resources (cd_cls d)). d_ge (CapacityForDimension r (cd_dimension d)) (cd_amount d)))"

lemma add_to_zero: "d_amount x \<Longrightarrow> d_ge x y \<Longrightarrow> d_ge (d_add 0 x) y"
proof -
  assume x: "d_amount x" "d_ge x y"
  from held.amount_cases [OF x(1)] show ?thesis
  proof
    assume "d_eq x 0"
    with held.add_zeros [OF held.zero_is_zero] x(2) show ?thesis by (auto simp: d_eq_def d_ge_def)
  next
    assume "d_gt x 0"
    with held.add_zero [OF held.zero_is_zero x(1)] x(2) show ?thesis by simp
  qed
qed

lemma close_keeps [simp]:
  "cd_amount_based (close_demand req d) = cd_amount_based d" "cd_dimension (close_demand req d) = cd_dimension d"
  by (simp_all add: close_demand_def Let_def)

lemma amount_demand_capacity:
  assumes "d \<in> set (ComputeDemands req)" "cd_amount_based d" "capacity_ok r"
  shows "d_amount (CapacityForDimension r (cd_dimension d))"
  using assms by (auto simp: ComputeDemands_def add_demand_def capacity_ok_def CapacityForDimension_def)

lemma enough_selections:
  "wanted d \<le> length (take 8 items) \<Longrightarrow> all_selections items d =
     (if \<not> cd_amount_based d then combinations (wanted d) (map r_id (take 8 items))
      else map (\<lambda>r. [r_id r]) (take 8 items) @
        (if d_gt (cd_amount d) 0
         then map (\<lambda>p. [r_id (fst p), r_id (snd p)]) (filter (pair_supplies d) (index_pairs (take 8 items))) else []))"
  unfolding all_selections_def Let_def wanted_def [symmetric] by (simp add: not_less del: length_take)

lemma supplied_picks:
  assumes "supplied req resources d"
  shows "class_picks req resources d \<noteq> []"
    and "cd_amount_based d \<Longrightarrow> \<exists>r \<in> set (candidates req resources (cd_cls d)). hd (class_picks req resources d) = [r_id r]"
    and "\<not> cd_amount_based d \<Longrightarrow> length (hd (class_picks req resources d)) = wanted d"
proof -
  let ?items = "std_sort (candidate_before d) (candidates req resources (cd_cls d))"
  have enough: "wanted d \<le> length (take 8 ?items)" "0 < wanted d"
    using assms by (auto simp: supplied_def wanted_def unat_gt_0)
  obtain r rs where items: "?items = r # rs" using enough by (cases ?items) auto
  have r: "r \<in> set (candidates req resources (cd_cls d))" by (metis items list.set_intros(1) set_std_sort)
  have picks: "class_picks req resources d = take 24 (all_selections ?items d)"
    by (simp add: class_picks_def EnumerateSelections_closed)
  let ?all = "combinations (wanted d) (map r_id (take 8 ?items))"
  have "?all \<noteq> []" using enough(1) by (intro combinations_nonempty) simp
  then obtain c cs where all: "?all = c # cs" by (cases ?all) auto
  then have len: "length c = wanted d" using combinations_length [of c] by (metis list.set_intros(1))
  have counted: "class_picks req resources d = take 24 (c # cs)" if "\<not> cd_amount_based d"
    unfolding picks enough_selections [OF enough(1)] all using that by simp
  have amounts: "\<exists>more. class_picks req resources d = [r_id r] # more" if "cd_amount_based d"
  proof -
    have "class_picks req resources d = take 24 (map (\<lambda>r. [r_id r]) (take 8 ?items) @
        (if d_gt (cd_amount d) 0 then map (\<lambda>p. [r_id (fst p), r_id (snd p)]) (filter (pair_supplies d) (index_pairs (take 8 ?items))) else []))"
      unfolding picks enough_selections [OF enough(1)] using that by simp
    then show ?thesis unfolding items by simp
  qed
  show "class_picks req resources d \<noteq> []" using counted amounts by (cases "cd_amount_based d") auto
  show "\<exists>r \<in> set (candidates req resources (cd_cls d)). hd (class_picks req resources d) = [r_id r]" if "cd_amount_based d"
    using amounts [OF that] r by auto
  show "length (hd (class_picks req resources d)) = wanted d" if "\<not> cd_amount_based d"
    using counted [OF that] len by simp
qed

section \<open>Requests on one node\<close>

lemma first_pick_meets:
  assumes "keyed r_id resources" "d \<in> set (ComputeDemands req)" "supplied req resources d" "\<forall>(k, r) \<in> set resources. capacity_ok r"
  shows "MeetsDemand (map (\<lambda>rid. the (map_of resources rid)) (hd (class_picks req resources d))) d"
proof (cases "cd_amount_based d")
  case True
  obtain r where r: "r \<in> set (candidates req resources (cd_cls d))" "hd (class_picks req resources d) = [r_id r]"
    using supplied_picks(2) [OF assms(3) True] by blast
  then obtain k where k: "(k, r) \<in> set resources" by (auto simp: candidates_set)
  then have "the (map_of resources (r_id r)) = r" using keyed_member [OF assms(1) k] by auto
  moreover have "d_amount (CapacityForDimension r (cd_dimension d))"
    using assms(4) k by (intro amount_demand_capacity [OF assms(2) True]) auto
  moreover have "d_ge (CapacityForDimension r (cd_dimension d)) (cd_amount d)" using assms(3) True r(1) by (simp add: supplied_def)
  ultimately show ?thesis using add_to_zero True by (simp add: MeetsDemand_def r(2))
next
  case False
  have len: "length (hd (class_picks req resources d)) = wanted d" by (rule supplied_picks(3) [OF assms(3) False])
  then have "hd (class_picks req resources d) \<noteq> []" by (auto simp: wanted_def unat_eq_0 split: if_splits)
  moreover have "cd_count d \<le> word_of_nat (wanted d)" by (simp add: wanted_def)
  ultimately show ?thesis using False len by (simp add: MeetsDemand_def)
qed

lemma one_node_graph:
  assumes "\<And>r. r \<in> set members \<Longrightarrow> map_of resources (r_id r) = Some r \<and> r_node_id r = node"
    and "\<not> d_lt d_1e12 (rq_min_bandwidth_mbps req)"
  shows "fst (ValidateGraph (BuildGraph req members) resources paths)"
  unfolding ValidateGraph_iff
proof
  fix e assume "e \<in> set (g_edges (BuildGraph req members))"
  then obtain a b kind where e: "a \<in> set members" "b \<in> set members" "e = edge_of req a b kind" by (auto simp: BuildGraph_edges)
  have "\<not> d_gt 0 x" if "d_gt x 0" for x using that by (auto simp: d_lt_def)
  then have "bounds_ok e d_1e12 0" using assms(2) by (simp add: bounds_ok_def e(3) edge_of_def)
  then show "edge_ok resources paths e"
    using assms(1) [OF e(1)] assms(1) [OF e(2)] by (simp add: edge_ok_def e(3) edge_of_def)
qed

lemma select_classes_all:
  "(\<And>d. d \<in> set ds \<Longrightarrow> cd_mandatory d \<Longrightarrow> class_picks req resources d \<noteq> []) \<Longrightarrow>
     select_classes req resources ds = Inr (map (\<lambda>d. (d, class_picks req resources d)) (filter cd_mandatory ds))"
  by (induction ds) (simp_all add: Let_def class_picks_def [symmetric])

lemma feasible_composes:
  assumes "keys_ok s" "settled req (im_backends s) (im_paths s)" "\<forall>(k, r) \<in> set (im_resources s). capacity_ok r"
    and "planned_combos req (im_resources s) = Some (sels, combos)" "combo \<in> set combos"
    and "feasible_combo req (im_resources s) (im_paths s) sels combo"
  shows "compose_ok (fst (ComposeDeterministic req seed s))"
proof -
  obtain best where best: "best_so_far req (im_resources s) (im_paths s) sels combos best"
    and ok: "compose_ok (fst (ComposeDeterministic req seed s)) \<longleftrightarrow> cr_outcome best = CO_SUCCESS"
    by (rule compose_settled [OF assms(1-4)])
  with assms(5,6) show ?thesis by (auto simp: best_so_far_def split: if_splits)
qed

text \<open>The first selections of the mandatory classes, one after the other, and the resources they name.\<close>

definition first_picks :: "CompositionRequest \<Rightarrow> ResourceMap \<Rightarrow> ResourceId list" where
  "first_picks req resources =
     concat (map (\<lambda>d. hd (class_picks req resources d)) (filter cd_mandatory (ComputeDemands req)))"

definition first_members :: "CompositionRequest \<Rightarrow> ResourceMap \<Rightarrow> Resource list" where
  "first_members req resources = map (\<lambda>rid. the (map_of resources rid)) (first_picks req resources)"

lemma first_pick:
  assumes "keyed r_id resources" "class_picks req resources d \<noteq> []"
  shows "distinct (hd (class_picks req resources d))"
    and "rid \<in> set (hd (class_picks req resources d)) \<Longrightarrow> \<exists>r. map_of resources rid = Some r \<and> r_id r = rid \<and>
           (rid, r) \<in> set resources \<and> eligible r req \<and> r_resource_class r = cd_cls d"
  using class_picks_member [OF assms(1) list.set_sel(1) [OF assms(2)]] by (blast dest: map_of_SomeD)+

lemma first_picks_classes:
  assumes ok: "keyed r_id resources"
    and picks: "\<And>d. d \<in> set (ComputeDemands req) \<Longrightarrow> cd_mandatory d \<Longrightarrow> class_picks req resources d \<noteq> []"
  shows "distinct (first_picks req resources)"
    and "d \<in> set (ComputeDemands req) \<Longrightarrow> cd_mandatory d \<Longrightarrow>
      filter (\<lambda>rid. r_resource_class (the (map_of resources rid)) = cd_cls d) (first_picks req resources)
        = hd (class_picks req resources d)"
proof -
  let ?ds = "filter cd_mandatory (ComputeDemands req)"
  have classes: "distinct (map cd_cls ?ds)" by (rule distinct_map_filter [OF ComputeDemands_distinct])
  have each: "distinct (hd (class_picks req resources e)) \<and>
      (\<forall>rid \<in> set (hd (class_picks req resources e)). r_resource_class (the (map_of resources rid)) = cd_cls e)"
    if "e \<in> set ?ds" for e
    using first_pick [OF ok picks, of e] that by fastforce
  note parts = concat_classes [where k = "\<lambda>rid. r_resource_class (the (map_of resources rid))"
      and p = "\<lambda>d. hd (class_picks req resources d)", OF classes each]
  show "distinct (first_picks req resources)" unfolding first_picks_def by (rule parts(1))
  assume "d \<in> set (ComputeDemands req)" "cd_mandatory d"
  then show "filter (\<lambda>rid. r_resource_class (the (map_of resources rid)) = cd_cls d) (first_picks req resources)
      = hd (class_picks req resources d)"
    unfolding first_picks_def by (intro parts(2)) simp_all
qed

lemma first_members_lookup:
  assumes ok: "keyed r_id resources"
    and picks: "\<And>d. d \<in> set (ComputeDemands req) \<Longrightarrow> cd_mandatory d \<Longrightarrow> class_picks req resources d \<noteq> []"
  shows "lookup_members resources (first_picks req resources) = Some (first_members req resources)"
    and "r \<in> set (first_members req resources) \<Longrightarrow> map_of resources (r_id r) = Some r \<and> (r_id r, r) \<in> set resources \<and> eligible r req"
proof -
  have found: "\<exists>r. map_of resources rid = Some r \<and> r_id r = rid \<and> (rid, r) \<in> set resources \<and> eligible r req"
    if "rid \<in> set (first_picks req resources)" for rid
    using that first_pick(2) [OF ok picks] unfolding first_picks_def by fastforce
  show "lookup_members resources (first_picks req resources) = Some (first_members req resources)"
    unfolding lookup_members_spec first_members_def using found by fastforce
  show "map_of resources (r_id r) = Some r \<and> (r_id r, r) \<in> set resources \<and> eligible r req"
    if "r \<in> set (first_members req resources)"
    using that found unfolding first_members_def by fastforce
qed

lemma first_picks_planned:
  assumes ok: "keyed r_id resources" and some: "\<exists>d \<in> set (ComputeDemands req). cd_mandatory d"
    and picks: "\<And>d. d \<in> set (ComputeDemands req) \<Longrightarrow> cd_mandatory d \<Longrightarrow> class_picks req resources d \<noteq> []"
  shows "\<exists>more. planned_combos req resources =
    Some (map (\<lambda>d. (d, class_picks req resources d)) (filter cd_mandatory (ComputeDemands req)), first_picks req resources # more)"
proof -
  let ?sels = "map (\<lambda>d. (d, class_picks req resources d)) (filter cd_mandatory (ComputeDemands req))"
  have "\<exists>more. combine_classes 400 ?sels [[]] = Some (([] @ concat (map (\<lambda>sel. hd (snd sel)) ?sels)) # more)"
    by (rule first_combo) (use picks first_picks_classes(1) [OF ok picks] in \<open>auto simp: first_picks_def comp_def\<close>)
  then show ?thesis
    using some select_classes_all [of "ComputeDemands req" req resources, OF picks]
    by (auto simp: planned_combos_def first_picks_def comp_def filter_empty_conv)
qed

text \<open>The hypotheses on a request and a state under which composition is certain.\<close>

definition one_node_request :: "CompositionRequest \<Rightarrow> bool" where
  "one_node_request req \<longleftrightarrow> fc_topology (rq_failure_domain req) \<in> {TC_NONE, TC_COLOCATE} \<and>
     \<not> rq_require_coherence req \<and> \<not> d_lt d_1e12 (rq_min_bandwidth_mbps req) \<and>
     (\<exists>d \<in> set (ComputeDemands req). cd_mandatory d)"

definition one_node_supply :: "CompositionRequest \<Rightarrow> NodeId \<Rightarrow> ResourceMap \<Rightarrow> bool" where
  "one_node_supply req node resources \<longleftrightarrow>
     (\<forall>(k, r) \<in> set resources. capacity_ok r \<and> (eligible r req \<longrightarrow> r_node_id r = node)) \<and>
     (\<forall>d \<in> set (ComputeDemands req). cd_mandatory d \<longrightarrow> supplied req resources d)"

lemma one_node_feasible:
  assumes ok: "keyed r_id resources" and req: "one_node_request req" and sup: "one_node_supply req node resources"
  shows "feasible req resources paths
    (map (\<lambda>d. (d, class_picks req resources d)) (filter cd_mandatory (ComputeDemands req))) (first_members req resources)"
proof -
  have all: "supplied req resources d" if "d \<in> set (ComputeDemands req)" "cd_mandatory d" for d
    using sup that by (simp add: one_node_supply_def)
  note picks = supplied_picks(1) [OF all]
  have node: "map_of resources (r_id r) = Some r \<and> r_node_id r = node" if "r \<in> set (first_members req resources)" for r
    using first_members_lookup(2) [OF ok picks that] sup by (auto simp: one_node_supply_def)
  have cap: "\<forall>(k, r) \<in> set resources. capacity_ok r" using sup by (auto simp: one_node_supply_def)
  have "MeetsDemand (filter (\<lambda>r. r_resource_class r = cd_cls d) (first_members req resources)) d"
    if d: "d \<in> set (ComputeDemands req)" "cd_mandatory d" for d
    using first_pick_meets [OF ok d(1) all [OF d] cap] first_picks_classes(2) [OF ok picks d]
    by (simp add: first_members_def filter_map comp_def)
  then have "meets_all (map (\<lambda>d. (d, class_picks req resources d)) (filter cd_mandatory (ComputeDemands req)))
      (first_members req resources)" by (auto simp: meets_all_def)
  moreover have "topology_ok (first_members req resources) req"
    using req node by (auto simp: one_node_request_def topology_ok_def)
  ultimately show ?thesis
    using one_node_graph [OF node] req
    by (simp add: feasible_def ValidateFailureDomains_iff coherent_def one_node_request_def)
qed

lemma one_node_composes:
  assumes ok: "keys_ok s" and settled: "settled req (im_backends s) (im_paths s)"
    and req: "one_node_request req" and sup: "one_node_supply req node (im_resources s)"
  shows "compose_ok (fst (ComposeDeterministic req seed s))"
proof -
  note keyed = keys_okD(1) [OF ok]
  have picks: "class_picks req (im_resources s) d \<noteq> []" if "d \<in> set (ComputeDemands req)" "cd_mandatory d" for d
    using sup that by (intro supplied_picks(1)) (simp add: one_node_supply_def)
  obtain more where plan: "planned_combos req (im_resources s) =
      Some (map (\<lambda>d. (d, class_picks req (im_resources s) d)) (filter cd_mandatory (ComputeDemands req)),
        first_picks req (im_resources s) # more)"
    using first_picks_planned [OF keyed _ picks] req by (auto simp: one_node_request_def)
  have cap: "\<forall>(k, r) \<in> set (im_resources s). capacity_ok r" using sup by (auto simp: one_node_supply_def)
  show ?thesis
    by (rule feasible_composes [OF ok settled cap plan list.set_intros(1)])
      (simp add: feasible_combo_def first_members_lookup(1) [OF keyed picks] one_node_feasible [OF keyed req sup])
qed

section \<open>When planning is complete, and when it is not\<close>



text \<open>
  C40. A request for more than eight resources of a class that is asked for by count is rejected, however
  many suitable resources are registered: only the eight best candidates of a class are looked at.
\<close>

theorem many_of_class_rejected:
  assumes "d \<in> set (ComputeDemands req)" "cd_mandatory d" "\<not> cd_amount_based d" "8 < unat (cd_count d)"
  shows "\<not> compose_ok (fst (ComposeDeterministic req seed s)) \<and> snd (ComposeDeterministic req seed s) = s"
proof -
  have "class_picks req (im_resources s) d = []"
    using assms(3,4) by (auto simp: class_picks_def EnumerateSelections_closed all_selections_def Let_def)
  then obtain msgs where "select_classes req (im_resources s) (ComputeDemands req) = Inl msgs"
    using select_classes_spec [of req "im_resources s" "ComputeDemands req"] assms(1,2)
    by (cases "select_classes req (im_resources s) (ComputeDemands req)") fastforce+
  then show ?thesis by (simp add: ComposeDeterministic_def)
qed

theorem many_of_class_rejected_witness:
  "\<not> compose_ok (fst (ComposeDeterministic (CompositionRequest_default\<lparr>rq_accelerator_count := 9\<rparr>) 0
     (FabricEngine ex_config\<lparr>im_resources := map (\<lambda>i. (StrongId i, ex_resource i RC_ACCELERATOR)) [1, 2, 3, 4, 5, 6, 7, 8, 9]\<rparr>)))"
proof -
  let ?req = "CompositionRequest_default\<lparr>rq_accelerator_count := 9\<rparr>"
  have d: "ComputeDemands ?req ! 1 \<in> set (ComputeDemands ?req)" by (simp add: ComputeDemands_def)
  show ?thesis by (rule many_of_class_rejected [OF d, THEN conjunct1]) code_simp+
qed

end
