(* ===== verification/Fabric_Bench.thy ===== *)
theory Fabric_Bench
  imports Fabric_Cli Fabric_Activation Fabric_Completeness
begin

text \<open>
  The control-plane benchmark \<open>bench/bench.cpp\<close>: the resources it makes up, the request it composes, the
  operations it measures and the table it prints.  The durations, which the clock gives, are arguments.
  Shown: for every number of resources from five on, each measured operation succeeds, so that the table
  compares completed operations.
\<close>

section \<open>Resources and request\<close>

definition d_16 :: double where "d_16 = 0x4030000000000000"

definition Mk_evidence :: "ResourceId \<Rightarrow> Evidence" where
  "Mk_evidence i = Evidence_default\<lparr>ev_id := StrongId (Value i), ev_generation := StrongGeneration 1, ev_source := SRC_BACKEND,
     ev_state := ES_FRESH, ev_timestamp_ms := 1, ev_max_age_ms := 3600000, ev_confidence := d_1, ev_durable := True\<rparr>"

definition Mk_capability :: "CapabilityKind \<Rightarrow> string \<Rightarrow> Evidence \<Rightarrow> Capability" where
  "Mk_capability kind detail e =
     \<lparr>cb_kind = kind, cb_state = CS_SUPPORTED, cb_generation = StrongGeneration 1, cb_evidence = ev_id e, cb_detail = detail\<rparr>"

definition Mk :: "ResourceId \<Rightarrow> ResourceClass \<Rightarrow> NodeId \<Rightarrow> double \<Rightarrow> Resource" where
  "Mk i cls node compute =
     (let e = Mk_evidence i;
          caps0 = (if cls = RC_COMPUTE then [Mk_capability CK_CPU_EXECUTION [] e] else []);
          caps1 = (if cls = RC_ACCELERATOR then caps0 @ [Mk_capability CK_CUDA_EXECUTION ''12.0'' e] else caps0);
          caps2 = (if cls = RC_HOST_MEMORY \<or> cls = RC_STORAGE \<or> cls = RC_NETWORK_ENDPOINT
                   then caps1 @ [Mk_capability (if cls = RC_HOST_MEMORY then CK_HOST_MEMORY_ACCESS
                     else if cls = RC_STORAGE then CK_PERSISTENT_STORAGE else CK_DIRECT_NETWORK_ACCESS) [] e]
                   else caps1)
      in Resource_default\<lparr>r_id := i, r_generation := StrongGeneration 1, r_resource_class := cls, r_node_id := node,
           r_provider := ''bench'', r_health := RH_HEALTHY, r_readiness := RD_READY, r_reachability := RB_REACHABLE,
           r_evidence := e,
           r_failure_domain := FailureDomain_default\<lparr>fd_id := StrongId (Value node), fd_type := FD_HOST, fd_name := ''bench-node''\<rparr>,
           r_capacity := Capacity_default\<lparr>cp_compute_units := compute, cp_host_memory_bytes := d_of_u64 (2 ^ 30),
             cp_storage_bytes := d_of_u64 (2 ^ 40), cp_network_bandwidth_mbps := d_of_u64 100000\<rparr>,
           r_capabilities := caps2\<rparr>)"

definition bench_class :: "nat \<Rightarrow> ResourceClass" where
  "bench_class i =
     (let cls = i mod 5 in
      if cls = 0 then RC_COMPUTE else if cls = 1 then RC_ACCELERATOR else if cls = 2 then RC_HOST_MEMORY
      else if cls = 3 then RC_STORAGE else RC_NETWORK_ENDPOINT)"

definition bench_resource :: "nat \<Rightarrow> Resource" where
  "bench_resource i = Mk (StrongId (word_of_nat (1000 + i))) (bench_class i) (StrongId 1) d_16"

definition bench_node :: Node where
  "bench_node =
     \<lparr>n_id = StrongId 1, n_generation = StrongGeneration 1, n_hostname = ''bench'', n_provider = ''bench'',
      n_backend = BK_SYNTHETIC, n_inventory = [],
      n_failure_domain = \<lparr>fd_id = StrongId 1, fd_type = FD_HOST, fd_name = ''rack'', fd_synthetic = True, fd_locality_coords = []\<rparr>,
      n_locality = Locality_default, n_reachability = RB_REACHABLE, n_health = RH_HEALTHY,
      n_worker_owner = [], n_worker_boot = StrongId 0, n_evidence_freshness_ms = 0,
      n_lifecycle = NL_VALIDATED, n_synthetic = True\<rparr>"

definition bench_config :: EngineConfig where
  "bench_config =
     \<lparr>cf_coordinator = StrongId 1, cf_epoch = StrongGeneration 1, cf_node_authority = [], cf_persist_authority_only = True\<rparr>"

definition bench_ingest :: "nat \<Rightarrow> Impl \<Rightarrow> Impl" where
  "bench_ingest n s =
     foldl (\<lambda>s i. snd (RegisterNode bench_node (snd (RegisterResource (bench_resource i) s)))) s [0..<n]"

definition bench_request :: CompositionRequest where
  "bench_request = CompositionRequest_default\<lparr>rq_compute_units := 1, rq_accelerator_count := 1, rq_accelerator_memory_bytes := d_1,
     rq_host_memory_bytes := d_1024, rq_storage_bytes := d_1024,
     rq_network_endpoint_count := 1, rq_min_bandwidth_mbps := d_1000, rq_max_latency_us := d_of_u64 100000,
     rq_mandatory_classes := {RC_COMPUTE, RC_ACCELERATOR, RC_HOST_MEMORY, RC_STORAGE, RC_NETWORK_ENDPOINT},
     rq_ignore_reachability := True\<rparr>"

section \<open>Measured operations and table\<close>

record Measured =
  me_compose :: ComposeResult
  me_reserve :: ReserveResult
  me_commit :: CommitResult
  me_snapshot :: RegistrySnapshot
  me_lookup :: "Resource option"

definition bench_run :: "nat \<Rightarrow> Measured" where
  "bench_run n =
     (let s0 = bench_ingest n (FabricEngine bench_config);
          (cr, s1) = Compose bench_request s0;
          (rr, s2) = Reserve (cr_plan cr) s1;
          (cc, s3) = Commit (re_reservation rr) s2
      in \<lparr>me_compose = cr, me_reserve = rr, me_commit = cc, me_snapshot = Snapshot s3, me_lookup = GetResource s3 (StrongId 1500)\<rparr>)"

text \<open>\<open>%.3f\<close>: three decimals of the exact value, rounded to nearest with ties to even.\<close>

definition fixed3 :: "double \<Rightarrow> string" where
  "fixed3 x =
     (if d_negative x then ''-'' else []) @
     (if d_is_nan x then ''nan''
      else if d_is_inf x then ''inf''
      else let v = round_half_even (d_man x * 2 ^ nat (d_exp x) * 10 ^ 3) 1074 in
        dec_string (v div 10 ^ 3) @ ''.'' @ pad_zeros 3 (dec_string (v mod 10 ^ 3)))"

text \<open>The durations in milliseconds: ingestion, planning, reservation with commit, snapshot, lookup.\<close>

record Durations =
  ms_ingestion :: double
  ms_compose :: double
  ms_reserve :: double
  ms_snapshot :: double
  ms_lookup :: double

definition bench_row :: "Durations \<Rightarrow> nat \<Rightarrow> Measured \<Rightarrow> string" where
  "bench_row t n m =
     pad_right 9 (int_string (int n)) @ '' '' @ pad_right 12 (fixed3 (ms_ingestion t)) @ '' '' @ pad_right 12 (fixed3 (ms_compose t)) @ '' '' @
     pad_right 14 (fixed3 (ms_reserve t)) @ '' '' @ pad_right 12 (fixed3 (ms_snapshot t)) @ '' '' @ pad_right 10 (fixed3 (ms_lookup t)) @
     ''  (compose='' @ (if compose_ok (me_compose m) then ''ok'' else ''REJECT'') @
     '', verts='' @ size_string (length (g_vertices (pl_graph (cr_plan (me_compose m))))) @ '')'' @ newline"

definition bench_main :: "(nat \<Rightarrow> Durations) \<Rightarrow> int \<times> string" where
  "bench_main clock =
     (0, ''resources  ingestion  compose      reserve+commit  snapshot    lookup'' @ newline @
         concat (map (\<lambda>n. bench_row (clock n) n (bench_run n)) [100, 1000, 10000]) @
         ''note: planning uses bounded staged filtering (top-K candidates per class), so scaling is near-linear'' @ newline)"

section \<open>The registry after ingestion\<close>

definition small :: "nat \<Rightarrow> bool" where
  "small n \<longleftrightarrow> n \<le> 2 ^ 31 - 1001"

lemma bench_resource_id [simp]: "r_id (bench_resource i) = StrongId (word_of_nat (1000 + i))"
  by (simp add: bench_resource_def Mk_def Let_def)

lemma bench_id_inj: "small n \<Longrightarrow> i < n \<Longrightarrow> j < n \<Longrightarrow> (word_of_nat (1000 + i) :: u64) = word_of_nat (1000 + j) \<longleftrightarrow> i = j"
  by (simp add: small_def word_of_nat_eq_iff take_bit_nat_eq_self del: of_nat_add)

lemma bench_id_valid: "small n \<Longrightarrow> i < n \<Longrightarrow> (word_of_nat (1000 + i) :: u64) \<noteq> 0"
  by (simp add: small_def word_of_nat_eq_0_iff nat_dvd_not_less del: of_nat_add)

lemma bench_node_again: "im_nodes (IngestNodeLocked bench_node s) = um_put (StrongId 1) bench_node (im_nodes s)"
  by (simp add: IngestNodeLocked_def bench_node_def IsValid_def Let_def split: option.split)

lemma bench_ingest_registry:
  assumes "small n"
  shows "bench_ingest n (FabricEngine cfg) =
    (FabricEngine cfg)\<lparr>im_nodes := (if n = 0 then [] else [(StrongId 1, bench_node)]),
       im_resources := map (\<lambda>i. (r_id (bench_resource i), bench_resource i)) [0..<n]\<rparr>"
  using assms
proof (induction n)
  case 0
  show ?case by (simp add: bench_ingest_def FabricEngine_def)
next
  case (Suc n)
  let ?m = "map (\<lambda>i. (r_id (bench_resource i), bench_resource i)) [0..<n]"
  have IH: "bench_ingest n (FabricEngine cfg) = (FabricEngine cfg)\<lparr>im_nodes := (if n = 0 then [] else [(StrongId 1, bench_node)]), im_resources := ?m\<rparr>"
    using Suc by (simp add: small_def)
  have new: "r_id (bench_resource n) \<notin> fst ` set ?m"
  proof
    assume "r_id (bench_resource n) \<in> fst ` set ?m"
    then obtain i where "i < n" "(word_of_nat (1000 + n) :: u64) = word_of_nat (1000 + i)" by auto
    then show False using bench_id_inj [OF Suc.prems, of n i] by simp
  qed
  then have "map_of ?m (r_id (bench_resource n)) = None" by (simp add: map_of_eq_None_iff del: bench_resource_id of_nat_add)
  moreover have "IsValid (r_id (bench_resource n))" using bench_id_valid [OF Suc.prems, of n] by (simp add: IsValid_def)
  moreover have "bench_ingest (Suc n) (FabricEngine cfg) = snd (RegisterNode bench_node (snd (RegisterResource (bench_resource n) (bench_ingest n (FabricEngine cfg)))))"
    by (simp add: bench_ingest_def)
  ultimately show ?case unfolding IH using um_put_new [OF new]
    by (auto simp: RegisterResource_def RegisterNode_def IngestResourceLocked_def IngestNodeLocked_def bench_node_def IsValid_def FabricEngine_def
        simp del: bench_resource_id of_nat_add)
qed

section \<open>Every row measures completed operations\<close>

lemma bench_resource_fields:
  "r_capacity (bench_resource i) = r_capacity (bench_resource 0)" "r_node_id (bench_resource i) = StrongId 1"
  "r_resource_class (bench_resource i) = bench_class i"
  by (simp_all add: bench_resource_def Mk_def Let_def)

lemma bench_dimension: "CapacityForDimension (bench_resource i) dim = CapacityForDimension (bench_resource 0) dim"
  unfolding CapacityForDimension_def bench_resource_fields(1) [of i] ..

lemma bench_demands:
  "\<forall>d \<in> set (ComputeDemands bench_request). cd_mandatory d \<longrightarrow>
     wanted d = 1 \<and> (\<exists>i \<in> set [0..<5]. bench_class i = cd_cls d) \<and>
     (cd_amount_based d \<longrightarrow> d_ge (CapacityForDimension (bench_resource 0) (cd_dimension d)) (cd_amount d))"
  by code_simp

lemma bench_first_capacity: "capacity_ok (bench_resource 0)"
  by code_simp

lemma bench_capacity: "capacity_ok (bench_resource i)"
  using bench_first_capacity unfolding capacity_ok_def bench_resource_fields(1) [of i] .

lemma bench_holdable: "holdable (bench_resource i)"
proof -
  have "d_amount d_1" by code_simp
  moreover have nonneg: "\<not> d_lt x 0" if "d_amount x" for x using held.amount_cases [OF that] by (auto simp: d_lt_def d_eq_def)
  ultimately show ?thesis using bench_capacity [of i]
    by (cases "r_resource_class (bench_resource i)") (simp_all add: holdable_def capacity_ok_def)
qed

lemma bench_eligible:
  assumes "small n" "i < n"
  shows "eligible (bench_resource i) bench_request"
proof -
  have "cb_state c = CS_SUPPORTED" if "FindCapability (bench_resource i) k = Some c" for k c
    using that by (auto simp: FindCapability_def bench_resource_def Mk_def Mk_capability_def Let_def split: if_splits)
  moreover have "\<exists>k. FindCapability (bench_resource i) k = Some c" if "c \<in> set (class_claims (bench_resource i))" for c
    using that by (auto simp: class_claims_def List.map_filter_def)
  ultimately have "cb_state c = CS_SUPPORTED" if "c \<in> set (class_claims (bench_resource i))" for c using that by blast
  then have "\<not> capability_unknown (bench_resource i)" by (auto simp: capability_unknown_def)
  then show ?thesis using bench_id_valid [OF assms]
    by (simp add: eligible_iff eligible_spec_def IsValid_def IsCurrent_def)
      (simp add: bench_resource_def Mk_def Mk_evidence_def Let_def bench_request_def CompositionRequest_default_def)
qed

lemma bench_supply:
  assumes "small n" "5 \<le> n"
  shows "one_node_supply bench_request (StrongId 1) (map (\<lambda>i. (r_id (bench_resource i), bench_resource i)) [0..<n])"
    (is "one_node_supply _ _ ?m")
proof -
  have supplied: "supplied bench_request ?m d" if d: "d \<in> set (ComputeDemands bench_request)" "cd_mandatory d" for d
  proof -
    from bench_demands d obtain i where i: "wanted d = 1" "i < 5" "bench_class i = cd_cls d" and
      amount: "cd_amount_based d \<Longrightarrow> d_ge (CapacityForDimension (bench_resource 0) (cd_dimension d)) (cd_amount d)" by auto
    have "bench_resource i \<in> set (candidates bench_request ?m (cd_cls d))"
    proof -
      have "i < n" using i(2) assms(2) by simp
      then have "(r_id (bench_resource i), bench_resource i) \<in> set ?m" by (auto simp del: bench_resource_id)
      from imageI [OF this, of snd] have "bench_resource i \<in> snd ` set ?m" by simp
      then show ?thesis unfolding candidates_set bench_resource_fields using bench_eligible [OF assms(1) \<open>i < n\<close>] i(3) by blast
    qed
    then have "1 \<le> length (candidates bench_request ?m (cd_cls d))" by (cases "candidates bench_request ?m (cd_cls d)") auto
    moreover have "d_ge (CapacityForDimension r (cd_dimension d)) (cd_amount d)"
      if "cd_amount_based d" "r \<in> set (candidates bench_request ?m (cd_cls d))" for r
    proof -
      from that(2) obtain j where "r = bench_resource j" by (auto simp: candidates_set)
      with amount [OF that(1)] show ?thesis using bench_dimension [of j] by simp
    qed
    ultimately show ?thesis using i(1) by (simp add: supplied_def)
  qed
  then show ?thesis by (auto simp: one_node_supply_def bench_capacity bench_resource_fields)
qed

lemma bench_one_node: "one_node_request bench_request"
  by code_simp

lemma bench_lookup:
  assumes "small n"
  shows "map_of (map (\<lambda>i. (r_id (bench_resource i), bench_resource i)) [0..<n]) (StrongId 1500) = (if 500 < n then Some (bench_resource 500) else None)"
    (is "map_of ?m _ = _")
proof -
  have id: "StrongId 1500 = r_id (bench_resource 500)" by simp
  have inj: "inj_on (\<lambda>i. r_id (bench_resource i)) {0..<k}" if "small k" for k
    by (rule inj_onI) (use bench_id_inj [OF that] in \<open>auto simp del: of_nat_add\<close>)
  show ?thesis
  proof (cases "500 < n")
    case True
    then have "(r_id (bench_resource 500), bench_resource 500) \<in> set ?m" by (auto simp del: bench_resource_id)
    moreover have "distinct (map fst ?m)" using inj [OF assms] by (simp add: distinct_map comp_def del: bench_resource_id)
    ultimately show ?thesis using True unfolding id by (auto intro: map_of_is_SomeI simp del: bench_resource_id)
  next
    case False
    have "StrongId 1500 \<notin> fst ` set ?m"
    proof
      assume "StrongId 1500 \<in> fst ` set ?m"
      then obtain i where "i < n" "r_id (bench_resource 500) = r_id (bench_resource i)" unfolding id by (auto simp del: bench_resource_id)
      with False inj [of 501] show False by (auto simp: small_def dest!: inj_onD simp del: bench_resource_id)
    qed
    then show ?thesis using False by (simp add: map_of_eq_None_iff del: bench_resource_id)
  qed
qed

text \<open>Planning, reserving and committing leave the registered resources alone.\<close>

lemma Compose_resources: "keys_ok s \<Longrightarrow> im_resources (snd (Compose req s)) = im_resources s"
  using ComposeDeterministic_cases [of s req 0] by (fastforce simp: Compose_def dest: keys_okD(1))

lemma Reserve_resources: "im_resources (snd (Reserve plan s)) = im_resources s"
  by (simp add: Reserve_def Let_def case_prod_beta split: option.split)

lemma Commit_resources: "im_resources (snd (Commit rv s)) = im_resources s"
  by (simp add: Commit_def Let_def case_prod_beta split: option.split)

lemma bench_completes:
  assumes "small n" "5 \<le> n"
  shows "compose_ok (me_compose (bench_run n)) \<and> reserve_ok (me_reserve (bench_run n)) \<and> commit_ok (me_commit (bench_run n)) \<and>
    map r_id (sn_resources (me_snapshot (bench_run n))) = map (\<lambda>i. StrongId (word_of_nat (1000 + i))) [0..<n] \<and>
    me_lookup (bench_run n) = (if 500 < n then Some (bench_resource 500) else None)"
proof -
  let ?s = "bench_ingest n (FabricEngine bench_config)" and ?m = "map (\<lambda>i. (r_id (bench_resource i), bench_resource i)) [0..<n]"
  have s: "im_resources ?s = ?m" "im_backends ?s = []" "im_next_comp ?s = 1" "im_fenced ?s = {}" "im_reserved_amount ?s = []"
    unfolding bench_ingest_registry [OF assms(1)] by (simp_all add: FabricEngine_def)
  have keys: "keys_ok ?s" unfolding bench_ingest_def by (rule foldl_keeps) (simp_all add: keys_ok_init inv_intros)
  obtain cr s1 where c: "Compose bench_request ?s = (cr, s1)" by fastforce
  have ok: "compose_ok cr"
    using one_node_composes [OF keys _ bench_one_node, of "StrongId 1" 0] bench_supply [OF assms] c
    by (simp add: s settled_def Compose_def)
  obtain rr s2 cc s3 where run: "Reserve (cr_plan cr) s1 = (rr, s2)" "reserve_ok rr" "Commit (re_reservation rr) s2 = (cc, s3)" "commit_ok cc"
    using composed_activates [OF keys c ok] bench_holdable by (fastforce simp: s held_amount_def held.zero_is_zero)
  have "im_resources s3 = ?m"
    using Reserve_resources [of "cr_plan cr" s1] Commit_resources [of "re_reservation rr" s2] Compose_resources [OF keys, of bench_request] run c s(1)
    by simp
  then have "bench_run n = \<lparr>me_compose = cr, me_reserve = rr, me_commit = cc, me_snapshot = Snapshot s3, me_lookup = map_of ?m (StrongId 1500)\<rparr>"
      "map snd (im_resources s3) = map bench_resource [0..<n]"
    using c run by (simp_all add: bench_run_def Let_def GetResource_def)
  then show ?thesis using ok run bench_lookup [OF assms(1)] by (simp add: Snapshot_def)
qed

text \<open>
  The benchmark measures completed operations at every size from five resources on: planning,
  reservation and commit succeed, the snapshot lists all the resources in the order of their
  registration, and the lookup finds resource 1500 exactly when there are more than 500 of them.
\<close>

theorem bench_operations_complete:
  assumes "small n" "5 \<le> n"
  shows "compose_ok (me_compose (bench_run n)) \<and> reserve_ok (me_reserve (bench_run n)) \<and> commit_ok (me_commit (bench_run n)) \<and>
    map r_id (sn_resources (me_snapshot (bench_run n))) = map (\<lambda>i. StrongId (word_of_nat (1000 + i))) [0..<n] \<and>
    me_lookup (bench_run n) = (if 500 < n then Some (bench_resource 500) else None)"
  by (rule bench_completes [OF assms])

theorem bench_operations_complete_witness:
  "me_lookup (bench_run 100) = None \<and> me_lookup (bench_run 10000) = Some (bench_resource 500)"
  using bench_operations_complete [of 100] bench_operations_complete [of 10000] by (simp add: small_def)

text \<open>
  The table: every row reports a successful composition.
\<close>

definition reports_success :: "Durations \<Rightarrow> nat \<Rightarrow> string \<Rightarrow> bool" where
  "reports_success t n row \<longleftrightarrow> (\<exists>v. row =
     pad_right 9 (int_string (int n)) @ '' '' @ pad_right 12 (fixed3 (ms_ingestion t)) @ '' '' @ pad_right 12 (fixed3 (ms_compose t)) @ '' '' @
     pad_right 14 (fixed3 (ms_reserve t)) @ '' '' @ pad_right 12 (fixed3 (ms_snapshot t)) @ '' '' @ pad_right 10 (fixed3 (ms_lookup t)) @
     ''  (compose=ok, verts='' @ size_string v @ '')'' @ newline)"

theorem bench_table:
  "\<exists>rows. list_all2 (\<lambda>n. reports_success (clock n) n) [100, 1000, 10000] rows \<and>
     bench_main clock = (0, ''resources  ingestion  compose      reserve+commit  snapshot    lookup'' @ newline @ concat rows @
       ''note: planning uses bounded staged filtering (top-K candidates per class), so scaling is near-linear'' @ newline)"
proof -
  have ok: "reports_success (clock n) n (bench_row (clock n) n (bench_run n))" if "small n" "5 \<le> n" for n
    using bench_completes [OF that] by (auto simp: reports_success_def bench_row_def)
  show ?thesis
    by (rule exI [of _ "map (\<lambda>n. bench_row (clock n) n (bench_run n)) [100, 1000, 10000]"]) (simp add: bench_main_def ok small_def)
qed

end
