(* ===== verification/Fabric_Saves.thy ===== *)
theory Fabric_Saves
  imports Fabric_Persistence Fabric_Lifecycle
begin

text \<open>
  Saving in small steps.  \<open>FabricEngine::Save\<close> holds the mutex only while it copies the state; encoding
  it and replacing the file (\<open>SaveImpl\<close> in \<open>src/dfabric/persistence.cpp\<close>) run outside, so the saves of two
  threads and the calls of others interleave, and a crash can stop a save at any file operation.  This
  theory gives the file operations one by one, shows that an uninterrupted save does what
  \<open>Fabric_Persistence\<close> says, what a crash leaves, and what two saves can do to each other.
\<close>

section \<open>The steps of one save\<close>

text \<open>The next file operation; the byte lists are the local buffers \<open>w.buf\<close> and \<open>b\<close>, the flags whether \<open>ifs\<close> is open.\<close>

datatype save_pc =
    Open_Tmp bytes
  | Write_Tmp bytes
  | Remove_Path
  | Reopen_Tmp
  | Open_Final bool
  | Read_Tmp bool
  | Write_Final bytes
  | Remove_Tmp
  | Returned bool string

abbreviation tmp_of :: "string \<Rightarrow> string" where "tmp_of path \<equiv> path @ ''.tmp''"

definition save_begin :: "Impl \<Rightarrow> save_pc" where
  "save_begin s = (case save_image (durable_state s) of Inl what \<Rightarrow> Returned False what | Inr buf \<Rightarrow> Open_Tmp buf)"

text \<open>Writing from the start of an open file: what is longer than the new bytes stays.\<close>

definition write_file :: "bytes \<Rightarrow> bytes \<Rightarrow> bytes" where
  "write_file buf old = buf @ drop (length buf) old"

text \<open>
  \<open>held\<close> tells which files another thread has open: those \<open>std::remove\<close> does not remove on Windows, the only
  platform where the source calls it.
\<close>

fun save_step :: "io_answers \<Rightarrow> (string \<Rightarrow> bool) \<Rightarrow> string \<Rightarrow> save_pc \<times> files \<Rightarrow> save_pc \<times> files" where
  "save_step io held path (Open_Tmp buf, fs) =
     (if \<not> io_opens_tmp io then (Returned False ''cannot open temp path for write'', fs)
      else (Write_Tmp buf, fs(tmp_of path \<mapsto> [])))"
| "save_step io held path (Write_Tmp buf, fs) =
     (if \<not> io_write_good io then (Returned False ''write failed'', fs(tmp_of path \<mapsto> io_partial_tmp io))
      else (Remove_Path, fs(tmp_of path := map_option (write_file buf) (fs (tmp_of path)))))"
| "save_step io held path (Remove_Path, fs) =
     (Reopen_Tmp, if io_win32 io \<and> io_removes io \<and> \<not> held path then fs(path := None) else fs)"
| "save_step io held path (Reopen_Tmp, fs) = (Open_Final (io_reopens_tmp io \<and> fs (tmp_of path) \<noteq> None), fs)"
| "save_step io held path (Open_Final opened, fs) =
     (if \<not> io_opens_final io then (Returned False ''cannot open final path'', fs)
      else (Read_Tmp opened, fs(path \<mapsto> [])))"
| "save_step io held path (Read_Tmp opened, fs) =
     (if \<not> opened then (Returned False (io_exception io), fs)
      else (Write_Final (case fs (tmp_of path) of None \<Rightarrow> [] | Some b \<Rightarrow> b), fs))"
| "save_step io held path (Write_Final b, fs) =
     (Remove_Tmp, fs(path := (case io_final io of None \<Rightarrow> map_option (write_file b) (fs path) | Some left \<Rightarrow> Some left)))"
| "save_step io held path (Remove_Tmp, fs) =
     (Returned True [], if io_win32 io \<and> io_removes_tmp io \<and> \<not> held (tmp_of path) then fs(tmp_of path := None) else fs)"
| "save_step io held path (Returned good err, fs) = (Returned good err, fs)"

fun save_steps :: "io_answers \<Rightarrow> (string \<Rightarrow> bool) \<Rightarrow> string \<Rightarrow> nat \<Rightarrow> save_pc \<times> files \<Rightarrow> save_pc \<times> files" where
  "save_steps io held path 0 x = x"
| "save_steps io held path (Suc n) x = save_steps io held path n (save_step io held path x)"

section \<open>Threads that save\<close>

text \<open>The files a save has open before its next step.\<close>

fun save_holds :: "string \<Rightarrow> save_pc \<Rightarrow> string \<Rightarrow> bool" where
  "save_holds path (Write_Tmp buf) p = (p = tmp_of path)"
| "save_holds path (Open_Final opened) p = (opened \<and> p = tmp_of path)"
| "save_holds path (Read_Tmp opened) p = (p = path \<or> opened \<and> p = tmp_of path)"
| "save_holds path (Write_Final b) p = (p = path \<or> p = tmp_of path)"
| "save_holds path Remove_Tmp p = (p = tmp_of path)"
| "save_holds path _ p = False"

record Saving =
  sg_engine :: Impl
  sg_files :: files
  sg_savers :: "(nat, save_pc) umap"

datatype save_event = Engine_Call engine_event | Save_Call nat | Save_Step nat

definition held_by_others :: "string \<Rightarrow> nat \<Rightarrow> (nat, save_pc) umap \<Rightarrow> string \<Rightarrow> bool" where
  "held_by_others path k savers p = list_ex (\<lambda>(j, pc). j \<noteq> k \<and> save_holds path pc p) savers"

fun saving_step :: "(nat \<Rightarrow> io_answers) \<Rightarrow> string \<Rightarrow> save_event \<Rightarrow> Saving \<Rightarrow> Saving" where
  "saving_step io path (Engine_Call e) g = g\<lparr>sg_engine := run_event e (sg_engine g)\<rparr>"
| "saving_step io path (Save_Call k) g = g\<lparr>sg_savers := um_put k (save_begin (sg_engine g)) (sg_savers g)\<rparr>"
| "saving_step io path (Save_Step k) g =
     (case map_of (sg_savers g) k of
        None \<Rightarrow> g
      | Some pc \<Rightarrow>
        (let (pc', fs') = save_step (io k) (held_by_others path k (sg_savers g)) path (pc, sg_files g) in
         g\<lparr>sg_files := fs', sg_savers := um_put k pc' (sg_savers g)\<rparr>))"

definition saving_run :: "(nat \<Rightarrow> io_answers) \<Rightarrow> string \<Rightarrow> save_event list \<Rightarrow> Saving \<Rightarrow> Saving" where
  "saving_run io path es g = foldl (\<lambda>g e. saving_step io path e g) g es"

section \<open>A save that is not interrupted\<close>

lemma write_file_empty [simp]: "write_file b [] = b"
  by (simp add: write_file_def)

lemma tmp_not_path [simp]: "tmp_of path \<noteq> path" "path \<noteq> tmp_of path"
  by simp_all

lemma save_steps_eight:
  assumes "\<And>p. \<not> held p"
  shows "save_steps io held path 8 (save_begin s, fs) =
    (let ((good, err), fs') = SaveImpl io (durable_state s) path fs in (Returned good err, fs'))"
  using assms
  by (simp add: numeral_eq_Suc save_begin_def SaveImpl_def Let_def fun_upd_twist split: sum.split option.split)

lemma held_own [simp]: "held_by_others path k (um_put k pc m) = held_by_others path k m"
proof (rule ext)
  show "held_by_others path k (um_put k pc m) p = held_by_others path k m p" for p
    by (induction m) (auto simp: held_by_others_def)
qed

lemma saving_run_Cons [simp]: "saving_run io path (e # es) g = saving_run io path es (saving_step io path e g)"
  by (simp add: saving_run_def)

lemma saving_run_append: "saving_run io path (es @ es') g = saving_run io path es' (saving_run io path es g)"
  by (simp add: saving_run_def)

lemma engine_calls: "saving_run io path (map Engine_Call es) g = g\<lparr>sg_engine := run_events es (sg_engine g)\<rparr>"
  by (induction es arbitrary: g) (simp_all add: run_events_def saving_run_def)

text \<open>A thread that runs alone, while the others have neither file open.\<close>

lemma thread_runs:
  assumes "map_of (sg_savers g) k = Some pc" "held_by_others path k (sg_savers g) = (\<lambda>_. False)"
  shows "saving_run io path (replicate n (Save_Step k)) g =
    g\<lparr>sg_files := snd (save_steps (io k) (\<lambda>_. False) path n (pc, sg_files g)),
      sg_savers := um_put k (fst (save_steps (io k) (\<lambda>_. False) path n (pc, sg_files g))) (sg_savers g)\<rparr>"
  using assms
proof (induction n arbitrary: g pc)
  case 0
  then show ?case by (simp add: saving_run_def update_triv)
next
  case (Suc n)
  obtain pc' fs' where x: "save_step (io k) (\<lambda>_. False) path (pc, sg_files g) = (pc', fs')" by fastforce
  have "saving_step io path (Save_Step k) g = g\<lparr>sg_files := fs', sg_savers := um_put k pc' (sg_savers g)\<rparr>"
    using Suc.prems x by simp
  moreover note Suc.IH [of "g\<lparr>sg_files := fs', sg_savers := um_put k pc' (sg_savers g)\<rparr>" pc']
  ultimately show ?case using Suc.prems x by (simp add: update_conv')
qed

lemma save_alone:
  assumes "held_by_others path k (sg_savers g) = (\<lambda>_. False)"
    and "SaveImpl (io k) (durable_state (sg_engine g)) path (sg_files g) = ((good, err), fs')"
  shows "saving_run io path (Save_Call k # replicate 8 (Save_Step k)) g =
    g\<lparr>sg_files := fs', sg_savers := um_put k (Returned good err) (sg_savers g)\<rparr>"
proof -
  let ?g = "saving_step io path (Save_Call k) g"
  have "map_of (sg_savers ?g) k = Some (save_begin (sg_engine g))" by (simp add: update_conv')
  moreover have "held_by_others path k (sg_savers ?g) = (\<lambda>_. False)" using assms(1) by simp
  ultimately have "saving_run io path (replicate 8 (Save_Step k)) ?g =
    ?g\<lparr>sg_files := snd (save_steps (io k) (\<lambda>_. False) path 8 (save_begin (sg_engine g), sg_files ?g)),
      sg_savers := um_put k (fst (save_steps (io k) (\<lambda>_. False) path 8 (save_begin (sg_engine g), sg_files ?g))) (sg_savers ?g)\<rparr>"
    by (rule thread_runs)
  then show ?thesis using save_steps_eight [of "\<lambda>_. False"] assms(2) by simp
qed

text \<open>
  C1. A save in small steps is the save of the other theories: when no other thread is inside a save with
  a file open, the nine steps of a thread end, whatever the disk answers, with the result of
  \<open>FabricEngine::Save\<close>, with the files it leaves, and with the engine unchanged.
\<close>

theorem uninterrupted_save:
  assumes "\<forall>(j, pc) \<in> set (sg_savers g). j \<noteq> k \<longrightarrow> \<not> save_holds path pc path \<and> \<not> save_holds path pc (tmp_of path)"
  shows "let g' = saving_run io path (Save_Call k # replicate 8 (Save_Step k)) g in
    (\<exists>err. map_of (sg_savers g') k = Some (Returned (fst (engine_Save (io k) path (sg_engine g) (sg_files g))) err)) \<and>
    sg_files g' = snd (engine_Save (io k) path (sg_engine g) (sg_files g)) \<and> sg_engine g' = sg_engine g"
proof -
  have "\<not> save_holds path pc p" if "\<not> save_holds path pc path" "\<not> save_holds path pc (tmp_of path)" for pc p
    using that by (cases "(path, pc, p)" rule: save_holds.cases) auto
  with assms have "held_by_others path k (sg_savers g) = (\<lambda>_. False)"
    by (fastforce simp: held_by_others_def list_ex_iff fun_eq_iff)
  moreover obtain good err fs' where
    x: "SaveImpl (io k) (durable_state (sg_engine g)) path (sg_files g) = ((good, err), fs')" by (metis surj_pair)
  ultimately show ?thesis using save_alone by (simp del: saving_run_Cons add: engine_Save_def Let_def update_conv')
qed

section \<open>Crashes\<close>

text \<open>Where the old and the new contents are before each step, on a disk that works.\<close>

fun crash_inv :: "string \<Rightarrow> bytes \<Rightarrow> files \<Rightarrow> save_pc \<times> files \<Rightarrow> bool" where
  "crash_inv path buf fs (Open_Tmp b, fs') = (b = buf \<and> fs' path = fs path)"
| "crash_inv path buf fs (Write_Tmp b, fs') = (b = buf \<and> fs' path = fs path \<and> fs' (tmp_of path) = Some [])"
| "crash_inv path buf fs (Open_Final opened, fs') = (opened \<and> fs' (tmp_of path) = Some buf)"
| "crash_inv path buf fs (Read_Tmp opened, fs') = (opened \<and> fs' (tmp_of path) = Some buf \<and> fs' path = Some [])"
| "crash_inv path buf fs (Write_Final b, fs') = (b = buf \<and> fs' (tmp_of path) = Some buf \<and> fs' path = Some [])"
| "crash_inv path buf fs (Remove_Tmp, fs') = (fs' path = Some buf)"
| "crash_inv path buf fs (Returned good err, fs') = (fs' path = Some buf)"
| "crash_inv path buf fs (_, fs') = (fs' (tmp_of path) = Some buf)"

lemma crash_inv_step:
  assumes "io_opens_tmp io" "io_write_good io" "io_opens_final io" "io_reopens_tmp io" "io_final io = None"
    and "crash_inv path buf fs x"
  shows "crash_inv path buf fs (save_step io held path x)"
  using assms by (cases "(path, buf, fs, x)" rule: crash_inv.cases) auto

lemma crash_inv_steps:
  assumes "io_opens_tmp io" "io_write_good io" "io_opens_final io" "io_reopens_tmp io" "io_final io = None"
  shows "crash_inv path buf fs x \<Longrightarrow> crash_inv path buf fs (save_steps io held path n x)"
  by (induction n arbitrary: x) (simp_all add: crash_inv_step [OF assms])



section \<open>Saves that overlap\<close>

text \<open>
  Overlapping saves can lose the newer state: a thread copies the engine's state, then other calls change
  it and a second thread saves it completely, so that the file holds the new state; then the first
  thread goes on and puts the old state back.  Both saves report success.
\<close>

theorem late_save_reverts:
  fixes s :: Impl and es :: "engine_event list"
  assumes "keys_ok s" "durable_fits (durable_state s)" "io_good (io 0)"
    and "keys_ok (run_events es s)" "durable_fits (durable_state (run_events es s))" "io_good (io 1)"
  shows "let g1 = saving_run io path (Save_Call 0 # map Engine_Call es @ Save_Call 1 # replicate 8 (Save_Step 1))
             \<lparr>sg_engine = s, sg_files = fs, sg_savers = []\<rparr>;
           g2 = saving_run io path (replicate 8 (Save_Step 0)) g1
    in recovers (run_events es s) (engine_Load True path (sg_files g1) t) \<and>
       recovers s (engine_Load True path (sg_files g2) t) \<and>
       map_of (sg_savers g2) 0 = Some (Returned True []) \<and> map_of (sg_savers g2) 1 = Some (Returned True []) \<and>
       sg_engine g2 = run_events es s"
proof -
  let ?g0 = "\<lparr>sg_engine = run_events es s, sg_files = fs, sg_savers = [(0, save_begin s)]\<rparr>"
  have good: "\<exists>fs2. SaveImpl io' (durable_state s') path fs1 = ((True, []), fs2) \<and> recovers s' (engine_Load True path fs2 t)"
    if fine: "keys_ok s'" "durable_fits (durable_state s')" "io_good io'" for s' io' fs1
  proof -
    obtain buf where "save_image (durable_state s') = Inr buf" using image_recovers [OF fine(1,2)] by blast
    with save_load_recovers [OF fine, of path fs1 t] fine(3) show ?thesis
      by (simp add: engine_Save_def SaveImpl_def io_good_def Let_def)
  qed
  obtain fs1 where new: "SaveImpl (io 1) (durable_state (run_events es s)) path fs = ((True, []), fs1)"
      "recovers (run_events es s) (engine_Load True path fs1 t)" using good [OF assms(4-6)] by blast
  obtain fs2 where old: "SaveImpl (io 0) (durable_state s) path fs1 = ((True, []), fs2)"
      "recovers s (engine_Load True path fs2 t)" using good [OF assms(1-3)] by blast
  have free: "\<not> save_holds path (save_begin s) p" for p by (simp add: save_begin_def split: sum.split)
  have g1: "saving_run io path (Save_Call 0 # map Engine_Call es @ Save_Call 1 # replicate 8 (Save_Step 1))
      \<lparr>sg_engine = s, sg_files = fs, sg_savers = []\<rparr> =
    \<lparr>sg_engine = run_events es s, sg_files = fs1, sg_savers = [(0, save_begin s), (1, Returned True [])]\<rparr>"
    using save_alone [of path 1 ?g0 io] free new(1)
    by (simp add: saving_run_append engine_calls held_by_others_def fun_eq_iff)
  let ?g1 = "\<lparr>sg_engine = run_events es s, sg_files = fs1, sg_savers = [(0, save_begin s), (1, Returned True [])]\<rparr>"
  have "saving_run io path (replicate 8 (Save_Step 0)) ?g1 = ?g1\<lparr>sg_files := fs2, sg_savers := [(0, Returned True []), (1, Returned True [])]\<rparr>"
    using thread_runs [of ?g1 0 "save_begin s" path io 8] save_steps_eight [of "\<lambda>_. False" "io 0" path s fs1] old(1)
    by (simp add: held_by_others_def fun_eq_iff)
  then show ?thesis unfolding g1 Let_def using new(2) old(2) by simp
qed

theorem late_save_reverts_witness:
  "\<exists>fs1 fs2. recovers (OnPolicyUpdate (StrongId 3) (StrongGeneration 2) ex_saved) (engine_Load True ''state'' fs1 (FabricEngine ex_config)) \<and>
     recovers ex_saved (engine_Load True ''state'' fs2 (FabricEngine ex_config)) \<and>
     im_policies ex_saved \<noteq> im_policies (OnPolicyUpdate (StrongId 3) (StrongGeneration 2) ex_saved)"
proof -
  let ?es = "[Ev_OnPolicyUpdate (StrongId 3) (StrongGeneration 2)]" and ?s = "OnPolicyUpdate (StrongId 3) (StrongGeneration 2) ex_saved"
  have run: "run_events ?es ex_saved = ?s" by (simp add: run_events_def)
  have io: "io_good ex_io" by (simp add: io_good_def ex_io_def)
  have states: "im_policies ex_saved = []" "im_policies ?s = [(StrongId 3, StrongGeneration 2)]"
      "durable_state ?s = (durable_state ex_saved)\<lparr>ds_policies := [(StrongId 3, StrongGeneration 2)]\<rparr>"
    by (simp_all add: OnPolicyUpdate_def durable_state_def ex_saved_def RegisterResource_def RegisterNode_def
        IngestNodeLocked_def IngestResourceLocked_def FabricEngine_def um_map_values_def Let_def)
  have "keys_ok ?s" using ex_saved_ok(1) by (intro inv_intros)
  moreover from states(3) ex_saved_ok(2) have "durable_fits (durable_state ?s)" by (simp add: durable_fits_def format_limits)
  ultimately show ?thesis
    using late_save_reverts [where s = ex_saved and es = ?es and io = "\<lambda>_. ex_io" and path = "''state''" and t = "FabricEngine ex_config"]
      ex_saved_ok io unfolding run states(1,2) Let_def by fastforce
qed

theorem uninterrupted_save_witness:
  "sg_files (saving_run (\<lambda>_. ex_io) ''state'' (Save_Call 0 # replicate 8 (Save_Step 0))
     \<lparr>sg_engine = ex_saved, sg_files = Map.empty, sg_savers = [(1, Returned True [])]\<rparr>) =
   snd (engine_Save ex_io ''state'' ex_saved Map.empty)"
  using uninterrupted_save [of "\<lparr>sg_engine = ex_saved, sg_files = Map.empty, sg_savers = [(1, Returned True [])]\<rparr>" 0 "''state''" "\<lambda>_. ex_io"]
  unfolding Let_def by simp

end
