(* ===== verification/Spec2Isabelle.thy ===== *)
theory Spec2Isabelle
  imports Fabric_Process Fabric_Consumer Fabric_Bench Fabric_Saves
begin

text \<open>
  Disaggregation Fabric: verification of the composition engine, its wire and file formats, its
  backends, the two processes built on them, the inspection tool, the examples, the benchmark and the
  sample consumer.

  \<^bold>\<open>The program.\<close>  The fabric composes resources of separate nodes (compute, accelerators,
  memory, storage, network endpoints) into resource sets.  A \<open>FabricEngine\<close>
  (\<open>src/dfabric/engine.cpp\<close>) keeps a registry of nodes and resources that backends
  (\<open>backends/\<close>) and workers publish, plans a composition for a request, reserves its members
  exclusively, commits and activates it, and takes the authority away again when a generation, the
  coordinator's epoch, a policy or a path changes.  A coordinator and workers (\<open>deploy/\<close>) talk over
  a framed TCP protocol (\<open>src/dfabric/protocol.cpp\<close>) whose payloads \<open>include/dfabric/codec.hpp\<close>
  encodes, on the socket wrappers of \<open>include/dfabric/socket.hpp\<close>; the engine's state is saved to a file
  (\<open>src/dfabric/persistence.cpp\<close>).  \<open>tools/dfabric_cli.cpp\<close> prints what a backend publishes and what the
  engine makes of it; \<open>examples/examples.cpp\<close> and \<open>consumer/main.cpp\<close> run the engine on the synthetic
  backend, and \<open>bench/bench.cpp\<close> on registries of growing size.

  \<^bold>\<open>The theories.\<close>
  \<^item> \<open>Fabric_Prelude\<close>: words, association tables for \<open>std::unordered_map\<close> and \<open>std::map\<close> (locales
    \<open>key_store\<close>, \<open>erasable_store\<close>), \<open>std::to_string\<close>, \<open>std::sort\<close> under a comparator.
  \<^item> \<open>Binary64\<close>: the C++ type \<open>double\<close> on its bit pattern, with correctly rounded sums and products.
  \<^item> \<open>Fabric_Ids\<close>, \<open>Fabric_Enums\<close>, \<open>Fabric_Model\<close>: \<open>ids.hpp\<close>, \<open>enums.hpp\<close> and the structs of
    \<open>model.hpp\<close>, \<open>graph.hpp\<close>, \<open>requirement.hpp\<close>, \<open>authority.hpp\<close>, \<open>composition.hpp\<close>, \<open>backend.hpp\<close>.
  \<^item> \<open>Fabric_Eligibility\<close>, \<open>Fabric_Graph\<close>: the pure functions in the first part of \<open>engine.cpp\<close>:
    demands, eligibility, graph construction and validation, authority, revalidation, ranking.
  \<^item> \<open>Fabric_Engine\<close>: \<open>FabricEngine::Impl\<close> as a record, ingestion, discovery, invalidation, queries.
  \<^item> \<open>Fabric_Planner\<close>: \<open>ComposeDeterministic\<close> with its bounded enumerations.
  \<^item> \<open>Fabric_Completeness\<close>: when the bounded search finds a plan, and a kind of request it always rejects.
  \<^item> \<open>Fabric_Reservation\<close>: \<open>Reserve\<close>, \<open>Commit\<close>, \<open>Activate\<close>, drain, \<open>Release\<close>, \<open>Recompute\<close>, and the state
    that \<open>Save\<close> and \<open>Load\<close> move.
  \<^item> \<open>Fabric_Ledger\<close>: the ledger of held amounts is exact and exclusive.
  \<^item> \<open>Fabric_Lifecycle\<close>: the engine as a state machine over all its operations.
  \<^item> \<open>Fabric_Activation\<close>: the way from a plan to an active composition, and from a composition to its
    replacement.
  \<^item> \<open>Fabric_Bytes\<close>, \<open>Fabric_Protocol\<close>: little-endian integers, the FNV-1a checksum, frames and the
    incremental decoder.
  \<^item> \<open>Fabric_Wire\<close>, \<open>Fabric_Codec\<close>: \<open>WireWriter\<close> and \<open>WireReader\<close>, the statement forms the decoders are made
    of with the laws that compose (locales \<open>record_format\<close>, \<open>wire_format\<close>), and every \<open>Encode\<close> and
    \<open>Decode\<close> function.
  \<^item> \<open>Fabric_Persistence\<close>: the durable image and what \<open>SaveImpl\<close> and \<open>LoadImpl\<close> do to a map of files.
  \<^item> \<open>Fabric_Saves\<close>: saving as single file operations, with crashes and with saves of other threads in between.
  \<^item> \<open>Fabric_Clib\<close>: what the programs use of the C library on text: \<open>atoi\<close>, \<open>strtoull\<close>, string searches and
    the conversions of \<open>printf\<close>.
  \<^item> \<open>Fabric_Sockets\<close>: \<open>TcpSocket\<close> and \<open>ServerSocket\<close> over the handles of the operating system, programs that use
    them in any order, and the send loop.
  \<^item> \<open>Fabric_Synthetic\<close>, \<open>Fabric_System\<close>: the two backends, and what discovery relies on of them (locale
    \<open>backend_contract\<close>, and \<open>complete_backend\<close> for what a first discovery leaves in the registry).
  \<^item> \<open>Fabric_Coordinator\<close>, \<open>Fabric_Worker\<close>: the frame handlers of the two processes, the coordinator with
    any number of connections as a state machine, and the two processes together.
  \<^item> \<open>Fabric_Process\<close>: the two \<open>main\<close> functions with their options, messages, exit codes and sockets, and
    the coordinator with its accept loop and connection threads.
  \<^item> \<open>Fabric_Cli\<close>, \<open>Fabric_Demo\<close>, \<open>Fabric_Consumer\<close>, \<open>Fabric_Bench\<close>: the inspection tool, the examples, the
    sample consumer and the benchmark, as the text they print.
  \<^item> \<open>Fabric_Examples\<close>: concrete inputs on which the other theories evaluate.

  \<^bold>\<open>State and effects.\<close>  A member function that keeps the engine's mutex for its whole body is one
  function from state to state, with its result; \<open>Recompute\<close> drops the mutex between its phases and is
  also given as the sequence of its phases, between which other operations may run.  Every rejection
  of the source is a value of the result records, with the reasons and notes it pushes.  An exception
  of a writer is a value, and ends the process when no handler catches it.  A decoder is a sequence of
  statements on the object it fills and a reader, so that what it leaves behind when it fails is
  modelled too: the coordinator uses such objects.  Integers keep their width.  A hashed table is a list
  whose order stands for any iteration order; that the planner's answer does not depend on it is a
  theorem.  Backends, which are abstract in the engine, are records of answers.  The operating system
  (files, sends, the answers of Winsock, the host's figures) is a parameter.  A socket object is its
  handle; the handles that are open and the log of the closed ones are state, so that a leak or a
  second close can be stated.

  \<^bold>\<open>What is shown.\<close>  Over every reachable state of the engine: active compositions are bound to the
  current epoch and generations, only activation gives authority, released ids stay fenced, lifecycles
  move along the edges of the state machine, and the ledger holds exactly the claims of the live
  reservations, each resource at most once.  Per operation: a planned composition is sound and is the
  first of maximal rank, on one node with enough candidates there always is a plan (but never for more
  than eight resources of a class), a plan whose members are free becomes active, a
  composition for which there is another plan is replaced, a rejected reservation changes nothing, a failed commit and a drain give
  everything back, \<open>Load\<close> restores no authority.  For the bytes: streams of frames round-trip, chunking
  does not matter, the buffer is bounded, hostile headers and single-byte corruption are rejected; every
  payload round-trips, its proper prefixes are refused and no decoder reads outside it; a saved file
  loads to what was saved, a damaged one is refused, and wherever a save stops, the old or the new state
  is in one of its two files.  For the processes: the coordinator's engine
  only ever makes the steps of the engine's state machine, whatever its peers send; only workers
  publish; evidence is current only while its worker is connected; what a client was told is on disk;
  and what a worker republishes is registered as its own.  The coordinator with its sockets and threads
  refines its frame handlers; every socket handle has one owner and is closed once; command lines are
  understood as printed; a worker ends when its connection does.  The tool lists all of a backend and
  labels it truthfully; the tool, all six scenarios of the examples and the consumer print what they
  claim; every row of the benchmark measures operations that completed.

  \<^bold>\<open>Bounds.\<close>  All functions are total.  The planner's loops are structural or bounded by the caps of the
  source (8 candidates, 24 selections per class, 400 combinations); the decoder's loop is measured by
  the length of its buffer; the counted loops of the codec run as often as the count they read.  The
  send loop runs on the list of the operating system's answers, and ends when these accept the frame;
  the worker's loop runs on the list of what it receives, and ends when this reports the end.
  Memory is unbounded.

  \<^bold>\<open>Not modelled.\<close>  Hash functions (a hashed table is its entries), the mutex itself and preemption inside
  a frame handler of the coordinator (each makes at most one call that changes the engine, and they interleave as
  whole steps; only the saves they end with are also given in small steps), the
  buffering of output streams, the clock (the benchmark's durations are arguments), and \<open>WSAStartup\<close>.
  The tests hold no logic of their own.
\<close>

end
